theory Spec2Isabelle
  imports Complex_Main
begin

section \<open>Python values and exceptions\<close>

text \<open>
  The character sheet (\<^verbatim>\<open>char_sheet/fields.py\<close>) runs under Python 3: the shell that loads it
  (\<^verbatim>\<open>char_sheet/cli.py\<close>) starts with \<^verbatim>\<open>#!/usr/bin/env python3\<close>, calls \<^verbatim>\<open>print(...)\<close> and
  \<^verbatim>\<open>input(...)\<close>, and \<^verbatim>\<open>fields.py\<close> imports \<^verbatim>\<open>reduce\<close> from \<^verbatim>\<open>functools\<close>.
  A stat's \<^verbatim>\<open>normal\<close> and \<^verbatim>\<open>value\<close> hold whatever \<^verbatim>\<open>eval\<close> returned: \<^verbatim>\<open>None\<close> before the first
  recompute, an \<^verbatim>\<open>int\<close>, or a \<^verbatim>\<open>float\<close> (the result of \<^verbatim>\<open>/\<close>). An \<^verbatim>\<open>int\<close> is unbounded. A
  \<^verbatim>\<open>float\<close> is an IEEE 754 double; the model holds a finite double as the rational it
  denotes, and has no infinity and no NaN.
\<close>

datatype pyval = PNone | PInt int | PFloat rat

datatype exc =
    RuntimeError
  | DependencyError string
  | FormulaError string
  | ValueError
  | KeyError
  | TypeError
  | NameError
  | AttributeError
  | ZeroDivisionError
  | SyntaxError
  | RecursionError
  | Unsupported

text \<open>\<^verbatim>\<open>e.__class__.__name__\<close>, as \<^verbatim>\<open>Stat.plug\<close> prints it into the message of a FormulaError.\<close>

fun exc_name :: "exc \<Rightarrow> string" where
  "exc_name RuntimeError = ''RuntimeError''"
| "exc_name (DependencyError m) = ''DependencyError''"
| "exc_name (FormulaError m) = ''FormulaError''"
| "exc_name ValueError = ''ValueError''"
| "exc_name KeyError = ''KeyError''"
| "exc_name TypeError = ''TypeError''"
| "exc_name NameError = ''NameError''"
| "exc_name AttributeError = ''AttributeError''"
| "exc_name ZeroDivisionError = ''ZeroDivisionError''"
| "exc_name SyntaxError = ''SyntaxError''"
| "exc_name RecursionError = ''RecursionError''"
| "exc_name Unsupported = ''Unsupported''"

subsection \<open>Arithmetic and comparison of Python numbers\<close>

text \<open>
  The finite doubles are the numbers \<open>m * 2 ^ e\<close> with \<open>\<bar>m\<bar> < 2 ^ 53\<close> and \<open>- 1074 \<le> e \<le> 971\<close>.
\<close>

definition is_double :: "rat \<Rightarrow> bool" where
  "is_double q =
     ((\<exists>k\<in>{0..1074::nat}. q * 2 ^ k = of_int \<lfloor>q * 2 ^ k\<rfloor> \<and> \<bar>q * 2 ^ k\<bar> < 2 ^ 53)
      \<or> (\<exists>k\<in>{0..971::nat}. q / 2 ^ k = of_int \<lfloor>q / 2 ^ k\<rfloor> \<and> \<bar>q / 2 ^ k\<bar> < 2 ^ 53))"

text \<open>
  An operation on doubles returns the double nearest to the exact result: the exact
  result when that is a double. The model follows float arithmetic that far. Where
  Python would round, overflow to infinity or (from there) reach NaN, and where it would
  round an \<^verbatim>\<open>int\<close> operand on its way to a \<^verbatim>\<open>float\<close> or raise OverflowError for it, the model
  answers \<^const>\<open>Unsupported\<close>: nothing is said about such a run.
\<close>

definition to_float :: "rat \<Rightarrow> exc + pyval" where
  "to_float r = (if is_double r then Inr (PFloat r) else Inl Unsupported)"

text \<open>
  A binary operator: \<open>fi\<close> on two \<^verbatim>\<open>int\<close>s, \<open>fr\<close> on two \<^verbatim>\<open>float\<close>s, an \<^verbatim>\<open>int\<close> beside a \<^verbatim>\<open>float\<close>
  being converted first.
\<close>

definition num_op ::
  "(int \<Rightarrow> int \<Rightarrow> exc + pyval) \<Rightarrow> (rat \<Rightarrow> rat \<Rightarrow> exc + pyval) \<Rightarrow> pyval \<Rightarrow> pyval \<Rightarrow> exc + pyval" where
  "num_op fi fr a b =
     (case a of
        PNone \<Rightarrow> Inl TypeError
      | PInt x \<Rightarrow> (case b of PNone \<Rightarrow> Inl TypeError
                   | PInt y \<Rightarrow> fi x y
                   | PFloat y \<Rightarrow> if is_double (of_int x) then fr (of_int x) y else Inl Unsupported)
      | PFloat x \<Rightarrow> (case b of PNone \<Rightarrow> Inl TypeError
                   | PInt y \<Rightarrow> if is_double (of_int y) then fr x (of_int y) else Inl Unsupported
                   | PFloat y \<Rightarrow> fr x y))"

definition py_add :: "pyval \<Rightarrow> pyval \<Rightarrow> exc + pyval" where
  "py_add = num_op (\<lambda>x y. Inr (PInt (x + y))) (\<lambda>x y. to_float (x + y))"

definition py_sub :: "pyval \<Rightarrow> pyval \<Rightarrow> exc + pyval" where
  "py_sub = num_op (\<lambda>x y. Inr (PInt (x - y))) (\<lambda>x y. to_float (x - y))"

definition py_mul :: "pyval \<Rightarrow> pyval \<Rightarrow> exc + pyval" where
  "py_mul = num_op (\<lambda>x y. Inr (PInt (x * y))) (\<lambda>x y. to_float (x * y))"

text \<open>
  Python 3: \<^verbatim>\<open>/\<close> is true division and always yields a float, for two \<^verbatim>\<open>int\<close>s the double
  nearest to their quotient; \<^verbatim>\<open>//\<close> rounds down. A zero divisor raises ZeroDivisionError.
  \<^verbatim>\<open>//\<close> with a \<^verbatim>\<open>float\<close> operand is computed from C's \<^verbatim>\<open>fmod\<close> with roundings in between, and
  is not followed.
\<close>

definition py_truediv :: "pyval \<Rightarrow> pyval \<Rightarrow> exc + pyval" where
  "py_truediv =
     num_op (\<lambda>x y. if y = 0 then Inl ZeroDivisionError else to_float (of_int x / of_int y))
       (\<lambda>x y. if y = 0 then Inl ZeroDivisionError else to_float (x / y))"

definition py_floordiv :: "pyval \<Rightarrow> pyval \<Rightarrow> exc + pyval" where
  "py_floordiv =
     num_op (\<lambda>x y. if y = 0 then Inl ZeroDivisionError else Inr (PInt (x div y)))
       (\<lambda>x y. if y = 0 then Inl ZeroDivisionError else Inl Unsupported)"

fun py_neg :: "pyval \<Rightarrow> exc + pyval" where
  "py_neg PNone = Inl TypeError"
| "py_neg (PInt x) = Inr (PInt (- x))"
| "py_neg (PFloat x) = Inr (PFloat (- x))"

fun py_pos :: "pyval \<Rightarrow> exc + pyval" where
  "py_pos PNone = Inl TypeError"
| "py_pos v = Inr v"

text \<open>\<^verbatim>\<open>int(x)\<close> truncates a float towards zero.\<close>

fun py_int :: "pyval \<Rightarrow> exc + pyval" where
  "py_int PNone = Inl TypeError"
| "py_int (PInt x) = Inr (PInt x)"
| "py_int (PFloat x) = Inr (PInt (if 0 \<le> x then \<lfloor>x\<rfloor> else \<lceil>x\<rceil>))"

fun as_rat :: "pyval \<Rightarrow> rat option" where
  "as_rat PNone = None"
| "as_rat (PInt x) = Some (of_int x)"
| "as_rat (PFloat x) = Some x"

text \<open>
  \<^verbatim>\<open>a == b\<close>: \<^verbatim>\<open>None\<close> equals only \<^verbatim>\<open>None\<close>; numbers compare by value (\<^verbatim>\<open>3 == 3.0\<close>). Every value of the
  model equals itself; the one Python value that does not, the \<^verbatim>\<open>float\<close> NaN, is not a value of the
  model, whose arithmetic never yields it.
\<close>

definition py_eq :: "pyval \<Rightarrow> pyval \<Rightarrow> bool" where
  "py_eq a b = (as_rat a = as_rat b)"

definition py_lt :: "pyval \<Rightarrow> pyval \<Rightarrow> exc + bool" where
  "py_lt a b =
     (case as_rat a of None \<Rightarrow> Inl TypeError
      | Some x \<Rightarrow> (case as_rat b of None \<Rightarrow> Inl TypeError | Some y \<Rightarrow> Inr (x < y)))"

text \<open>\<^verbatim>\<open>max(a, b)\<close> keeps the first argument unless the second is strictly greater.\<close>

definition py_max :: "pyval \<Rightarrow> pyval \<Rightarrow> exc + pyval" where
  "py_max a b = (case py_lt a b of Inl e \<Rightarrow> Inl e | Inr lt \<Rightarrow> Inr (if lt then b else a))"

definition py_min :: "pyval \<Rightarrow> pyval \<Rightarrow> exc + pyval" where
  "py_min a b = (case py_lt b a of Inl e \<Rightarrow> Inl e | Inr lt \<Rightarrow> Inr (if lt then b else a))"

section \<open>Strings\<close>

fun startswith :: "string \<Rightarrow> string \<Rightarrow> bool" where
  "startswith s [] = True"
| "startswith [] (p # ps) = False"
| "startswith (c # cs) (p # ps) = (c = p \<and> startswith cs ps)"

text \<open>
  \<^verbatim>\<open>s.replace(old, new)\<close>: every non-overlapping occurrence, left to right. The counter is
  the number of characters of a matched occurrence still to be dropped.
\<close>

fun replace_from :: "string \<Rightarrow> string \<Rightarrow> nat \<Rightarrow> string \<Rightarrow> string" where
  "replace_from old new k [] = []"
| "replace_from old new (Suc k) (c # cs) = replace_from old new k cs"
| "replace_from old new 0 (c # cs) =
     (if startswith (c # cs) old then new @ replace_from old new (length old - 1) cs
      else c # replace_from old new 0 cs)"

definition replace :: "string \<Rightarrow> string \<Rightarrow> string \<Rightarrow> string" where
  "replace s old new =
     (if old = [] then new @ concat (map (\<lambda>c. c # new) s) else replace_from old new 0 s)"

text \<open>\<^verbatim>\<open>sub in s\<close> for strings.\<close>

fun contains :: "string \<Rightarrow> string \<Rightarrow> bool" where
  "contains [] sub = (sub = [])"
| "contains (c # cs) sub = (startswith (c # cs) sub \<or> contains cs sub)"

text \<open>\<^verbatim>\<open>s.split(sep)\<close> and \<^verbatim>\<open>s.count(sep)\<close> for a separator of one character.\<close>

fun split :: "string \<Rightarrow> char \<Rightarrow> string list" where
  "split [] sep = [[]]"
| "split (c # cs) sep =
     (if c = sep then [] # split cs sep
      else (case split cs sep of [] \<Rightarrow> [[c]] | w # ws \<Rightarrow> (c # w) # ws))"

definition count :: "string \<Rightarrow> char \<Rightarrow> nat" where
  "count s sep = length (filter (\<lambda>c. c = sep) s)"

text \<open>\<^verbatim>\<open>sep.join(parts)\<close>.\<close>

fun join :: "string \<Rightarrow> string list \<Rightarrow> string" where
  "join sep [] = []"
| "join sep [p] = p"
| "join sep (p # q # ps) = p @ sep @ join sep (q # ps)"

definition lower_char :: "char \<Rightarrow> char" where
  "lower_char c =
     (case map_of (zip ''ABCDEFGHIJKLMNOPQRSTUVWXYZ'' ''abcdefghijklmnopqrstuvwxyz'') c of
        None \<Rightarrow> c | Some l \<Rightarrow> l)"

definition lower :: "string \<Rightarrow> string" where
  "lower s = map lower_char s"

definition is_digit :: "char \<Rightarrow> bool" where
  "is_digit c = (c \<in> set ''0123456789'')"

definition is_word_char :: "char \<Rightarrow> bool" where
  "is_word_char c =
     (c \<in> set ''abcdefghijklmnopqrstuvwxyzABCDEFGHIJKLMNOPQRSTUVWXYZ0123456789_'')"

definition digit_val :: "char \<Rightarrow> nat" where
  "digit_val c =
     (case map_of (zip ''0123456789'' [0, 1, 2, 3, 4, 5, 6, 7, 8, 9]) c of None \<Rightarrow> 0 | Some d \<Rightarrow> d)"

text \<open>The value of a string of decimal digits, and \<^verbatim>\<open>str(n)\<close> for an integer.\<close>

fun nat_of_digits :: "nat \<Rightarrow> string \<Rightarrow> nat" where
  "nat_of_digits acc [] = acc"
| "nat_of_digits acc (c # cs) = nat_of_digits (10 * acc + digit_val c) cs"

function str_nat :: "nat \<Rightarrow> string" where
  "str_nat n = (if n < 10 then [''0123456789'' ! n] else str_nat (n div 10) @ [''0123456789'' ! (n mod 10)])"
  by pat_completeness auto
termination
  by (relation "measure id") auto

declare str_nat.simps [simp del]

definition str_int :: "int \<Rightarrow> string" where
  "str_int i = (if i < 0 then CHR ''-'' # str_nat (nat (- i)) else str_nat (nat i))"

section \<open>The expressions \<^verbatim>\<open>eval\<close> is given\<close>

text \<open>
  \<^verbatim>\<open>Stat.plug\<close>, \<^verbatim>\<open>Stat.calc\<close> and \<^verbatim>\<open>Duration.parse\<close> hand a string to Python's \<^verbatim>\<open>eval\<close>.
  The evaluator below covers the arithmetic the program itself generates and the
  formulas of the specification: decimal integers, \<^verbatim>\<open>+ - * / //\<close>, unary signs,
  parentheses, \<^verbatim>\<open>max\<close>, \<^verbatim>\<open>min\<close> and \<^verbatim>\<open>int\<close> calls, a trailing \<^verbatim>\<open>#\<close> comment, the stat
  references \<^verbatim>\<open>self.char.stats["NAME"].value\<close> and \<^verbatim>\<open>.normal\<close> that \<^verbatim>\<open>Stat.VARS\<close> expands to,
  the reference \<^verbatim>\<open>char.stats["NAME"].value\<close> that \<^verbatim>\<open>Duration.parse\<close> expands to, and the
  attributes \<^verbatim>\<open>self.value\<close> and \<^verbatim>\<open>self.normal\<close>. A text outside this fragment yields
  \<^const>\<open>Unsupported\<close>: the model then says nothing about what Python does with it.
\<close>

datatype token =
    TNum nat
  | TName string
  | TSym char
  | TDSlash
  | TStatRef string string
  | TCharRef string string
  | TSelfAttr string

definition word_token :: "string \<Rightarrow> exc + token" where
  "word_token w =
     (if w = [] then Inl SyntaxError
      else if is_digit (hd w) then
        (if \<not> list_all is_digit w then Inl Unsupported
         else if hd w = CHR ''0'' \<and> nat_of_digits 0 w \<noteq> 0 then Inl SyntaxError
         else Inr (TNum (nat_of_digits 0 w)))
      else if w \<in> set [''max'', ''min'', ''int''] then Inr (TName w)
      else Inl Unsupported)"

definition cons_token :: "exc + token \<Rightarrow> exc + token list \<Rightarrow> exc + token list" where
  "cons_token t r =
     (case t of Inl e \<Rightarrow> Inl e
      | Inr x \<Rightarrow> (case r of Inl e \<Rightarrow> Inl e | Inr xs \<Rightarrow> Inr (x # xs)))"

text \<open>
  A reference \<^verbatim>\<open>PREFIX NAME "].ATTR\<close> at the head of the text, where \<^verbatim>\<open>PREFIX\<close> ends with
  the opening quote: the name, the attribute, and the number of characters it takes.
\<close>

definition ref_at :: "string \<Rightarrow> string \<Rightarrow> (string \<times> string \<times> nat) option" where
  "ref_at pre s =
     (if \<not> startswith s pre then None
      else let r = drop (length pre) s;
               nm = takeWhile (\<lambda>c. c \<noteq> CHR 0x22 \<and> c \<noteq> CHR 0x5C) r;
               r' = drop (length nm) r;
               attr = takeWhile is_word_char (drop 3 r')
           in if startswith r' [CHR 0x22, CHR '']'', CHR ''.''] \<and> attr \<noteq> []
              then Some (nm, attr, length pre + length nm + 3 + length attr)
              else None)"

definition self_stat_prefix :: string where
  "self_stat_prefix = ''self.char.stats['' @ [CHR 0x22]"

definition char_stat_prefix :: string where
  "char_stat_prefix = ''char.stats['' @ [CHR 0x22]"

text \<open>The counter is the number of characters of the current token still to be skipped.\<close>

fun lex :: "nat \<Rightarrow> string \<Rightarrow> exc + token list" where
  "lex k [] = Inr []"
| "lex (Suc k) (c # cs) = lex k cs"
| "lex 0 (c # cs) =
     (if c = CHR '' '' then lex 0 cs
      else if c = CHR ''#'' then Inr []
      else (case ref_at self_stat_prefix (c # cs) of
        Some (nm, attr, n) \<Rightarrow> cons_token (Inr (TStatRef nm attr)) (lex (n - 1) cs)
      | None \<Rightarrow>
      (case ref_at char_stat_prefix (c # cs) of
        Some (nm, attr, n) \<Rightarrow> cons_token (Inr (TCharRef nm attr)) (lex (n - 1) cs)
      | None \<Rightarrow>
        if startswith (c # cs) ''self.'' \<and> takeWhile is_word_char (drop 4 cs) \<noteq> [] then
          (let attr = takeWhile is_word_char (drop 4 cs)
           in cons_token (Inr (TSelfAttr attr)) (lex (4 + length attr) cs))
        else if is_word_char c then
          (let w = takeWhile is_word_char (c # cs)
           in cons_token (word_token w) (lex (length w - 1) cs))
        else if startswith (c # cs) ''//'' then cons_token (Inr TDSlash) (lex 1 cs)
        else if c \<in> set ''+-*/(),'' then cons_token (Inr (TSym c)) (lex 0 cs)
        else if c = CHR ''$'' then Inl SyntaxError
        else Inl Unsupported)))"

datatype binop = Add | Sub | Mul | TrueDiv | FloorDiv

datatype expr =
    Num nat
  | StatRef string string
  | CharRef string string
  | SelfAttr string
  | Neg expr
  | Pos expr
  | Bin binop expr expr
  | Call string "expr list"

text \<open>
  Recursive descent with Python's precedences: \<^verbatim>\<open>+ -\<close> below \<^verbatim>\<open>* / //\<close> below the unary
  signs, all binary operators associating to the left. A goal names what is to be read
  next; the continuation goals carry what has been read so far. \<^term>\<open>descend_step rec\<close>
  is one step of the descent, with \<^term>\<open>rec\<close> for the nested steps.
\<close>

datatype goal =
    GExpr
  | GExprRest expr
  | GTerm
  | GTermRest expr
  | GFactor
  | GArgs string "expr list"

type_synonym parsed = "exc + (expr \<times> token list)"

definition p_expr :: "(goal \<Rightarrow> token list \<Rightarrow> parsed) \<Rightarrow> token list \<Rightarrow> parsed" where
  "p_expr rec ts = (case rec GTerm ts of Inl e \<Rightarrow> Inl e | Inr (l, r) \<Rightarrow> rec (GExprRest l) r)"

definition p_expr_rest :: "(goal \<Rightarrow> token list \<Rightarrow> parsed) \<Rightarrow> expr \<Rightarrow> token list \<Rightarrow> parsed" where
  "p_expr_rest rec l ts =
     (case ts of
        TSym c # r \<Rightarrow>
          if c = CHR ''+'' \<or> c = CHR ''-'' then
            (case rec GTerm r of Inl e \<Rightarrow> Inl e
             | Inr (x, r') \<Rightarrow> rec (GExprRest (Bin (if c = CHR ''+'' then Add else Sub) l x)) r')
          else Inr (l, ts)
      | _ \<Rightarrow> Inr (l, ts))"

definition p_term :: "(goal \<Rightarrow> token list \<Rightarrow> parsed) \<Rightarrow> token list \<Rightarrow> parsed" where
  "p_term rec ts = (case rec GFactor ts of Inl e \<Rightarrow> Inl e | Inr (l, r) \<Rightarrow> rec (GTermRest l) r)"

definition p_term_rest :: "(goal \<Rightarrow> token list \<Rightarrow> parsed) \<Rightarrow> expr \<Rightarrow> token list \<Rightarrow> parsed" where
  "p_term_rest rec l ts =
     (case ts of
        TSym c # r \<Rightarrow>
          if c = CHR ''*'' \<or> c = CHR ''/'' then
            (case rec GFactor r of Inl e \<Rightarrow> Inl e
             | Inr (x, r') \<Rightarrow> rec (GTermRest (Bin (if c = CHR ''*'' then Mul else TrueDiv) l x)) r')
          else Inr (l, ts)
      | TDSlash # r \<Rightarrow>
          (case rec GFactor r of Inl e \<Rightarrow> Inl e
           | Inr (x, r') \<Rightarrow> rec (GTermRest (Bin FloorDiv l x)) r')
      | _ \<Rightarrow> Inr (l, ts))"

definition p_paren :: "(goal \<Rightarrow> token list \<Rightarrow> parsed) \<Rightarrow> token list \<Rightarrow> parsed" where
  "p_paren rec r =
     (case rec GExpr r of Inl e \<Rightarrow> Inl e
      | Inr (x, r') \<Rightarrow>
          (case r' of
             TSym d # r'' \<Rightarrow> if d = CHR '')'' then Inr (x, r'') else Inl SyntaxError
           | _ \<Rightarrow> Inl SyntaxError))"

definition p_sign :: "(goal \<Rightarrow> token list \<Rightarrow> parsed) \<Rightarrow> (expr \<Rightarrow> expr) \<Rightarrow> token list \<Rightarrow> parsed" where
  "p_sign rec sign r =
     (case rec GFactor r of Inl e \<Rightarrow> Inl e | Inr (x, r') \<Rightarrow> Inr (sign x, r'))"

definition p_call :: "(goal \<Rightarrow> token list \<Rightarrow> parsed) \<Rightarrow> string \<Rightarrow> token list \<Rightarrow> parsed" where
  "p_call rec f r =
     (case r of
        TSym c # r' \<Rightarrow> if c = CHR ''('' then rec (GArgs f []) r' else Inl Unsupported
      | _ \<Rightarrow> Inl Unsupported)"

definition p_factor :: "(goal \<Rightarrow> token list \<Rightarrow> parsed) \<Rightarrow> token list \<Rightarrow> parsed" where
  "p_factor rec ts =
     (case ts of
        [] \<Rightarrow> Inl SyntaxError
      | TNum k # r \<Rightarrow> Inr (Num k, r)
      | TStatRef nm attr # r \<Rightarrow> Inr (StatRef nm attr, r)
      | TCharRef nm attr # r \<Rightarrow> Inr (CharRef nm attr, r)
      | TSelfAttr attr # r \<Rightarrow> Inr (SelfAttr attr, r)
      | TDSlash # r \<Rightarrow> Inl SyntaxError
      | TName f # r \<Rightarrow> p_call rec f r
      | TSym c # r \<Rightarrow>
          if c = CHR ''-'' then p_sign rec Neg r
          else if c = CHR ''+'' then p_sign rec Pos r
          else if c = CHR ''('' then p_paren rec r
          else Inl SyntaxError)"

text \<open>
  The arguments of a call: the closing parenthesis ends the list wherever an argument could
  begin, right after the opening parenthesis (\<^verbatim>\<open>int()\<close>) or after a comma (\<^verbatim>\<open>max(1,2,)\<close>).
\<close>

definition p_args :: "(goal \<Rightarrow> token list \<Rightarrow> parsed) \<Rightarrow> string \<Rightarrow> expr list \<Rightarrow> token list \<Rightarrow> parsed" where
  "p_args rec f acc ts =
     (if ts \<noteq> [] \<and> hd ts = TSym (CHR '')'') then Inr (Call f acc, tl ts)
      else
        (case rec GExpr ts of Inl e \<Rightarrow> Inl e
         | Inr (x, r) \<Rightarrow>
             (case r of
                TSym d # r' \<Rightarrow>
                  if d = CHR '')'' then Inr (Call f (acc @ [x]), r')
                  else if d = CHR '','' then rec (GArgs f (acc @ [x])) r'
                  else Inl SyntaxError
              | _ \<Rightarrow> Inl SyntaxError)))"

definition descend_step :: "(goal \<Rightarrow> token list \<Rightarrow> parsed) \<Rightarrow> goal \<Rightarrow> token list \<Rightarrow> parsed" where
  "descend_step rec g ts =
     (case g of
        GExpr \<Rightarrow> p_expr rec ts
      | GExprRest l \<Rightarrow> p_expr_rest rec l ts
      | GTerm \<Rightarrow> p_term rec ts
      | GTermRest l \<Rightarrow> p_term_rest rec l ts
      | GFactor \<Rightarrow> p_factor rec ts
      | GArgs f acc \<Rightarrow> p_args rec f acc ts)"

text \<open>
  The first argument bounds the depth of the descent; \<^const>\<open>Unsupported\<close> is the answer
  when it is used up.
\<close>

primrec descend :: "nat \<Rightarrow> goal \<Rightarrow> token list \<Rightarrow> parsed" where
  "descend 0 = (\<lambda>g ts. Inl Unsupported)"
| "descend (Suc n) = descend_step (descend n)"

definition parse_expr :: "string \<Rightarrow> exc + expr" where
  "parse_expr s =
     (case lex 0 s of Inl e \<Rightarrow> Inl e
      | Inr ts \<Rightarrow>
          (case descend (8 * length ts + 8) GExpr ts of Inl e \<Rightarrow> Inl e
           | Inr (x, r) \<Rightarrow> if r = [] then Inr x else Inl SyntaxError))"

text \<open>
  What an expression can read: \<^verbatim>\<open>char.stats[NAME]\<close> as the pair (\<^verbatim>\<open>normal\<close>, \<^verbatim>\<open>value\<close>) of the
  stat registered under that name, the same pair for \<^verbatim>\<open>self\<close> when the caller has a
  \<^verbatim>\<open>self\<close>, and whether the caller has a local variable \<^verbatim>\<open>char\<close>.
\<close>

record env =
  env_stats :: "string \<Rightarrow> (pyval \<times> pyval) option"
  env_self :: "(pyval \<times> pyval) option"
  env_char :: bool

definition stat_attr :: "(pyval \<times> pyval) option \<Rightarrow> string \<Rightarrow> exc + pyval" where
  "stat_attr st attr =
     (case st of None \<Rightarrow> Inl KeyError
      | Some (n, v) \<Rightarrow>
          if attr = ''value'' then Inr v
          else if attr = ''normal'' then Inr n
          else Inl Unsupported)"

definition apply_bin :: "binop \<Rightarrow> pyval \<Rightarrow> pyval \<Rightarrow> exc + pyval" where
  "apply_bin b x y =
     (case b of Add \<Rightarrow> py_add x y | Sub \<Rightarrow> py_sub x y | Mul \<Rightarrow> py_mul x y
      | TrueDiv \<Rightarrow> py_truediv x y | FloorDiv \<Rightarrow> py_floordiv x y)"

fun fold_args :: "(pyval \<Rightarrow> pyval \<Rightarrow> exc + pyval) \<Rightarrow> pyval \<Rightarrow> (exc + pyval) list \<Rightarrow> exc + pyval" where
  "fold_args f a [] = Inr a"
| "fold_args f a (Inl e # xs) = Inl e"
| "fold_args f a (Inr b # xs) = (case f a b of Inl e \<Rightarrow> Inl e | Inr c \<Rightarrow> fold_args f c xs)"

fun first_error :: "(exc + pyval) list \<Rightarrow> exc option" where
  "first_error [] = None"
| "first_error (Inl e # xs) = Some e"
| "first_error (Inr v # xs) = first_error xs"

definition apply_call :: "string \<Rightarrow> (exc + pyval) list \<Rightarrow> exc + pyval" where
  "apply_call f as =
     (case first_error as of Some e \<Rightarrow> Inl e
      | None \<Rightarrow>
     (case as of
        [] \<Rightarrow>
          if f = ''int'' then Inr (PInt 0)
          else if f = ''max'' \<or> f = ''min'' then Inl TypeError
          else Inl Unsupported
      | [Inr a] \<Rightarrow> if f = ''int'' then py_int a else Inl Unsupported
      | Inr a # b # bs \<Rightarrow>
          if f = ''max'' then fold_args py_max a (b # bs)
          else if f = ''min'' then fold_args py_min a (b # bs)
          else Inl Unsupported
      | _ \<Rightarrow> Inl Unsupported))"

fun eval_expr :: "env \<Rightarrow> expr \<Rightarrow> exc + pyval" where
  "eval_expr E (Num k) = Inr (PInt (int k))"
| "eval_expr E (StatRef nm attr) =
     (if env_self E = None then Inl NameError else stat_attr (env_stats E nm) attr)"
| "eval_expr E (CharRef nm attr) =
     (if env_char E then stat_attr (env_stats E nm) attr else Inl NameError)"
| "eval_expr E (SelfAttr attr) =
     (if env_self E = None then Inl NameError else stat_attr (env_self E) attr)"
| "eval_expr E (Neg x) = (case eval_expr E x of Inl e \<Rightarrow> Inl e | Inr v \<Rightarrow> py_neg v)"
| "eval_expr E (Pos x) = (case eval_expr E x of Inl e \<Rightarrow> Inl e | Inr v \<Rightarrow> py_pos v)"
| "eval_expr E (Bin b x y) =
     (case eval_expr E x of Inl e \<Rightarrow> Inl e
      | Inr v \<Rightarrow> (case eval_expr E y of Inl e \<Rightarrow> Inl e | Inr w \<Rightarrow> apply_bin b v w))"
| "eval_expr E (Call f as) = apply_call f (map (eval_expr E) as)"

definition py_eval :: "env \<Rightarrow> string \<Rightarrow> exc + pyval" where
  "py_eval E s = (case parse_expr s of Inl e \<Rightarrow> Inl e | Inr x \<Rightarrow> eval_expr E x)"

section \<open>Duration\<close>

text \<open>
  The text a duration is built from: \<^verbatim>\<open>None\<close>, an \<^verbatim>\<open>int\<close> or a \<^verbatim>\<open>str\<close>. A multiplier of
  \<^verbatim>\<open>Duration.UNITS\<close> is an \<^verbatim>\<open>int\<close> or the name of a stat.
\<close>

datatype dur_text = DNone | DInt int | DStr string

datatype mult = MInt nat | MStr string

definition Duration_INF :: int where
  "Duration_INF = - 1"

definition INF_NAMES :: "string list" where
  "INF_NAMES = [''inf'', ''infinity'', ''infinite'', ''perm'', ''permanent'', ''forever'']"

definition UNITS :: "(string list \<times> mult) list" where
  "UNITS =
    [([[], ''r'', ''rd'', ''rds'', ''rnd'', ''rnds'', ''round'', ''rounds''], MInt 1),
     ([''m'', ''mi'', ''min'', ''mins'', ''minute'', ''minutes''], MInt 10),
     ([''h'', ''hr'', ''hrs'', ''hour'', ''hours''], MInt 600),
     ([''d'', ''day'', ''days''], MInt 14400),
     ([''y'', ''yr'', ''yrs'', ''year'', ''years''], MInt 5259600),
     ([''l'', ''lvl'', ''level''], MStr ''$level''),
     ([''cl'', ''clvl'', ''caster'', ''casterlvl'', ''casterlevel''], MStr ''$caster_level'')]"

fun str_mult :: "mult \<Rightarrow> string" where
  "str_mult (MInt n) = str_nat n"
| "str_mult (MStr s) = s"

fun find_mult :: "(string list \<times> mult) list \<Rightarrow> string \<Rightarrow> exc + mult" where
  "find_mult [] s = Inl KeyError"
| "find_mult ((names, m) # us) s = (if s \<in> set names then Inr m else find_mult us s)"

definition get_mult :: "string \<Rightarrow> exc + mult" where
  "get_mult s = find_mult UNITS s"

text \<open>\<^verbatim>\<open>split_unit\<close>: the leading digits (or \<^verbatim>\<open>'1'\<close> when there are none) and the rest.\<close>

definition split_unit :: "string \<Rightarrow> string \<times> string" where
  "split_unit s =
     (let num = takeWhile is_digit s
      in (if num = [] then ''1'' else num, drop (length num) s))"

text \<open>One term of the sum, \<^verbatim>\<open>dur\<close> in the loop of \<^verbatim>\<open>to_rds\<close>.\<close>

definition to_rds_term :: "string \<Rightarrow> exc + string" where
  "to_rds_term dur =
     (if count dur CHR ''/'' > 1 then Inl ValueError
      else let parts = split dur CHR ''/'';
               (num, unit) = split_unit (hd parts)
           in (case get_mult unit of Inl e \<Rightarrow> Inl e
               | Inr m \<Rightarrow>
                   let s = num @ ''*'' @ str_mult m
                   in if length parts > 1 then
                        (let (num2, stat) = split_unit (parts ! 1)
                         in (case get_mult stat of Inl e \<Rightarrow> Inl e
                             | Inr m2 \<Rightarrow> Inr (s @ ''*max(1,int('' @ str_mult m2 @ ''/'' @ num2 @ ''))'')))
                      else Inr s))"

fun to_rds_terms :: "string list \<Rightarrow> exc + string list" where
  "to_rds_terms [] = Inr []"
| "to_rds_terms (d # ds) =
     (case to_rds_term d of Inl e \<Rightarrow> Inl e
      | Inr s \<Rightarrow> (case to_rds_terms ds of Inl e \<Rightarrow> Inl e | Inr ss \<Rightarrow> Inr (s # ss)))"

definition to_rds :: "dur_text \<Rightarrow> exc + string" where
  "to_rds t =
     (case t of
        DInt i \<Rightarrow> Inr (str_int i)
      | DNone \<Rightarrow> Inr (str_int Duration_INF)
      | DStr s0 \<Rightarrow>
          let s = replace (replace (lower s0) '' '' []) ''_'' []
          in if s \<in> set INF_NAMES then Inr (str_int Duration_INF)
             else (case to_rds_terms (split s CHR ''+'') of Inl e \<Rightarrow> Inl e
                   | Inr rds \<Rightarrow> Inr (join ''+'' rds)))"

text \<open>
  \<^verbatim>\<open>Duration.parse(s, char)\<close>. The character is absent (\<^verbatim>\<open>None\<close>) or gives, for the name of a
  stat, the pair (\<^verbatim>\<open>normal\<close>, \<^verbatim>\<open>value\<close>) of that stat.
\<close>

fun expand_units :: "(string list \<times> mult) list \<Rightarrow> string \<Rightarrow> string" where
  "expand_units [] s = s"
| "expand_units ((names, MInt n) # us) s = expand_units us s"
| "expand_units ((names, MStr unit) # us) s =
     expand_units us
       (if startswith unit ''$''
        then replace s unit (''char.stats['' @ [CHR 0x22] @ tl unit @ [CHR 0x22] @ ''].value'')
        else s)"

definition parse ::
  "dur_text \<Rightarrow> (string \<Rightarrow> (pyval \<times> pyval) option) option \<Rightarrow> exc + (string \<times> pyval)" where
  "parse t char =
     (case to_rds t of Inl e \<Rightarrow> Inl e
      | Inr s0 \<Rightarrow>
          let s = expand_units UNITS s0
          in if contains s ''char.stats'' \<and> char = None then Inl ValueError
             else (case py_eval \<lparr>env_stats = (case char of None \<Rightarrow> (\<lambda>n. None) | Some c \<Rightarrow> c),
                                 env_self = None, env_char = True\<rparr> s of
                     Inl e \<Rightarrow> Inl e
                   | Inr v \<Rightarrow> Inr (s, v)))"

record duration =
  raw :: string
  original :: pyval
  rounds :: pyval

definition Duration ::
  "dur_text \<Rightarrow> (string \<Rightarrow> (pyval \<times> pyval) option) option \<Rightarrow> exc + duration" where
  "Duration dur char =
     (case parse dur char of Inl e \<Rightarrow> Inl e
      | Inr (r, v) \<Rightarrow> Inr \<lparr>raw = r, original = v, rounds = v\<rparr>)"

definition expired :: "duration \<Rightarrow> bool" where
  "expired d = py_eq (rounds d) (PInt 0)"

text \<open>
  \<^verbatim>\<open>advance(dur)\<close>: the argument is a Duration, an \<^verbatim>\<open>int\<close>, or something else; the result is
  the value returned and the duration afterwards.
\<close>

datatype adv_arg = ADur duration | AInt int | AOther

definition advance :: "duration \<Rightarrow> adv_arg \<Rightarrow> exc + (bool \<times> duration)" where
  "advance d a =
     (case (case a of ADur x \<Rightarrow> Inr (rounds x) | AInt i \<Rightarrow> Inr (PInt i) | AOther \<Rightarrow> Inl TypeError) of
        Inl e \<Rightarrow> Inl e
      | Inr dur \<Rightarrow>
          if py_eq (rounds d) (PInt Duration_INF) then Inr (False, d)
          else (case py_sub (rounds d) dur of Inl e \<Rightarrow> Inl e
                | Inr x \<Rightarrow>
                    (case py_max (PInt 0) x of Inl e \<Rightarrow> Inl e
                     | Inr r \<Rightarrow> let d' = d\<lparr>rounds := r\<rparr> in Inr (expired d', d'))))"

section \<open>The character: stats, bonuses and effects\<close>

text \<open>
  Stat, Bonus and Effect objects are shared and mutated in place (a stat holds references
  to its bonuses, a bonus is toggled by several effects), so the model keeps them in a
  store and refers to them by name: the name of a Stat, Bonus or Effect is its key in
  \<^verbatim>\<open>char.stats\<close>, \<^verbatim>\<open>char.bonuses\<close> and \<^verbatim>\<open>char.effects\<close>. The fields \<^verbatim>\<open>text\<close>, \<^verbatim>\<open>protected\<close>, \<^verbatim>\<open>updated\<close>
  and \<^verbatim>\<open>COPY\<close> play no part in \<^verbatim>\<open>plug\<close>, \<^verbatim>\<open>unplug\<close> and \<^verbatim>\<open>calc\<close> and are left out. A Python set is a
  list without duplicates; its order is the order of iteration, which Python leaves
  unspecified. The field \<^verbatim>\<open>char\<close> of an object is \<^verbatim>\<open>None\<close> or the one character.
\<close>

record stat =
  s_char :: bool
  s_formula :: string
  s_original :: string
  s_bonuses :: "(string \<times> string list) list"
  s_uses :: "string list"
  s_usedby :: "string list"
  s_normal :: pyval
  s_value :: pyval
  s_root :: bool
  s_leaf :: bool

record bonus =
  b_value :: int
  b_stats :: "string list"
  b_typ :: string
  b_condition :: string
  b_active :: bool
  b_char :: bool
  b_usedby :: "string list"
  b_last :: bool

record effect =
  e_bonuses :: "string list"
  e_duration :: duration
  e_active :: "bool option"
  e_last :: "bool option"
  e_char :: bool

text \<open>
  The class Character is not part of the sources at hand. What the fields use of it is
  taken as given: the dictionaries \<^verbatim>\<open>stats\<close> (the Stat objects, and the keys of the dictionary
  in their order: a Stat may be plugged in before or after it is entered), \<^verbatim>\<open>bonuses\<close> and
  \<^verbatim>\<open>effects\<close>, the sets \<^verbatim>\<open>BONUS_TYPES\<close> and \<^verbatim>\<open>BONUS_PERM\<close>, and the predicate \<^verbatim>\<open>_stacks\<close>.
\<close>

record character =
  stat_objs :: "string \<Rightarrow> stat option"
  stats :: "string list"
  bonuses :: "string \<Rightarrow> bonus option"
  effects :: "string \<Rightarrow> effect option"
  BONUS_TYPES :: "string list"
  BONUS_PERM :: "string list"
  stacks :: "string \<Rightarrow> bool"

text \<open>What a call leaves behind: the state, and the exception when one was raised.\<close>

datatype outcome = Done character | Raised exc character

fun state_of :: "outcome \<Rightarrow> character" where
  "state_of (Done c) = c"
| "state_of (Raised e c) = c"

fun and_then :: "outcome \<Rightarrow> (character \<Rightarrow> outcome) \<Rightarrow> outcome" where
  "and_then (Done c) f = f c"
| "and_then (Raised e c) f = Raised e c"

definition set_add :: "string list \<Rightarrow> string \<Rightarrow> string list" where
  "set_add xs x = (if x \<in> set xs then xs else xs @ [x])"

definition upd_stat :: "character \<Rightarrow> string \<Rightarrow> (stat \<Rightarrow> stat) \<Rightarrow> character" where
  "upd_stat c x f = c\<lparr>stat_objs := (stat_objs c)(x := map_option f (stat_objs c x))\<rparr>"

definition upd_bonus :: "character \<Rightarrow> string \<Rightarrow> (bonus \<Rightarrow> bonus) \<Rightarrow> character" where
  "upd_bonus c x f = c\<lparr>bonuses := (bonuses c)(x := map_option f (bonuses c x))\<rparr>"

definition upd_effect :: "character \<Rightarrow> string \<Rightarrow> (effect \<Rightarrow> effect) \<Rightarrow> character" where
  "upd_effect c x f = c\<lparr>effects := (effects c)(x := map_option f (effects c x))\<rparr>"

text \<open>\<^verbatim>\<open>char.stats[name]\<close>: the object under a key of the dictionary, or a KeyError.\<close>

definition char_stat :: "character \<Rightarrow> string \<Rightarrow> stat option" where
  "char_stat c name = (if name \<in> set (stats c) then stat_objs c name else None)"

subsection \<open>Stat.calc\<close>

text \<open>What \<^verbatim>\<open>eval\<close> sees when it is called in a method of the stat \<open>x\<close>.\<close>

definition stat_env :: "character \<Rightarrow> string \<Rightarrow> env" where
  "stat_env c x =
     \<lparr>env_stats = (\<lambda>n. map_option (\<lambda>s. (s_normal s, s_value s)) (char_stat c n)),
      env_self = map_option (\<lambda>s. (s_normal s, s_value s)) (stat_objs c x),
      env_char = False\<rparr>"

text \<open>
  \<^verbatim>\<open>[b.get_value() for b in bonuses if b.active]\<close>. A reference to a Bonus always leads to an
  object in Python; a name without an object is read as no bonus.
\<close>

definition active_values :: "character \<Rightarrow> string list \<Rightarrow> int list" where
  "active_values c names =
     List.map_filter
       (\<lambda>n. case bonuses c n of None \<Rightarrow> None
             | Some b \<Rightarrow> if b_active b then Some (b_value b) else None) names"

fun max_list :: "int list \<Rightarrow> int" where
  "max_list [] = 0"
| "max_list [v] = v"
| "max_list (v # w # vs) = max v (max_list (w # vs))"

text \<open>
  The loop over \<^verbatim>\<open>self.bonuses.items()\<close>, started with the value of the formula that has
  just been assigned to \<^verbatim>\<open>self.value\<close>: \<^verbatim>\<open>self.value += sum(bonuses)\<close> or
  \<^verbatim>\<open>self.value += max(bonuses)\<close>, nothing for a type with no active bonus. When an addition
  raises, the value of the stat is what the loop had reached.
\<close>

fun fold_bonuses :: "character \<Rightarrow> string \<Rightarrow> pyval \<Rightarrow> (string \<times> string list) list \<Rightarrow> outcome" where
  "fold_bonuses c x v [] = Done c"
| "fold_bonuses c x v ((typ, names) # rest) =
     (let vals = active_values c names
      in if vals = [] then fold_bonuses c x v rest
         else (case py_add v (PInt (if stacks c typ then sum_list vals else max_list vals)) of
                 Inl e \<Rightarrow> Raised e c
               | Inr v' \<Rightarrow> fold_bonuses (upd_stat c x (\<lambda>s. s\<lparr>s_value := v'\<rparr>)) x v' rest))"

text \<open>
  A loop \<^verbatim>\<open>for name in names: char.stats[name].METHOD()\<close>, where \<open>rec\<close> is the method.
\<close>

fun for_stats :: "(character \<Rightarrow> string \<Rightarrow> outcome) \<Rightarrow> character \<Rightarrow> string list \<Rightarrow> outcome" where
  "for_stats rec c [] = Done c"
| "for_stats rec c (y # ys) =
     (if y \<in> set (stats c) then and_then (rec c y) (\<lambda>c'. for_stats rec c' ys)
      else Raised KeyError c)"

text \<open>
  The two evaluations of \<^verbatim>\<open>calc\<close> and the loop over the bonuses: the part of \<^verbatim>\<open>calc\<close> before
  the recomputation of the dependants.
\<close>

definition calc_own :: "character \<Rightarrow> string \<Rightarrow> stat \<Rightarrow> outcome" where
  "calc_own c x st =
     (case py_eval (stat_env c x) (replace (s_formula st) ''.value'' ''.normal'') of
        Inl e \<Rightarrow> Raised e c
      | Inr n \<Rightarrow>
          let c1 = upd_stat c x (\<lambda>s. s\<lparr>s_normal := n\<rparr>)
          in (case py_eval (stat_env c1 x) (s_formula st) of
                Inl e \<Rightarrow> Raised e c1
              | Inr v \<Rightarrow>
                  fold_bonuses (upd_stat c1 x (\<lambda>s. s\<lparr>s_value := v\<rparr>)) x v (s_bonuses st)))"

text \<open>
  \<^verbatim>\<open>Stat.calc\<close>, with \<open>rec\<close> for the calls of \<^verbatim>\<open>calc\<close> on the dependants. A Stat that does
  not exist cannot be called: the model answers \<^const>\<open>Unsupported\<close>.
\<close>

definition calc_step :: "(character \<Rightarrow> string \<Rightarrow> outcome) \<Rightarrow> character \<Rightarrow> string \<Rightarrow> outcome" where
  "calc_step rec c x =
     (case stat_objs c x of
        None \<Rightarrow> Raised Unsupported c
      | Some st \<Rightarrow>
          if \<not> s_char st then Raised RuntimeError c
          else and_then (calc_own c x st)
                 (\<lambda>c'. case stat_objs c' x of
                        None \<Rightarrow> Raised Unsupported c'
                      | Some st' \<Rightarrow>
                          if \<not> py_eq (s_value st) (s_value st') \<or> \<not> py_eq (s_normal st) (s_normal st')
                          then for_stats rec c' (s_usedby st')
                          else Done c'))"

text \<open>
  The first argument is the depth of calls still allowed, as Python's recursion limit
  is; a call beyond it raises RecursionError.
\<close>

primrec calc :: "nat \<Rightarrow> character \<Rightarrow> string \<Rightarrow> outcome" where
  "calc 0 = (\<lambda>c x. Raised RecursionError c)"
| "calc (Suc n) = calc_step (calc n)"

subsection \<open>Stat.plug\<close>

definition VARS :: "(string \<times> string) list" where
  "VARS = [(''$'', ''value''), (''#'', ''normal'')]"

text \<open>\<^verbatim>\<open>expand % name\<close> for the two entries of \<^verbatim>\<open>Stat.VARS\<close>.\<close>

definition expand :: "string \<Rightarrow> string \<Rightarrow> string" where
  "expand attr name = self_stat_prefix @ name @ [CHR 0x22] @ ''].'' @ attr"

text \<open>
  The body of the inner loop of \<^verbatim>\<open>plug\<close> for one stat name and one entry of \<^verbatim>\<open>VARS\<close>: the text,
  and whether it changed.
\<close>

definition subst_var :: "string \<Rightarrow> string \<Rightarrow> string \<times> string \<Rightarrow> string" where
  "subst_var s name v =
     replace (replace s (fst v @ name) (expand (snd v) name))
       (fst v @ ''{'' @ name @ ''}'') (expand (snd v) name)"

text \<open>
  The double loop over \<^verbatim>\<open>char.stats\<close> and \<^verbatim>\<open>VARS\<close>: the text, and the names that matched, in the
  order in which they were first met (they are added to \<^verbatim>\<open>self.uses\<close> and, as objects, to the
  local set \<^verbatim>\<open>usedby\<close>).
\<close>

fun subst_vars :: "string \<Rightarrow> string \<Rightarrow> (string \<times> string) list \<Rightarrow> string \<times> bool" where
  "subst_vars s name [] = (s, False)"
| "subst_vars s name (v # vs) =
     (let s' = subst_var s name v; (s'', hit) = subst_vars s' name vs
      in (s'', s' \<noteq> s \<or> hit))"

fun subst_stats :: "string \<Rightarrow> string list \<Rightarrow> string \<times> string list" where
  "subst_stats s [] = (s, [])"
| "subst_stats s (name # names) =
     (let (s', hit) = subst_vars s name VARS; (s'', used) = subst_stats s' names
      in (s'', if hit then name # filter (\<lambda>n. n \<noteq> name) used else used))"

text \<open>
  \<^verbatim>\<open>dir(self)\<close> for a Stat: the attributes and methods of the instance, of Stat, of Field and
  of \<^verbatim>\<open>object\<close>, sorted. (The names \<^verbatim>\<open>object\<close> contributes vary a little with the version of
  Python; they matter only to a formula with \<^verbatim>\<open>@__\<close> in it.)
\<close>

definition stat_dir :: "string list" where
  "stat_dir =
    [''COPY'', ''FIELDS'', ''VARS'', ''__class__'', ''__delattr__'', ''__dict__'', ''__dir__'',
     ''__doc__'', ''__eq__'', ''__format__'', ''__ge__'', ''__getattribute__'', ''__gt__'',
     ''__hash__'', ''__init__'', ''__init_subclass__'', ''__le__'', ''__lt__'', ''__module__'',
     ''__ne__'', ''__new__'', ''__reduce__'', ''__reduce_ex__'', ''__repr__'', ''__setattr__'',
     ''__sizeof__'', ''__str__'', ''__subclasshook__'', ''__weakref__'', ''_str'', ''_str_flags'',
     ''add_bonus'', ''bonuses'', ''calc'', ''char'', ''copy'', ''del_bonus'', ''formula'',
     ''get_bonuses'', ''leaf'', ''load'', ''name'', ''normal'', ''original'', ''plug'', ''protected'',
     ''root'', ''save'', ''set_formula'', ''str_all'', ''str_search'', ''text'', ''unplug'',
     ''updated'', ''usedby'', ''uses'', ''value'']"

fun subst_attrs :: "string \<Rightarrow> string list \<Rightarrow> string" where
  "subst_attrs s [] = s"
| "subst_attrs s (name # names) =
     subst_attrs
       (replace (replace s (''@'' @ name) (''self.'' @ name)) (''@'' @ ''{'' @ name @ ''}'') (''self.'' @ name))
       names"

text \<open>The loop \<^verbatim>\<open>for stat in usedby: stat.usedby.add(self.name); stat.leaf = False\<close>.\<close>

fun register :: "character \<Rightarrow> string \<Rightarrow> string list \<Rightarrow> character" where
  "register c x [] = c"
| "register c x (y # ys) =
     register (upd_stat c y (\<lambda>s. s\<lparr>s_usedby := set_add (s_usedby s) x, s_leaf := False\<rparr>)) x ys"

definition formula_error :: "exc \<Rightarrow> string \<Rightarrow> exc" where
  "formula_error e s = FormulaError (exc_name e @ '' in '' @ [CHR 0x22] @ s @ [CHR 0x22])"

text \<open>\<^verbatim>\<open>Stat.plug(char)\<close> for the Stat object \<open>x\<close>; the first argument bounds the depth of \<^verbatim>\<open>calc\<close>.\<close>

definition plug :: "nat \<Rightarrow> character \<Rightarrow> string \<Rightarrow> outcome" where
  "plug n c x =
     (case stat_objs c x of
        None \<Rightarrow> Raised Unsupported c
      | Some st \<Rightarrow>
          let (s0, used) = subst_stats (s_formula st) (stats c);
              c1 = upd_stat c x
                     (\<lambda>s. s\<lparr>s_char := True,
                            s_uses := foldl set_add (s_uses s) used,
                            s_root := (if used = [] then s_root s else False)\<rparr>);
              s = subst_attrs s0 stat_dir
          in (case py_eval ((stat_env c1 x)\<lparr>env_char := True\<rparr>) s of
                Inl e \<Rightarrow> Raised (formula_error e s) c1
              | Inr v \<Rightarrow>
                  calc n (upd_stat (register c1 x used) x (\<lambda>s'. s'\<lparr>s_formula := s\<rparr>)) x))"

subsection \<open>Stat.unplug\<close>

text \<open>
  The loop \<^verbatim>\<open>for name in self.uses\<close> of \<^verbatim>\<open>unplug\<close>: \<^verbatim>\<open>stat.usedby.remove(self.name)\<close> raises KeyError
  when the name is not in the set.
\<close>

fun unregister :: "character \<Rightarrow> string \<Rightarrow> string list \<Rightarrow> outcome" where
  "unregister c x [] = Done c"
| "unregister c x (y # ys) =
     (case char_stat c y of
        None \<Rightarrow> Raised KeyError c
      | Some st \<Rightarrow>
          if x \<notin> set (s_usedby st) then Raised KeyError c
          else unregister
                 (upd_stat c y
                    (\<lambda>s. s\<lparr>s_usedby := removeAll x (s_usedby s),
                           s_leaf := (if removeAll x (s_usedby s) = [] then True else s_leaf s)\<rparr>))
                 x ys)"

text \<open>
  The loop \<^verbatim>\<open>for name in self.usedby: self.char.stats[name].unplug(recursive=recursive)\<close>. It
  iterates over the set \<^verbatim>\<open>self.usedby\<close> itself: every step of the iterator, the last one
  (which ends the loop) included, first compares the size of the set with the size it had
  when the loop began and raises \<^verbatim>\<open>RuntimeError: Set changed size during iteration\<close> when they
  differ. \<open>k\<close> is that size, \<open>names\<close> the elements not yet visited.
\<close>

fun unplug_dependants ::
  "(character \<Rightarrow> string \<Rightarrow> outcome) \<Rightarrow> character \<Rightarrow> string \<Rightarrow> nat \<Rightarrow> string list \<Rightarrow> outcome" where
  "unplug_dependants rec c x k names =
     (if (case stat_objs c x of None \<Rightarrow> 0 | Some st \<Rightarrow> length (s_usedby st)) \<noteq> k
      then Raised RuntimeError c
      else (case names of
              [] \<Rightarrow> Done c
            | y # ys \<Rightarrow>
                if y \<in> set (stats c)
                then and_then (rec c y) (\<lambda>c'. unplug_dependants rec c' x k ys)
                else Raised KeyError c))"

definition unplug_step ::
  "(character \<Rightarrow> string \<Rightarrow> outcome) \<Rightarrow> character \<Rightarrow> string \<Rightarrow> bool \<Rightarrow> bool \<Rightarrow> outcome" where
  "unplug_step rec c x force recursive =
     (case stat_objs c x of
        None \<Rightarrow> Raised Unsupported c
      | Some st \<Rightarrow>
          if \<not> s_char st then Raised RuntimeError c
          else if s_usedby st \<noteq> [] \<and> \<not> force \<and> \<not> recursive
          then Raised (DependencyError (''still usedby: '' @ join '','' (s_usedby st))) c
          else and_then
                 (if recursive then unplug_dependants rec c x (length (s_usedby st)) (s_usedby st)
                  else Done c)
                 (\<lambda>c1. let c2 = upd_stat c1 x (\<lambda>s. s\<lparr>s_usedby := [], s_formula := s_original s\<rparr>)
                       in and_then
                            (unregister c2 x (case stat_objs c2 x of None \<Rightarrow> [] | Some s \<Rightarrow> s_uses s))
                            (\<lambda>c3. Done (upd_stat c3 x
                                          (\<lambda>s. s\<lparr>s_uses := [], s_root := True, s_leaf := True,
                                                 s_char := False\<rparr>)))))"

text \<open>
  \<^verbatim>\<open>Stat.unplug(force, recursive)\<close>; the first argument bounds the depth of the recursive
  calls, which are made with \<^verbatim>\<open>recursive=True\<close> and \<^verbatim>\<open>force=False\<close>.
\<close>

primrec unplug :: "nat \<Rightarrow> character \<Rightarrow> string \<Rightarrow> bool \<Rightarrow> bool \<Rightarrow> outcome" where
  "unplug 0 = (\<lambda>c x force recursive. Raised RecursionError c)"
| "unplug (Suc n) = unplug_step (\<lambda>c y. unplug n c y False True)"

subsection \<open>Bonus\<close>

text \<open>
  \<^verbatim>\<open>Bonus.__init__(name, value, stats, typ, cond, text, active)\<close>: a condition forces
  \<^verbatim>\<open>active\<close> to \<^verbatim>\<open>False\<close>, and \<^verbatim>\<open>last\<close> starts as the argument \<^verbatim>\<open>active\<close>.
\<close>

definition Bonus :: "int \<Rightarrow> string list \<Rightarrow> string option \<Rightarrow> string option \<Rightarrow> bool \<Rightarrow> bonus" where
  "Bonus v sts typ cond act =
     \<lparr>b_value = v, b_stats = sts,
      b_typ = lower (case typ of None \<Rightarrow> ''none'' | Some t \<Rightarrow> if t = [] then ''none'' else t),
      b_condition = (case cond of None \<Rightarrow> [] | Some t \<Rightarrow> t),
      b_active = (if cond \<noteq> None \<and> cond \<noteq> Some [] then False else act),
      b_char = False, b_usedby = [], b_last = act\<rparr>"

text \<open>\<^verbatim>\<open>Stat.add_bonus\<close>: append to the list of the type, or start one.\<close>

fun add_to_typ :: "(string \<times> string list) list \<Rightarrow> string \<Rightarrow> string \<Rightarrow> (string \<times> string list) list" where
  "add_to_typ [] typ b = [(typ, [b])]"
| "add_to_typ ((t, bs) # rest) typ b =
     (if t = typ then (t, bs @ [b]) # rest else (t, bs) # add_to_typ rest typ b)"

definition add_bonus :: "character \<Rightarrow> string \<Rightarrow> string \<Rightarrow> string \<Rightarrow> character" where
  "add_bonus c x typ b = upd_stat c x (\<lambda>s. s\<lparr>s_bonuses := add_to_typ (s_bonuses s) typ b\<rparr>)"

text \<open>The loop of \<^verbatim>\<open>Bonus.plug\<close>: \<^verbatim>\<open>stat = char.stats[name]; stat.add_bonus(self); stat.calc()\<close>.\<close>

fun plug_stats :: "nat \<Rightarrow> character \<Rightarrow> string \<Rightarrow> string \<Rightarrow> string list \<Rightarrow> outcome" where
  "plug_stats n c b typ [] = Done c"
| "plug_stats n c b typ (y # ys) =
     (if y \<in> set (stats c)
      then and_then (calc n (add_bonus c y typ b) y) (\<lambda>c'. plug_stats n c' b typ ys)
      else Raised KeyError c)"

definition is_permanent :: "character \<Rightarrow> bonus \<Rightarrow> bool" where
  "is_permanent c b = (b_condition b = [] \<and> b_typ b \<in> set (BONUS_PERM c))"

definition Bonus_plug :: "nat \<Rightarrow> character \<Rightarrow> string \<Rightarrow> outcome" where
  "Bonus_plug n c x =
     (case bonuses c x of
        None \<Rightarrow> Raised Unsupported c
      | Some b \<Rightarrow>
          if BONUS_TYPES c \<noteq> [] \<and> b_typ b \<notin> set (BONUS_TYPES c) then Raised ValueError c
          else and_then (plug_stats n c x (b_typ b) (b_stats b))
                 (\<lambda>c'. Done (upd_bonus c' x
                         (\<lambda>b'. b'\<lparr>b_char := True,
                                 b_active := (if is_permanent c' b' then True else b_active b')\<rparr>))))"

text \<open>
  \<^verbatim>\<open>Bonus.calc\<close>: \<^verbatim>\<open>self.char.stats[name].calc()\<close> for every target; without a character the
  first target raises AttributeError.
\<close>

definition Bonus_calc :: "nat \<Rightarrow> character \<Rightarrow> bonus \<Rightarrow> outcome" where
  "Bonus_calc n c b =
     (if b_stats b = [] then Done c
      else if \<not> b_char b then Raised AttributeError c
      else for_stats (calc n) c (b_stats b))"

text \<open>
  \<^verbatim>\<open>Bonus.toggle(new)\<close>. The test \<^verbatim>\<open>self.typ in self.char.BONUS_PERM\<close> is reached only for a bonus
  without a condition, and needs a character.
\<close>

definition toggle :: "nat \<Rightarrow> character \<Rightarrow> string \<Rightarrow> bool \<Rightarrow> outcome" where
  "toggle n c x new =
     (case bonuses c x of
        None \<Rightarrow> Raised Unsupported c
      | Some b \<Rightarrow>
          if b_condition b = [] \<and> \<not> b_char b then Raised AttributeError c
          else if is_permanent c b then Done c
          else let c' = upd_bonus c x (\<lambda>b'. b'\<lparr>b_last := b_active b', b_active := new\<rparr>)
               in Bonus_calc n c' b)"

definition on :: "nat \<Rightarrow> character \<Rightarrow> string \<Rightarrow> outcome" where
  "on n c x = toggle n c x True"

text \<open>
  \<^verbatim>\<open>reduce(lambda a,b: a or b.is_active(), self.usedby, False)\<close>. The elements of \<^verbatim>\<open>usedby\<close> are
  what \<^verbatim>\<open>Effect.plug\<close> adds: \<^verbatim>\<open>self.name\<close>, a \<^verbatim>\<open>str\<close>, which has no method \<^verbatim>\<open>is_active\<close>. The call
  is made whenever \<^verbatim>\<open>a\<close> is false.
\<close>

fun any_active :: "bool \<Rightarrow> string list \<Rightarrow> exc + bool" where
  "any_active a [] = Inr a"
| "any_active a (e # es) = (if a then any_active True es else Inl AttributeError)"

definition off :: "nat \<Rightarrow> character \<Rightarrow> string \<Rightarrow> bool \<Rightarrow> outcome" where
  "off n c x force =
     (case bonuses c x of
        None \<Rightarrow> Raised Unsupported c
      | Some b \<Rightarrow>
          if force then toggle n c x False
          else (case any_active False (b_usedby b) of
                  Inl e \<Rightarrow> Raised e c
                | Inr a \<Rightarrow> if \<not> a then toggle n c x False else Done c))"

definition revert :: "nat \<Rightarrow> character \<Rightarrow> string \<Rightarrow> outcome" where
  "revert n c x =
     (case bonuses c x of
        None \<Rightarrow> Raised Unsupported c
      | Some b \<Rightarrow>
          if b_active b = b_last b then Done c
          else Bonus_calc n (upd_bonus c x (\<lambda>b'. b'\<lparr>b_active := b_last b'\<rparr>)) b)"

subsection \<open>Effect\<close>

text \<open>\<^verbatim>\<open>Effect.is_active\<close>.\<close>

definition is_active :: "effect \<Rightarrow> bool" where
  "is_active e = (case e_active e of Some a \<Rightarrow> a | None \<Rightarrow> \<not> expired (e_duration e))"

text \<open>
  The loop of \<^verbatim>\<open>Effect.plug\<close>: \<^verbatim>\<open>bonus = char.bonuses[name]; bonus.usedby.add(self.name)\<close>, then
  \<^verbatim>\<open>bonus.on()\<close> or \<^verbatim>\<open>bonus.off()\<close> when \<^verbatim>\<open>self.active\<close> is not \<^verbatim>\<open>None\<close>.
\<close>

fun plug_bonuses :: "nat \<Rightarrow> character \<Rightarrow> string \<Rightarrow> bool option \<Rightarrow> string list \<Rightarrow> outcome" where
  "plug_bonuses n c x act [] = Done c"
| "plug_bonuses n c x act (b # bs) =
     (if bonuses c b = None then Raised KeyError c
      else let c1 = upd_bonus c b (\<lambda>b'. b'\<lparr>b_usedby := set_add (b_usedby b') x\<rparr>)
           in and_then
                (case act of None \<Rightarrow> Done c1
                 | Some a \<Rightarrow> if a then on n c1 b else off n c1 b False)
                (\<lambda>c'. plug_bonuses n c' x act bs))"

definition Effect_plug :: "nat \<Rightarrow> character \<Rightarrow> string \<Rightarrow> outcome" where
  "Effect_plug n c x =
     (case effects c x of
        None \<Rightarrow> Raised Unsupported c
      | Some e \<Rightarrow>
          and_then (plug_bonuses n c x (e_active e) (e_bonuses e))
            (\<lambda>c'. Done (upd_effect c' x (\<lambda>e'. e'\<lparr>e_char := True\<rparr>))))"

text \<open>
  \<^verbatim>\<open>Effect.unplug\<close>. The body of its loop begins with \<^verbatim>\<open>bonus = char.bonuses[name]\<close>, and the method
  has neither a parameter nor a local variable \<^verbatim>\<open>char\<close> (\<^verbatim>\<open>plug\<close> has the parameter; here the
  character is \<^verbatim>\<open>self.char\<close>), nor does the module define one: the first pass of the loop
  raises NameError.
\<close>

definition Effect_unplug :: "character \<Rightarrow> string \<Rightarrow> outcome" where
  "Effect_unplug c x =
     (case effects c x of
        None \<Rightarrow> Raised Unsupported c
      | Some e \<Rightarrow>
          if \<not> e_char e then Raised RuntimeError c
          else if e_bonuses e \<noteq> [] then Raised NameError c
          else Done (upd_effect c x (\<lambda>e'. e'\<lparr>e_char := False\<rparr>)))"

subsection \<open>Objects as their constructors leave them\<close>

text \<open>\<^verbatim>\<open>Stat.__init__(name, formula)\<close>.\<close>

definition Stat :: "string \<Rightarrow> stat" where
  "Stat f =
     \<lparr>s_char = False, s_formula = f, s_original = f, s_bonuses = [], s_uses = [], s_usedby = [],
      s_normal = PNone, s_value = PNone, s_root = True, s_leaf = True\<rparr>"

text \<open>A character with no stats, bonuses or effects, where no bonus type stacks.\<close>

definition blank :: character where
  "blank =
     \<lparr>stat_objs = (\<lambda>n. None), stats = [], bonuses = (\<lambda>n. None), effects = (\<lambda>n. None),
      BONUS_TYPES = [], BONUS_PERM = [], stacks = (\<lambda>t. False)\<rparr>"

text \<open>\<^verbatim>\<open>char.stats[name] = Stat(name, formula)\<close>: enter a new Stat, not yet plugged in.\<close>

definition enter :: "character \<Rightarrow> string \<Rightarrow> string \<Rightarrow> character" where
  "enter c name f =
     c\<lparr>stat_objs := (stat_objs c)(name := Some (Stat f)), stats := set_add (stats c) name\<rparr>"

fun raised :: "outcome \<Rightarrow> exc option" where
  "raised (Done c) = None"
| "raised (Raised e c) = Some e"

text \<open>
  The sheet of the specification's scenario: the root stat \<^verbatim>\<open>dexterity\<close> with formula \<^verbatim>\<open>17\<close>,
  plugged in, and a stat \<^verbatim>\<open>dex\<close> with the given formula, entered and not yet plugged in.
\<close>

definition dex_sheet :: "string \<Rightarrow> character" where
  "dex_sheet f =
     enter (state_of (plug 5 (enter blank ''dexterity'' ''17'') ''dexterity'')) ''dex'' f"

text \<open>The same sheet once \<^verbatim>\<open>dex\<close>, with the formula of the scenario, is plugged in too.\<close>

definition dex_plugged :: character where
  "dex_plugged = state_of (plug 5 (dex_sheet ''($dexterity-10)/2'') ''dex'')"

text \<open>And once \<^verbatim>\<open>dex\<close> is unplugged again.\<close>

definition dex_unplugged :: character where
  "dex_unplugged = state_of (unplug 5 dex_plugged ''dex'' False False)"

text \<open>\<^verbatim>\<open>Stat.set_formula(s)\<close>: refused once the stat is plugged in.\<close>

definition set_formula :: "character \<Rightarrow> string \<Rightarrow> string \<Rightarrow> outcome" where
  "set_formula c x f =
     (case stat_objs c x of
        None \<Rightarrow> Raised Unsupported c
      | Some st \<Rightarrow>
          if s_char st then Raised RuntimeError c
          else Done (upd_stat c x (\<lambda>s. s\<lparr>s_formula := f, s_original := f\<rparr>)))"

text \<open>
  A stat that has been in use before: entered with a number as its formula, plugged in,
  unplugged again (which keeps its \<^verbatim>\<open>normal\<close> and \<^verbatim>\<open>value\<close>), and given a new formula.
\<close>

definition reused :: "string \<Rightarrow> string \<Rightarrow> character" where
  "reused f0 f =
     state_of (set_formula
       (state_of (unplug 5 (state_of (plug 5 (enter blank ''x'' f0) ''x'')) ''x'' False False))
       ''x'' f)"

text \<open>\<^verbatim>\<open>Effect.__init__(name, bonuses, duration, text, active)\<close>.\<close>

definition Effect :: "string list \<Rightarrow> duration \<Rightarrow> bool option \<Rightarrow> effect" where
  "Effect bs d act = \<lparr>e_bonuses = bs, e_duration = d, e_active = act, e_last = act, e_char = False\<rparr>"

text \<open>
  A sheet with the stat \<^verbatim>\<open>ac\<close> of formula \<^verbatim>\<open>10\<close>, plugged in, the given Bonus under the name
  \<^verbatim>\<open>b\<close>, not yet plugged in, and the bonus type \<^verbatim>\<open>racial\<close> permanent.
\<close>

definition ac_sheet :: "bonus \<Rightarrow> character" where
  "ac_sheet b =
     (state_of (plug 5 (enter blank ''ac'' ''10'') ''ac''))
       \<lparr>bonuses := [''b'' \<mapsto> b], BONUS_PERM := [''racial'']\<rparr>"

text \<open>
  \<^verbatim>\<open>Bonus('b', 4, 'ac', typ='racial', active=False)\<close>, plugged into that sheet.
\<close>

definition racial_plugged :: character where
  "racial_plugged =
     state_of (Bonus_plug 5 (ac_sheet (Bonus 4 [''ac''] (Some ''racial'') None False)) ''b'')"

text \<open>
  \<^verbatim>\<open>Bonus('b', 4, 'ac', typ='armor')\<close> plugged into the sheet, and then the effect
  \<^verbatim>\<open>Effect('e', 'b', Duration(0))\<close>, whose duration has expired and whose \<^verbatim>\<open>active\<close> is unset,
  plugged in as well.
\<close>

definition armor_effect :: character where
  "armor_effect =
     state_of (Effect_plug 5
       ((state_of (Bonus_plug 5 (ac_sheet (Bonus 4 [''ac''] (Some ''armor'') None True)) ''b''))
          \<lparr>effects := [''e'' \<mapsto> Effect [''b''] \<lparr>raw = ''0'', original = PInt 0, rounds = PInt 0\<rparr> None]\<rparr>)
       ''e'')"


text \<open>
  A reused stat of value 5 whose new formula, \<^verbatim>\<open>@value+1\<close>, reads the stat's own value, plugged
  in again.
\<close>

definition self_counting :: character where
  "self_counting = state_of (plug 5 (reused ''5'' ''@value+1'') ''x'')"

text \<open>
  A reused stat of value -2 whose new formula, \<^verbatim>\<open>1/(@value+1)\<close>, divides by its own value plus
  one: before \<^verbatim>\<open>plug\<close>, after \<^verbatim>\<open>plug\<close>, and after \<^verbatim>\<open>plug\<close> and \<^verbatim>\<open>unplug\<close>.
\<close>

definition self_dividing :: character where
  "self_dividing = reused ''-2'' ''1/(@value+1)''"

definition self_dividing_plugged :: character where
  "self_dividing_plugged = state_of (plug 5 self_dividing ''x'')"

definition self_dividing_unplugged :: character where
  "self_dividing_unplugged = state_of (unplug 5 self_dividing_plugged ''x'' False False)"

text \<open>A ranking of the stats of the scenario: \<^verbatim>\<open>dex\<close> above \<^verbatim>\<open>dexterity\<close>.\<close>

definition dex_rank :: "string \<Rightarrow> nat" where
  "dex_rank y = (if y = ''dex'' then 1 else 0)"

section \<open>The properties, in the words of the specification\<close>

text \<open>
  The contribution of one bonus type to a stat, as the specification puts it: the sum of
  the values of the active bonuses of the type when the type stacks, their maximum when it
  does not, nothing when none is active.
\<close>

definition contribution :: "character \<Rightarrow> string \<times> string list \<Rightarrow> int" where
  "contribution c p =
     (let vals = active_values c (snd p)
      in if vals = [] then 0
         else if stacks c (fst p) then (\<Sum>v\<leftarrow>vals. v)
         else Max (set vals))"

definition total_bonus :: "character \<Rightarrow> (string \<times> string list) list \<Rightarrow> int" where
  "total_bonus c ps = (\<Sum>p\<leftarrow>ps. contribution c p)"

text \<open>
  A Python number plus an integer. \<^verbatim>\<open>None\<close> stays \<^verbatim>\<open>None\<close>: a \<^verbatim>\<open>calc\<close> that returns has added
  nothing to a formula whose value is \<^verbatim>\<open>None\<close>, since \<^verbatim>\<open>None + int\<close> raises TypeError.
\<close>

fun plus_int :: "pyval \<Rightarrow> int \<Rightarrow> pyval" where
  "plus_int PNone t = PNone"
| "plus_int (PInt i) t = PInt (i + t)"
| "plus_int (PFloat r) t = PFloat (r + of_int t)"

text \<open>
  The dependency graph is acyclic: the stats can be ranked so that every dependant of a
  stat (every name in its \<^verbatim>\<open>usedby\<close>) has a higher rank than the stat. It is asked of the
  stats in the list.
\<close>

definition ranked :: "(string \<Rightarrow> nat) \<Rightarrow> character \<Rightarrow> string list \<Rightarrow> bool" where
  "ranked rank c names =
     (\<forall>y\<in>set names. case stat_objs c y of
                      None \<Rightarrow> True
                    | Some st \<Rightarrow> (\<forall>z\<in>set (s_usedby st). rank y < rank z))"

text \<open>
  The graph records every dependency of the stat \<open>x\<close>: the text \<open>f\<close>, evaluated in a method
  of \<open>x\<close>, reads nothing but the \<^verbatim>\<open>normal\<close> and \<^verbatim>\<open>value\<close> of stats of a lower rank than \<open>x\<close>; its
  value is the same wherever those are the same.
\<close>

definition reads_below :: "(string \<Rightarrow> nat) \<Rightarrow> character \<Rightarrow> string \<Rightarrow> string \<Rightarrow> bool" where
  "reads_below rank c x f =
     (\<forall>E. env_self E \<noteq> None \<and> \<not> env_char E
          \<and> (\<forall>y. rank y < rank x \<longrightarrow> env_stats E y = env_stats (stat_env c x) y)
          \<longrightarrow> py_eval E f = py_eval (stat_env c x) f)"

text \<open>
  The text \<open>f\<close>, evaluated in a method of the stat \<open>x\<close>, does not read the \<^verbatim>\<open>normal\<close> or the
  \<^verbatim>\<open>value\<close> of \<open>x\<close> itself: its value is the same in two environments that differ only there.
\<close>

definition ignores_self :: "string \<Rightarrow> string \<Rightarrow> bool" where
  "ignores_self x f =
     (\<forall>E E'. env_char E' = env_char E \<and> env_self E \<noteq> None \<and> env_self E' \<noteq> None
            \<and> (\<forall>y. y \<noteq> x \<longrightarrow> env_stats E' y = env_stats E y)
            \<longrightarrow> py_eval E' f = py_eval E f)"

text \<open>
  The formula of a stat as \<^verbatim>\<open>plug\<close> resolves it against the stats of the character: the
  aliases \<^verbatim>\<open>$NAME\<close>, \<^verbatim>\<open>#NAME\<close> and \<^verbatim>\<open>@NAME\<close> replaced.
\<close>

definition resolved :: "character \<Rightarrow> string \<Rightarrow> string" where
  "resolved c f = subst_attrs (fst (subst_stats f (stats c))) stat_dir"

section \<open>Notions used in the proofs\<close>

text \<open>
  Two states of the character that differ at most in those fields of the stats that
  \<open>erase\<close> blanks.
\<close>

definition same_up_to :: "(stat \<Rightarrow> stat) \<Rightarrow> character \<Rightarrow> character \<Rightarrow> bool" where
  "same_up_to erase c c' =
     (c'\<lparr>stat_objs := stat_objs c\<rparr> = c
      \<and> (\<forall>y. map_option erase (stat_objs c' y) = map_option erase (stat_objs c y)))"

text \<open>The fields \<^verbatim>\<open>calc\<close> assigns, and the fields the loops of \<^verbatim>\<open>plug\<close> and \<^verbatim>\<open>unplug\<close> assign in other stats.\<close>

definition no_values :: "stat \<Rightarrow> stat" where
  "no_values s = s\<lparr>s_normal := PNone, s_value := PNone\<rparr>"

definition no_usedby :: "stat \<Rightarrow> stat" where
  "no_usedby s = s\<lparr>s_usedby := [], s_leaf := True\<rparr>"

text \<open>
  Two states with the same keys and bonuses in which every stat but \<open>x\<close> has the same
  \<^verbatim>\<open>normal\<close> and \<^verbatim>\<open>value\<close>.
\<close>

definition agree_off :: "string \<Rightarrow> character \<Rightarrow> character \<Rightarrow> bool" where
  "agree_off x c d =
     (stats d = stats c \<and> bonuses d = bonuses c \<and> stacks d = stacks c
      \<and> (\<forall>y. y \<noteq> x \<longrightarrow>
            map_option (\<lambda>s. (s_normal s, s_value s)) (stat_objs d y)
            = map_option (\<lambda>s. (s_normal s, s_value s)) (stat_objs c y)))"

section \<open>Evaluating the model on concrete texts\<close>

lemma descend_numeral: "descend (numeral k) = descend_step (descend (pred_numeral k))"
  by (simp add: numeral_eq_Suc)

lemma lex_numeral: "lex (numeral k) (c # cs) = lex (pred_numeral k) cs"
  by (simp add: numeral_eq_Suc)

lemma replace_from_numeral:
  "replace_from old new (numeral k) (c # cs) = replace_from old new (pred_numeral k) cs"
  by (simp add: numeral_eq_Suc)

lemma str_nat_values:
  "str_nat 14400 = ''14400''" "str_nat 600 = ''600''" "str_nat (Suc 0) = ''1''"
  by (simp_all add: str_nat.simps)

lemmas dur_defs = to_rds_def lower_def lower_char_def replace_def INF_NAMES_def to_rds_term_def
  count_def split_unit_def is_digit_def get_mult_def UNITS_def str_int_def Duration_INF_def
  replace_from_numeral str_nat_values

lemmas lex_defs = ref_at_def self_stat_prefix_def char_stat_prefix_def is_word_char_def
  is_digit_def word_token_def cons_token_def digit_val_def lex_numeral

lemmas parse_defs = parse_expr_def descend_numeral descend_step_def p_expr_def p_expr_rest_def
  p_term_def p_term_rest_def p_paren_def p_sign_def p_call_def p_factor_def p_args_def

lemma is_double_int:
  assumes "\<bar>m\<bar> < 2 ^ 53"
  shows "is_double (of_int m)"
proof -
  have "\<bar>of_int m :: rat\<bar> < 2 ^ 53"
    using assms by (metis of_int_abs of_int_less_numeral_power_cancel_iff)
  then have "(of_int m :: rat) * 2 ^ 0 = of_int \<lfloor>(of_int m :: rat) * 2 ^ 0\<rfloor>
      \<and> \<bar>(of_int m :: rat) * 2 ^ 0\<bar> < 2 ^ 53"
    by simp
  then show ?thesis
    unfolding is_double_def by (intro disjI1 bexI [of _ 0]) simp_all
qed

lemma is_double_half:
  assumes "\<bar>m\<bar> < 2 ^ 53"
  shows "is_double (of_int m / 2)"
proof -
  have "\<bar>of_int m :: rat\<bar> < 2 ^ 53"
    using assms by (metis of_int_abs of_int_less_numeral_power_cancel_iff)
  then have "(of_int m / 2 :: rat) * 2 ^ 1 = of_int \<lfloor>(of_int m / 2 :: rat) * 2 ^ 1\<rfloor>
      \<and> \<bar>(of_int m / 2 :: rat) * 2 ^ 1\<bar> < 2 ^ 53"
    by simp
  then show ?thesis
    unfolding is_double_def by (intro disjI1 bexI [of _ 1]) simp_all
qed

lemma double_simps:
  "is_double 0" "is_double 1" "is_double (- 1)"
  "numeral n < (2 :: int) ^ 53 \<Longrightarrow> is_double (numeral n)"
  "numeral n < (2 :: int) ^ 53 \<Longrightarrow> is_double (- numeral n)"
  "numeral n < (2 :: int) ^ 53 \<Longrightarrow> is_double (numeral n / 2)"
  "numeral n < (2 :: int) ^ 53 \<Longrightarrow> is_double (- (numeral n / 2))"
  using is_double_int [of 0] is_double_int [of 1] is_double_int [of "- 1"]
    is_double_int [of "numeral n"] is_double_int [of "- numeral n"]
    is_double_half [of "numeral n"] is_double_half [of "- numeral n"]
  by simp_all

lemmas eval_defs = py_eval_def stat_attr_def apply_bin_def apply_call_def py_add_def py_sub_def
  py_mul_def py_truediv_def py_floordiv_def num_op_def py_max_def py_min_def py_lt_def
  to_float_def double_simps

section \<open>Duration\<close>

lemma to_rds_day: "to_rds (DStr ''1d'') = Inr ''1*14400''"
  by (simp add: dur_defs)

lemma to_rds_hours: "to_rds (DStr ''2hr'') = Inr ''2*600''"
  by (simp add: dur_defs)

lemma to_rds_none: "to_rds DNone = Inr ''-1''"
  by (simp add: dur_defs)

lemma to_rds_caster: "to_rds (DStr ''1/2CL'') = Inr ''1*1*max(1,int($caster_level/2))''"
  by (simp add: dur_defs)

lemma eval_day: "py_eval E ''1*14400'' = Inr (PInt 14400)"
  by (simp add: lex_defs parse_defs eval_defs)

lemma eval_hours: "py_eval E ''2*600'' = Inr (PInt 1200)"
  by (simp add: lex_defs parse_defs eval_defs)

lemma eval_none: "py_eval E ''-1'' = Inr (PInt (- 1))"
  by (simp add: lex_defs parse_defs eval_defs)

lemma expand_caster:
  \<open>expand_units UNITS ''1*1*max(1,int($caster_level/2))'' =
     ''1*1*max(1,int(char.stats["caster_level"].value/2))''\<close>
  by (simp add: UNITS_def replace_def replace_from_numeral)

lemma eval_caster:
  \<open>py_eval \<lparr>env_stats = (\<lambda>n. if n = ''caster_level'' then Some (nrm, PInt 6) else None),
            env_self = None, env_char = True\<rparr>
     ''1*1*max(1,int(char.stats["caster_level"].value/2))''
   = Inr (PInt 3)\<close>
  by (simp add: lex_defs parse_defs eval_defs)

lemma parse_day: "parse (DStr ''1d'') None = Inr (''1*14400'', PInt 14400)"
  by (simp add: parse_def to_rds_day eval_day UNITS_def replace_def)

lemma parse_hours: "parse (DStr ''2hr'') None = Inr (''2*600'', PInt 1200)"
  by (simp add: parse_def to_rds_hours eval_hours UNITS_def replace_def)

lemma parse_none: "parse DNone None = Inr (''-1'', PInt (- 1))"
  by (simp add: parse_def to_rds_none eval_none UNITS_def replace_def)

lemma parse_caster:
  \<open>parse (DStr ''1/2CL'')
     (Some (\<lambda>n. if n = ''caster_level'' then Some (nrm, PInt 6) else None)) =
   Inr (''1*1*max(1,int(char.stats["caster_level"].value/2))'', PInt 3)\<close>
  unfolding parse_def to_rds_caster
  by (simp add: expand_caster eval_caster Let_def del: expand_units.simps)

text \<open>
  Claim C9. A Duration evaluates its text once, at construction, to a fixed number of
  rounds: \<^verbatim>\<open>"1d"\<close> gives 14400, \<^verbatim>\<open>"2hr"\<close> gives 1200, no text (\<^verbatim>\<open>None\<close>) gives the sentinel
  \<^verbatim>\<open>INF = -1\<close>, and \<^verbatim>\<open>"1/2CL"\<close> with a caster-level stat of value 6 gives
  \<^verbatim>\<open>max(1, int(6/2)) = 3\<close>. \<^verbatim>\<open>advance\<close> on a duration whose rounds are the sentinel returns
  \<^verbatim>\<open>False\<close> and leaves the duration as it was, whatever amount (an \<^verbatim>\<open>int\<close> or another
  Duration) it is advanced by.
\<close>

theorem duration_rounds:
  \<open>Duration (DStr ''1d'') None =
     Inr \<lparr>raw = ''1*14400'', original = PInt 14400, rounds = PInt 14400\<rparr>
   \<and> Duration (DStr ''2hr'') None =
     Inr \<lparr>raw = ''2*600'', original = PInt 1200, rounds = PInt 1200\<rparr>
   \<and> Duration DNone None =
     Inr \<lparr>raw = ''-1'', original = PInt Duration_INF, rounds = PInt Duration_INF\<rparr>
   \<and> Duration (DStr ''1/2CL'')
       (Some (\<lambda>n. if n = ''caster_level'' then Some (nrm, PInt 6) else None)) =
     Inr \<lparr>raw = ''1*1*max(1,int(char.stats["caster_level"].value/2))'',
          original = PInt 3, rounds = PInt 3\<rparr>
   \<and> advance \<lparr>raw = r, original = v, rounds = PInt Duration_INF\<rparr> (AInt n) =
     Inr (False, \<lparr>raw = r, original = v, rounds = PInt Duration_INF\<rparr>)
   \<and> advance \<lparr>raw = r, original = v, rounds = PInt Duration_INF\<rparr> (ADur d) =
     Inr (False, \<lparr>raw = r, original = v, rounds = PInt Duration_INF\<rparr>)\<close>
  by (simp add: Duration_def parse_day parse_hours parse_none parse_caster advance_def py_eq_def
      Duration_INF_def)

section \<open>Stat: the scenario of the specification\<close>

lemma startswith_hd: "startswith s (p # ps) \<Longrightarrow> p \<in> set s"
  by (cases s) auto

lemma replace_from_absent: "p \<notin> set s \<Longrightarrow> replace_from (p # ps) new 0 s = s"
  by (induction s) (auto dest: startswith_hd)

lemma replace_absent: "p \<notin> set s \<Longrightarrow> replace s (p # ps) new = s"
  by (simp add: replace_def replace_from_absent)

lemma subst_attrs_absent: "CHR ''@'' \<notin> set s \<Longrightarrow> subst_attrs s names = s"
  by (induction names) (simp_all add: replace_absent)

lemma calc_numeral: "calc (numeral k) = calc_step (calc (pred_numeral k))"
  by (simp add: numeral_eq_Suc)

lemma unplug_numeral:
  "unplug (numeral k) = unplug_step (\<lambda>c y. unplug (pred_numeral k) c y False True)"
  by (simp add: numeral_eq_Suc)

lemmas subst_defs = subst_var_def VARS_def expand_def replace_def replace_from_numeral
  self_stat_prefix_def

lemmas state_defs = upd_stat_def upd_bonus_def upd_effect_def char_stat_def set_add_def
  stat_env_def Stat_def blank_def enter_def

lemmas calc_defs = calc_step_def calc_own_def active_values_def py_eq_def calc_numeral
  py_eval_def Let_def

lemma subst_17: "subst_stats ''17'' names = (''17'', [])"
  by (induction names) (simp_all add: subst_var_def VARS_def replace_absent)

lemma parse_17: "parse_expr ''17'' = Inr (Num 17)"
  by (simp add: lex_defs parse_defs)

lemma normal_17: "replace ''17'' ''.value'' ''.normal'' = ''17''"
  by (simp add: replace_absent)

lemma dex_sheet_eq:
  "dex_sheet f =
     \<lparr>stat_objs =
        [''dexterity'' \<mapsto>
           \<lparr>s_char = True, s_formula = ''17'', s_original = ''17'', s_bonuses = [], s_uses = [],
            s_usedby = [], s_normal = PInt 17, s_value = PInt 17, s_root = True, s_leaf = True\<rparr>,
         ''dex'' \<mapsto> Stat f],
      stats = [''dexterity'', ''dex''], bonuses = \<lambda>n. None, effects = \<lambda>n. None,
      BONUS_TYPES = [], BONUS_PERM = [], stacks = \<lambda>t. False\<rparr>"
  by (simp add: dex_sheet_def plug_def subst_17 parse_17 normal_17 subst_attrs_absent state_defs
      calc_defs del: subst_stats.simps)

lemma subst_div:
  \<open>subst_stats ''($dexterity-10)/2'' [''dexterity'', ''dex''] =
     (''(self.char.stats["dexterity"].value-10)/2'', [''dexterity''])\<close>
  by (simp add: subst_defs)

lemma normal_div:
  \<open>replace ''(self.char.stats["dexterity"].value-10)/2'' ''.value'' ''.normal'' =
     ''(self.char.stats["dexterity"].normal-10)/2''\<close>
  by (simp add: replace_def replace_from_numeral)

lemma parse_div:
  \<open>parse_expr ''(self.char.stats["dexterity"].value-10)/2'' =
     Inr (Bin TrueDiv (Bin Sub (StatRef ''dexterity'' ''value'') (Num 10)) (Num 2))\<close>
  by (simp add: lex_defs parse_defs)

lemma parse_div_normal:
  \<open>parse_expr ''(self.char.stats["dexterity"].normal-10)/2'' =
     Inr (Bin TrueDiv (Bin Sub (StatRef ''dexterity'' ''normal'') (Num 10)) (Num 2))\<close>
  by (simp add: lex_defs parse_defs)

lemma dex_plugged_eq:
  \<open>plug 5 (dex_sheet ''($dexterity-10)/2'') ''dex'' =
     Done
      \<lparr>stat_objs =
         [''dexterity'' \<mapsto>
            \<lparr>s_char = True, s_formula = ''17'', s_original = ''17'', s_bonuses = [], s_uses = [],
             s_usedby = [''dex''], s_normal = PInt 17, s_value = PInt 17, s_root = True,
             s_leaf = False\<rparr>,
          ''dex'' \<mapsto>
            \<lparr>s_char = True, s_formula = ''(self.char.stats["dexterity"].value-10)/2'',
             s_original = ''($dexterity-10)/2'', s_bonuses = [], s_uses = [''dexterity''],
             s_usedby = [], s_normal = PFloat (7 / 2), s_value = PFloat (7 / 2), s_root = False,
             s_leaf = True\<rparr>],
       stats = [''dexterity'', ''dex''], bonuses = \<lambda>n. None, effects = \<lambda>n. None,
       BONUS_TYPES = [], BONUS_PERM = [], stacks = \<lambda>t. False\<rparr>\<close>
  by (simp add: dex_sheet_eq plug_def subst_div normal_div parse_div parse_div_normal
      subst_attrs_absent state_defs calc_defs eval_defs del: subst_stats.simps)

lemma subst_floordiv:
  \<open>subst_stats ''($dexterity-10)//2'' [''dexterity'', ''dex''] =
     (''(self.char.stats["dexterity"].value-10)//2'', [''dexterity''])\<close>
  by (simp add: subst_defs)

lemma normal_floordiv:
  \<open>replace ''(self.char.stats["dexterity"].value-10)//2'' ''.value'' ''.normal'' =
     ''(self.char.stats["dexterity"].normal-10)//2''\<close>
  by (simp add: replace_def replace_from_numeral)

lemma parse_floordiv:
  \<open>parse_expr ''(self.char.stats["dexterity"].value-10)//2'' =
     Inr (Bin FloorDiv (Bin Sub (StatRef ''dexterity'' ''value'') (Num 10)) (Num 2))\<close>
  by (simp add: lex_defs parse_defs)

lemma parse_floordiv_normal:
  \<open>parse_expr ''(self.char.stats["dexterity"].normal-10)//2'' =
     Inr (Bin FloorDiv (Bin Sub (StatRef ''dexterity'' ''normal'') (Num 10)) (Num 2))\<close>
  by (simp add: lex_defs parse_defs)

lemma dex_floor_plugged:
  \<open>map_option (\<lambda>s. (s_normal s, s_value s))
     (stat_objs (state_of (plug 5 (dex_sheet ''($dexterity-10)//2'') ''dex'')) ''dex'') =
   Some (PInt 3, PInt 3)
   \<and> raised (plug 5 (dex_sheet ''($dexterity-10)//2'') ''dex'') = None\<close>
  by (simp add: dex_sheet_eq plug_def subst_floordiv normal_floordiv parse_floordiv
      parse_floordiv_normal subst_attrs_absent state_defs calc_defs eval_defs
      del: subst_stats.simps)

text \<open>
  Claim C4, as stated: with the root stat \<^verbatim>\<open>dexterity\<close> of formula \<^verbatim>\<open>17\<close> and value 17, the stat
  of formula \<^verbatim>\<open>($dexterity-10)/2\<close>, plugged in and recomputed, has the value 3. It does not:
  \<^verbatim>\<open>plug\<close> succeeds and the value is the float 3.5, which is not equal to 3.
\<close>

theorem dex_value_is_not_3:
  "raised (plug 5 (dex_sheet ''($dexterity-10)/2'') ''dex'') = None
   \<and> map_option s_value
       (stat_objs (state_of (plug 5 (dex_sheet ''($dexterity-10)/2'') ''dex'')) ''dex'')
     = Some (PFloat (7 / 2))
   \<and> \<not> py_eq (PFloat (7 / 2)) (PInt 3)"
  by (simp add: dex_plugged_eq py_eq_def)

text \<open>
  Claim C4, amended: the division \<^verbatim>\<open>/\<close> of a formula is Python 3's true division and does not
  round, so the stat of formula \<^verbatim>\<open>($dexterity-10)/2\<close> has \<^verbatim>\<open>normal\<close> and \<^verbatim>\<open>value\<close> 3.5; it is
  the formula \<^verbatim>\<open>($dexterity-10)//2\<close> that rounds down, to 3.
\<close>

theorem dex_value_true_division:
  "map_option (\<lambda>s. (s_normal s, s_value s))
     (stat_objs (state_of (plug 5 (dex_sheet ''($dexterity-10)/2'') ''dex'')) ''dex'')
     = Some (PFloat (7 / 2), PFloat (7 / 2))
   \<and> map_option (\<lambda>s. (s_normal s, s_value s))
       (stat_objs (state_of (plug 5 (dex_sheet ''($dexterity-10)//2'') ''dex'')) ''dex'')
     = Some (PInt 3, PInt 3)"
  by (simp add: dex_plugged_eq dex_floor_plugged)

subsection \<open>A formula with an unknown alias\<close>

lemma subst_unknown:
  \<open>subst_stats ''$dexterity+$foo'' [''dexterity'', ''dex''] =
     (''self.char.stats["dexterity"].value+$foo'', [''dexterity''])\<close>
  by (simp add: subst_defs)

lemma parse_unknown:
  \<open>parse_expr ''self.char.stats["dexterity"].value+$foo'' = Inl SyntaxError\<close>
  by (simp add: lex_defs parse_defs)

text \<open>
  Claim C3 says that a \<^verbatim>\<open>plug\<close> that raises FormulaError leaves the stat's \<^verbatim>\<open>uses\<close>, \<^verbatim>\<open>root\<close>,
  formula and character binding as they were, and no other stat touched. The code keeps
  the dependants in a local set until \<^verbatim>\<open>eval\<close> has succeeded, but binds \<^verbatim>\<open>self.char\<close>, adds to
  \<^verbatim>\<open>self.uses\<close> and clears \<^verbatim>\<open>self.root\<close> before the \<^verbatim>\<open>eval\<close>. For the formula \<^verbatim>\<open>$dexterity+$foo\<close>,
  where no stat \<^verbatim>\<open>foo\<close> exists: FormulaError is raised, the formula of the stat and the stat
  \<^verbatim>\<open>dexterity\<close> are as before, and the stat is left bound to the character, with
  \<^verbatim>\<open>uses = {dexterity}\<close> and \<^verbatim>\<open>root = False\<close>.
\<close>

theorem plug_failure_keeps_uses:
  \<open>raised (plug 5 (dex_sheet ''$dexterity+$foo'') ''dex'') =
     Some (FormulaError ''SyntaxError in "self.char.stats["dexterity"].value+$foo"'')
   \<and> stat_objs (dex_sheet ''$dexterity+$foo'') ''dex'' = Some (Stat ''$dexterity+$foo'')
   \<and> stat_objs (state_of (plug 5 (dex_sheet ''$dexterity+$foo'') ''dex'')) ''dex'' =
       Some ((Stat ''$dexterity+$foo'')\<lparr>s_char := True, s_uses := [''dexterity''], s_root := False\<rparr>)
   \<and> stat_objs (state_of (plug 5 (dex_sheet ''$dexterity+$foo'') ''dex'')) ''dexterity'' =
       stat_objs (dex_sheet ''$dexterity+$foo'') ''dexterity''\<close>
  by (simp add: dex_sheet_eq plug_def subst_unknown parse_unknown subst_attrs_absent state_defs
      py_eval_def Let_def formula_error_def del: subst_stats.simps)

subsection \<open>Detaching a stat that others depend on\<close>

lemma dex_plugged_state:
  \<open>dex_plugged =
      \<lparr>stat_objs =
         [''dexterity'' \<mapsto>
            \<lparr>s_char = True, s_formula = ''17'', s_original = ''17'', s_bonuses = [], s_uses = [],
             s_usedby = [''dex''], s_normal = PInt 17, s_value = PInt 17, s_root = True,
             s_leaf = False\<rparr>,
          ''dex'' \<mapsto>
            \<lparr>s_char = True, s_formula = ''(self.char.stats["dexterity"].value-10)/2'',
             s_original = ''($dexterity-10)/2'', s_bonuses = [], s_uses = [''dexterity''],
             s_usedby = [], s_normal = PFloat (7 / 2), s_value = PFloat (7 / 2), s_root = False,
             s_leaf = True\<rparr>],
       stats = [''dexterity'', ''dex''], bonuses = \<lambda>n. None, effects = \<lambda>n. None,
       BONUS_TYPES = [], BONUS_PERM = [], stacks = \<lambda>t. False\<rparr>\<close>
  by (simp add: dex_plugged_def dex_plugged_eq)

text \<open>
  Claim C6 has two parts. The first holds: \<^verbatim>\<open>unplug()\<close> of \<^verbatim>\<open>dexterity\<close>, on which \<^verbatim>\<open>dex\<close> depends,
  raises DependencyError with the names of the dependants and changes nothing. The second
  does not: \<^verbatim>\<open>unplug(recursive=True)\<close> loops over the set \<^verbatim>\<open>self.usedby\<close> while the \<^verbatim>\<open>unplug\<close> of the
  dependant removes itself from that very set, so the loop raises
  \<^verbatim>\<open>RuntimeError: Set changed size during iteration\<close> after the first dependant: \<^verbatim>\<open>dex\<close> is
  detached, \<^verbatim>\<open>dexterity\<close> is still bound to the character.
\<close>

theorem recursive_unplug_raises:
  "unplug 5 dex_plugged ''dexterity'' False False =
     Raised (DependencyError ''still usedby: dex'') dex_plugged
   \<and> raised (unplug 5 dex_plugged ''dexterity'' False True) = Some RuntimeError
   \<and> map_option s_char
       (stat_objs (state_of (unplug 5 dex_plugged ''dexterity'' False True)) ''dex'') = Some False
   \<and> map_option s_char
       (stat_objs (state_of (unplug 5 dex_plugged ''dexterity'' False True)) ''dexterity'')
     = Some True"
  by (simp add: dex_plugged_state unplug_numeral unplug_step_def state_defs)

section \<open>Bonus and Effect: scenarios\<close>

lemma subst_10: "subst_stats ''10'' names = (''10'', [])"
  by (induction names) (simp_all add: subst_var_def VARS_def replace_absent)

lemma parse_10: "parse_expr ''10'' = Inr (Num 10)"
  by (simp add: lex_defs parse_defs)

lemma normal_10: "replace ''10'' ''.value'' ''.normal'' = ''10''"
  by (simp add: replace_absent)

lemmas bonus_defs = Bonus_def Bonus_plug_def Bonus_calc_def is_permanent_def add_bonus_def
  lower_def lower_char_def toggle_def revert_def off_def on_def

lemma ac_sheet_eq:
  "ac_sheet b =
     \<lparr>stat_objs =
        [''ac'' \<mapsto>
           \<lparr>s_char = True, s_formula = ''10'', s_original = ''10'', s_bonuses = [], s_uses = [],
            s_usedby = [], s_normal = PInt 10, s_value = PInt 10, s_root = True, s_leaf = True\<rparr>],
      stats = [''ac''], bonuses = [''b'' \<mapsto> b], effects = \<lambda>n. None,
      BONUS_TYPES = [], BONUS_PERM = [''racial''], stacks = \<lambda>t. False\<rparr>"
  by (simp add: ac_sheet_def plug_def subst_10 parse_10 normal_10 subst_attrs_absent state_defs
      calc_defs del: subst_stats.simps)

lemma racial_plug:
  "Bonus_plug 5 (ac_sheet (Bonus 4 [''ac''] (Some ''racial'') None False)) ''b'' =
     Done
      \<lparr>stat_objs =
         [''ac'' \<mapsto>
            \<lparr>s_char = True, s_formula = ''10'', s_original = ''10'',
             s_bonuses = [(''racial'', [''b''])], s_uses = [], s_usedby = [], s_normal = PInt 10,
             s_value = PInt 10, s_root = True, s_leaf = True\<rparr>],
       stats = [''ac''],
       bonuses =
         [''b'' \<mapsto>
            \<lparr>b_value = 4, b_stats = [''ac''], b_typ = ''racial'', b_condition = [], b_active = True,
             b_char = True, b_usedby = [], b_last = False\<rparr>],
       effects = \<lambda>n. None, BONUS_TYPES = [], BONUS_PERM = [''racial''], stacks = \<lambda>t. False\<rparr>"
  by (simp add: ac_sheet_eq bonus_defs parse_10 normal_10 state_defs calc_defs)

lemma racial_plugged_eq:
  "racial_plugged =
      \<lparr>stat_objs =
         [''ac'' \<mapsto>
            \<lparr>s_char = True, s_formula = ''10'', s_original = ''10'',
             s_bonuses = [(''racial'', [''b''])], s_uses = [], s_usedby = [], s_normal = PInt 10,
             s_value = PInt 10, s_root = True, s_leaf = True\<rparr>],
       stats = [''ac''],
       bonuses =
         [''b'' \<mapsto>
            \<lparr>b_value = 4, b_stats = [''ac''], b_typ = ''racial'', b_condition = [], b_active = True,
             b_char = True, b_usedby = [], b_last = False\<rparr>],
       effects = \<lambda>n. None, BONUS_TYPES = [], BONUS_PERM = [''racial''], stacks = \<lambda>t. False\<rparr>"
  by (simp add: racial_plugged_def racial_plug)

text \<open>
  Claim C7 says that an unconditional bonus of a permanent type is active after \<^verbatim>\<open>plug\<close> and
  stays so under any sequence of \<^verbatim>\<open>toggle\<close>, \<^verbatim>\<open>on\<close>, \<^verbatim>\<open>off\<close> and \<^verbatim>\<open>revert\<close>. \<^verbatim>\<open>plug\<close> and \<^verbatim>\<open>toggle\<close> carry the
  guard (\<^verbatim>\<open># some bonuses should never be turned off\<close>); \<^verbatim>\<open>revert\<close> does not. For the bonus
  \<^verbatim>\<open>Bonus('b', 4, 'ac', typ='racial', active=False)\<close>, with \<^verbatim>\<open>racial\<close> permanent: the constructor
  leaves \<^verbatim>\<open>active\<close> and \<^verbatim>\<open>last\<close> false, \<^verbatim>\<open>plug\<close> forces \<^verbatim>\<open>active\<close> to true, and \<^verbatim>\<open>revert()\<close> sets it back
  to \<^verbatim>\<open>last\<close>: the permanent bonus is inactive.
\<close>

theorem revert_turns_permanent_off:
  "raised (Bonus_plug 5 (ac_sheet (Bonus 4 [''ac''] (Some ''racial'') None False)) ''b'') = None
   \<and> map_option (\<lambda>b. (is_permanent racial_plugged b, b_active b))
        (bonuses racial_plugged ''b'') = Some (True, True)
   \<and> raised (revert 5 racial_plugged ''b'') = None
   \<and> map_option b_active (bonuses (state_of (revert 5 racial_plugged ''b'')) ''b'') = Some False"
  by (simp add: racial_plug racial_plugged_eq revert_def Bonus_calc_def is_permanent_def parse_10
      normal_10 state_defs calc_defs)

lemma armor_effect_eq:
  "armor_effect =
      \<lparr>stat_objs =
         [''ac'' \<mapsto>
            \<lparr>s_char = True, s_formula = ''10'', s_original = ''10'',
             s_bonuses = [(''armor'', [''b''])], s_uses = [], s_usedby = [], s_normal = PInt 10,
             s_value = PInt 14, s_root = True, s_leaf = True\<rparr>],
       stats = [''ac''],
       bonuses =
         [''b'' \<mapsto>
            \<lparr>b_value = 4, b_stats = [''ac''], b_typ = ''armor'', b_condition = [], b_active = True,
             b_char = True, b_usedby = [''e''], b_last = True\<rparr>],
       effects =
         [''e'' \<mapsto>
            \<lparr>e_bonuses = [''b''], e_duration = \<lparr>raw = ''0'', original = PInt 0, rounds = PInt 0\<rparr>,
             e_active = None, e_last = None, e_char = True\<rparr>],
       BONUS_TYPES = [], BONUS_PERM = [''racial''], stacks = \<lambda>t. False\<rparr>"
  by (simp add: armor_effect_def ac_sheet_eq bonus_defs Effect_plug_def Effect_def parse_10
      normal_10 state_defs calc_defs eval_defs)

text \<open>
  Claim C8 says that \<^verbatim>\<open>off()\<close> without \<^verbatim>\<open>force\<close> keeps the bonus on while an active Effect claims
  it, and turns it off (recomputing its stats) when no Effect in \<^verbatim>\<open>usedby\<close> is active. The
  code asks every element of \<^verbatim>\<open>usedby\<close> for \<^verbatim>\<open>is_active()\<close>, but \<^verbatim>\<open>Effect.plug\<close> has put the name
  of the effect there, a \<^verbatim>\<open>str\<close>. With the bonus \<^verbatim>\<open>b\<close> active and claimed only by the effect
  \<^verbatim>\<open>e\<close>, which is not active: \<^verbatim>\<open>off()\<close> raises AttributeError and the bonus stays active.
\<close>

theorem off_raises_for_claimed_bonus:
  "map_option (\<lambda>b. (b_active b, b_usedby b)) (bonuses armor_effect ''b'') = Some (True, [''e''])
   \<and> map_option is_active (effects armor_effect ''e'') = Some False
   \<and> off 5 armor_effect ''b'' False = Raised AttributeError armor_effect"
  by (simp add: armor_effect_eq off_def is_active_def expired_def py_eq_def)

text \<open>
  Claim C10 says that \<^verbatim>\<open>Effect.unplug\<close> removes the effect from the \<^verbatim>\<open>usedby\<close> of each of its
  bonuses, turns them off and clears the binding to the character. The loop of
  \<^verbatim>\<open>Effect.unplug\<close> reads \<^verbatim>\<open>char.bonuses[name]\<close> where \<^verbatim>\<open>plug\<close> and \<^verbatim>\<open>toggle\<close> read
  \<^verbatim>\<open>self.char.bonuses[name]\<close> or the parameter \<^verbatim>\<open>char\<close>: for the plugged effect \<^verbatim>\<open>e\<close> with the
  bonus \<^verbatim>\<open>b\<close> it raises NameError and changes nothing, so \<^verbatim>\<open>e\<close> is still in the \<^verbatim>\<open>usedby\<close> of \<^verbatim>\<open>b\<close>
  and still bound to the character.
\<close>

theorem effect_unplug_raises:
  "Effect_unplug armor_effect ''e'' = Raised NameError armor_effect
   \<and> map_option b_usedby (bonuses armor_effect ''b'') = Some [''e'']
   \<and> map_option (\<lambda>e. (e_char e, e_bonuses e)) (effects armor_effect ''e'') = Some (True, [''b''])"
  by (simp add: armor_effect_eq Effect_unplug_def)

section \<open>Stat.calc in general\<close>

subsection \<open>Updates of one stat\<close>

lemma upd_stat_fields:
  "stats (upd_stat c x f) = stats c"
  "bonuses (upd_stat c x f) = bonuses c"
  "effects (upd_stat c x f) = effects c"
  "BONUS_TYPES (upd_stat c x f) = BONUS_TYPES c"
  "BONUS_PERM (upd_stat c x f) = BONUS_PERM c"
  "stacks (upd_stat c x f) = stacks c"
  "stat_objs (upd_stat c x f) y = (if y = x then map_option f (stat_objs c x) else stat_objs c y)"
  by (simp_all add: upd_stat_def)

lemma upd_stat_twice: "upd_stat (upd_stat c x f) x g = upd_stat c x (\<lambda>s. g (f s))"
  by (simp add: upd_stat_def option.map_comp comp_def)

lemma upd_stat_same:
  assumes "stat_objs c x = Some s" and "f s = s"
  shows "upd_stat c x f = c"
proof -
  have "(stat_objs c)(x := Some s) = stat_objs c"
    using assms(1) by (simp add: fun_eq_iff)
  then show ?thesis
    using assms by (simp add: upd_stat_def)
qed

lemma char_stat_upd:
  "char_stat (upd_stat c x f) y = (if y = x then map_option f (char_stat c x) else char_stat c y)"
  by (simp add: char_stat_def upd_stat_fields)

subsection \<open>States that differ in some fields of the stats\<close>

lemma same_up_to_refl: "same_up_to erase c c"
  by (simp add: same_up_to_def)

lemma same_up_to_trans:
  assumes "same_up_to erase c c1" and "same_up_to erase c1 c2"
  shows "same_up_to erase c c2"
proof -
  have "c2\<lparr>stat_objs := stat_objs c\<rparr> = (c2\<lparr>stat_objs := stat_objs c1\<rparr>)\<lparr>stat_objs := stat_objs c\<rparr>"
    by simp
  also have "\<dots> = c"
    using assms by (simp add: same_up_to_def)
  finally show ?thesis
    using assms by (simp add: same_up_to_def)
qed

lemma same_up_to_fields:
  assumes "same_up_to erase c c'"
  shows "stats c' = stats c" and "bonuses c' = bonuses c" and "effects c' = effects c"
    and "BONUS_TYPES c' = BONUS_TYPES c" and "BONUS_PERM c' = BONUS_PERM c"
    and "stacks c' = stacks c"
proof -
  have eq: "c'\<lparr>stat_objs := stat_objs c\<rparr> = c"
    using assms by (simp add: same_up_to_def)
  show "stats c' = stats c"
    using arg_cong [OF eq, of stats] by simp
  show "bonuses c' = bonuses c"
    using arg_cong [OF eq, of bonuses] by simp
  show "effects c' = effects c"
    using arg_cong [OF eq, of effects] by simp
  show "BONUS_TYPES c' = BONUS_TYPES c"
    using arg_cong [OF eq, of BONUS_TYPES] by simp
  show "BONUS_PERM c' = BONUS_PERM c"
    using arg_cong [OF eq, of BONUS_PERM] by simp
  show "stacks c' = stacks c"
    using arg_cong [OF eq, of stacks] by simp
qed

lemma same_up_to_obj:
  assumes "same_up_to erase c c'"
  shows "map_option erase (stat_objs c' y) = map_option erase (stat_objs c y)"
  using assms by (simp add: same_up_to_def)

lemma same_up_to_upd:
  assumes "\<And>s. erase (f s) = erase s"
  shows "same_up_to erase c (upd_stat c x f)"
  using assms by (simp add: same_up_to_def upd_stat_def option.map_comp comp_def)

lemma same_up_to_eq:
  assumes "same_up_to erase c c'" and "\<And>y. stat_objs c' y = stat_objs c y"
  shows "c' = c"
proof -
  have "stat_objs c' = stat_objs c"
    using assms(2) by (simp add: fun_eq_iff)
  moreover have "c'\<lparr>stat_objs := stat_objs c\<rparr> = c"
    using assms(1) by (simp add: same_up_to_def)
  ultimately show ?thesis
    by (metis character.surjective character.update_convs(1))
qed

lemma no_values_simps:
  "no_values (s\<lparr>s_normal := n\<rparr>) = no_values s"
  "no_values (s\<lparr>s_value := v\<rparr>) = no_values s"
  by (simp_all add: no_values_def)

lemma no_values_usedby:
  assumes "map_option no_values (stat_objs c' y) = map_option no_values (stat_objs c y)"
  shows "map_option s_usedby (stat_objs c' y) = map_option s_usedby (stat_objs c y)"
proof -
  have "map_option s_usedby (stat_objs d y) = map_option (\<lambda>s. s_usedby s) (map_option no_values (stat_objs d y))"
    for d
    by (cases "stat_objs d y") (simp_all add: no_values_def)
  from this [of c'] this [of c] show ?thesis
    by (simp only: assms)
qed

subsection \<open>The loop over the bonuses\<close>

lemma max_list_Max: "vs \<noteq> [] \<Longrightarrow> max_list vs = Max (set vs)"
  by (induction vs rule: max_list.induct) simp_all

lemma py_add_int: "py_add v (PInt k) = Inr v' \<Longrightarrow> v' = plus_int v k"
  by (cases v) (auto simp add: py_add_def num_op_def to_float_def split: if_splits)

lemma plus_int_zero: "plus_int v 0 = v"
  by (cases v) simp_all

lemma plus_int_plus: "plus_int (plus_int v a) b = plus_int v (a + b)"
  by (cases v) simp_all

lemma active_values_upd: "active_values (upd_stat c x f) names = active_values c names"
  by (simp add: active_values_def upd_stat_fields)

lemma contribution_upd: "contribution (upd_stat c x f) p = contribution c p"
  by (simp add: contribution_def active_values_upd upd_stat_fields Let_def)

lemma total_bonus_upd: "total_bonus (upd_stat c x f) ps = total_bonus c ps"
  by (simp add: total_bonus_def contribution_upd)

lemma total_bonus_Cons: "total_bonus c (p # ps) = contribution c p + total_bonus c ps"
  by (simp add: total_bonus_def)

lemma total_bonus_cong:
  assumes "bonuses d = bonuses c" and "stacks d = stacks c"
  shows "total_bonus d ps = total_bonus c ps"
proof -
  have "active_values d names = active_values c names" for names
    by (simp add: active_values_def assms(1))
  then have "contribution d p = contribution c p" for p
    by (simp add: contribution_def assms(2) Let_def cong: if_cong)
  then show ?thesis
    by (simp add: total_bonus_def)
qed

lemma fold_bonuses_eq:
  assumes "fold_bonuses c x v bs = Done c'" and "stat_objs c x = Some s" and "s_value s = v"
  shows "c' = upd_stat c x (\<lambda>s. s\<lparr>s_value := plus_int v (total_bonus c bs)\<rparr>)"
  using assms
proof (induction bs arbitrary: c v s)
  case Nil
  then show ?case
    by (simp add: total_bonus_def plus_int_zero upd_stat_same)
next
  case (Cons p bs)
  obtain ty names where p: "p = (ty, names)"
    by (cases p)
  show ?case
  proof (cases "active_values c names = []")
    case True
    then have "fold_bonuses c x v bs = Done c'"
      using Cons.prems(1) p by simp
    from Cons.IH [OF this Cons.prems(2) Cons.prems(3)] True p show ?thesis
      by (simp add: total_bonus_Cons contribution_def)
  next
    case False
    let ?k = "if stacks c ty then sum_list (active_values c names)
              else max_list (active_values c names)"
    have k: "?k = contribution c p"
      using False p by (simp add: contribution_def max_list_Max)
    obtain v' where v': "py_add v (PInt ?k) = Inr v'"
      and rest: "fold_bonuses (upd_stat c x (\<lambda>s. s\<lparr>s_value := v'\<rparr>)) x v' bs = Done c'"
      using Cons.prems(1) False p by (simp add: Let_def split: sum.splits)
    have v'_eq: "v' = plus_int v (contribution c p)"
      using py_add_int [OF v'] k by simp
    have obj: "stat_objs (upd_stat c x (\<lambda>s. s\<lparr>s_value := v'\<rparr>)) x = Some (s\<lparr>s_value := v'\<rparr>)"
      using Cons.prems(2) by (simp add: upd_stat_fields)
    have "c' = upd_stat (upd_stat c x (\<lambda>s. s\<lparr>s_value := v'\<rparr>)) x
                 (\<lambda>s. s\<lparr>s_value := plus_int v' (total_bonus (upd_stat c x (\<lambda>s. s\<lparr>s_value := v'\<rparr>)) bs)\<rparr>)"
      by (rule Cons.IH [OF rest obj]) simp
    then show ?thesis
      by (simp add: upd_stat_twice total_bonus_upd total_bonus_Cons v'_eq plus_int_plus)
  qed
qed

text \<open>
  Whether the loop over the bonuses raises depends on the value it starts from and on the
  bonuses, not on the stats.
\<close>

lemma fold_bonuses_raised:
  assumes "bonuses d = bonuses c" and "stacks d = stacks c"
  shows "raised (fold_bonuses d x v bs) = raised (fold_bonuses c y v bs)"
  using assms
proof (induction bs arbitrary: c d v)
  case Nil
  then show ?case
    by simp
next
  case (Cons p bs)
  obtain ty names where p: "p = (ty, names)"
    by (cases p)
  have av: "active_values d names = active_values c names"
    using Cons.prems by (simp add: active_values_def)
  show ?case
  proof (cases "active_values c names = []")
    case True
    then show ?thesis
      using Cons.IH [OF Cons.prems] p av by simp
  next
    case False
    show ?thesis
    proof (cases "py_add v (PInt (if stacks c ty then sum_list (active_values c names)
                                  else max_list (active_values c names)))")
      case (Inl e)
      then show ?thesis
        using False p av Cons.prems by simp
    next
      case (Inr v')
      have "raised (fold_bonuses (upd_stat d x (\<lambda>s. s\<lparr>s_value := v'\<rparr>)) x v' bs)
            = raised (fold_bonuses (upd_stat c y (\<lambda>s. s\<lparr>s_value := v'\<rparr>)) y v' bs)"
        by (rule Cons.IH) (simp_all add: upd_stat_fields Cons.prems)
      then show ?thesis
        using False p av Cons.prems Inr by simp
    qed
  qed
qed

subsection \<open>The stat's own part of calc\<close>

lemma calc_own_eq:
  assumes "calc_own c x st = Done c'" and "stat_objs c x = Some st"
  shows "\<exists>n v. py_eval (stat_env c x) (replace (s_formula st) ''.value'' ''.normal'') = Inr n
           \<and> py_eval (stat_env (upd_stat c x (\<lambda>s. s\<lparr>s_normal := n\<rparr>)) x) (s_formula st) = Inr v
           \<and> raised (fold_bonuses c x v (s_bonuses st)) = None
           \<and> c' = upd_stat c x
                    (\<lambda>s. s\<lparr>s_normal := n, s_value := plus_int v (total_bonus c (s_bonuses st))\<rparr>)"
proof -
  obtain n where n: "py_eval (stat_env c x) (replace (s_formula st) ''.value'' ''.normal'') = Inr n"
    using assms(1) by (cases "py_eval (stat_env c x) (replace (s_formula st) ''.value'' ''.normal'')")
      (simp_all add: calc_own_def)
  let ?c1 = "upd_stat c x (\<lambda>s. s\<lparr>s_normal := n\<rparr>)"
  obtain v where v: "py_eval (stat_env ?c1 x) (s_formula st) = Inr v"
    using assms(1) n by (cases "py_eval (stat_env ?c1 x) (s_formula st)")
      (simp_all add: calc_own_def)
  let ?c2 = "upd_stat ?c1 x (\<lambda>s. s\<lparr>s_value := v\<rparr>)"
  have fold: "fold_bonuses ?c2 x v (s_bonuses st) = Done c'"
    using assms(1) n v by (simp add: calc_own_def)
  have obj: "stat_objs ?c2 x = Some (st\<lparr>s_normal := n, s_value := v\<rparr>)"
    using assms(2) by (simp add: upd_stat_fields)
  have "c' = upd_stat ?c2 x (\<lambda>s. s\<lparr>s_value := plus_int v (total_bonus ?c2 (s_bonuses st))\<rparr>)"
    by (rule fold_bonuses_eq [OF fold obj]) simp
  then have "c' = upd_stat c x
                    (\<lambda>s. s\<lparr>s_normal := n, s_value := plus_int v (total_bonus c (s_bonuses st))\<rparr>)"
    by (simp add: upd_stat_twice total_bonus_upd)
  moreover have "raised (fold_bonuses c x v (s_bonuses st)) = None"
    using fold_bonuses_raised [of c ?c2 x v "s_bonuses st" x] fold by (simp add: upd_stat_fields)
  ultimately show ?thesis
    using n v by blast
qed

text \<open>The converse: when the two evaluations and the loop succeed, so does the stat's own part.\<close>

lemma calc_own_Done:
  assumes "stat_objs c x = Some st"
    and "py_eval (stat_env c x) (replace (s_formula st) ''.value'' ''.normal'') = Inr n"
    and "py_eval (stat_env (upd_stat c x (\<lambda>s. s\<lparr>s_normal := n\<rparr>)) x) (s_formula st) = Inr v"
    and "raised (fold_bonuses d y v (s_bonuses st)) = None"
    and "bonuses d = bonuses c" and "stacks d = stacks c"
  shows "calc_own c x st = Done (upd_stat c x
           (\<lambda>s. s\<lparr>s_normal := n, s_value := plus_int v (total_bonus c (s_bonuses st))\<rparr>))"
proof -
  let ?c2 = "upd_stat (upd_stat c x (\<lambda>s. s\<lparr>s_normal := n\<rparr>)) x (\<lambda>s. s\<lparr>s_value := v\<rparr>)"
  have "raised (fold_bonuses ?c2 x v (s_bonuses st)) = None"
    using fold_bonuses_raised [of ?c2 d x v "s_bonuses st" y] assms(4,5,6)
    by (simp add: upd_stat_fields)
  then obtain c' where fold: "fold_bonuses ?c2 x v (s_bonuses st) = Done c'"
    by (cases "fold_bonuses ?c2 x v (s_bonuses st)") simp_all
  have obj: "stat_objs ?c2 x = Some (st\<lparr>s_normal := n, s_value := v\<rparr>)"
    using assms(1) by (simp add: upd_stat_fields)
  have "c' = upd_stat ?c2 x (\<lambda>s. s\<lparr>s_value := plus_int v (total_bonus ?c2 (s_bonuses st))\<rparr>)"
    by (rule fold_bonuses_eq [OF fold obj]) simp
  then have "c' = upd_stat c x
                    (\<lambda>s. s\<lparr>s_normal := n, s_value := plus_int v (total_bonus c (s_bonuses st))\<rparr>)"
    by (simp add: upd_stat_twice total_bonus_upd)
  then show ?thesis
    using assms(2,3) fold by (simp add: calc_own_def)
qed

lemma calc_own_frame: "same_up_to no_values c (state_of (calc_own c x st))"
proof -
  have fold: "same_up_to no_values d (state_of (fold_bonuses d x v bs))" for d v bs
  proof (induction bs arbitrary: d v)
    case Nil
    show ?case
      by (simp add: same_up_to_refl)
  next
    case (Cons p bs)
    obtain ty names where p: "p = (ty, names)"
      by (cases p)
    have step: "same_up_to no_values d (state_of (fold_bonuses (upd_stat d x (\<lambda>s. s\<lparr>s_value := w\<rparr>)) x w bs))"
      for w
      by (rule same_up_to_trans [OF same_up_to_upd Cons.IH]) (simp add: no_values_simps)
    show ?case
      using Cons.IH [of d v] step p
      by (simp add: Let_def same_up_to_refl split: sum.splits)
  qed
  have n: "same_up_to no_values c (upd_stat c x (\<lambda>s. s\<lparr>s_normal := n\<rparr>))" for n
    by (rule same_up_to_upd) (simp add: no_values_simps)
  have v: "same_up_to no_values c (upd_stat (upd_stat c x (\<lambda>s. s\<lparr>s_normal := n\<rparr>)) x (\<lambda>s. s\<lparr>s_value := v\<rparr>))"
    for n v
    by (rule same_up_to_trans [OF n same_up_to_upd]) (simp add: no_values_simps)
  show ?thesis
    using n same_up_to_trans [OF v fold]
    by (simp add: calc_own_def Let_def same_up_to_refl split: sum.splits)
qed

lemma calc_own_others:
  assumes "y \<noteq> x"
  shows "stat_objs (state_of (calc_own c x st)) y = stat_objs c y"
proof -
  have fold: "stat_objs (state_of (fold_bonuses d x v bs)) y = stat_objs d y" for d v bs
  proof (induction bs arbitrary: d v)
    case Nil
    show ?case
      by simp
  next
    case (Cons p bs)
    obtain ty names where p: "p = (ty, names)"
      by (cases p)
    show ?case
      using Cons.IH assms p by (simp add: Let_def upd_stat_fields split: sum.splits)
  qed
  show ?thesis
    using assms by (simp add: calc_own_def Let_def fold upd_stat_fields split: sum.splits)
qed

subsection \<open>The dependants\<close>

lemma for_stats_values_only:
  assumes "\<And>d w. same_up_to no_values d (state_of (rec d w))"
  shows "same_up_to no_values d (state_of (for_stats rec d ws))"
proof (induction ws arbitrary: d)
  case Nil
  show ?case
    by (simp add: same_up_to_refl)
next
  case (Cons w ws)
  show ?case
  proof (cases "rec d w")
    case (Done d')
    have "same_up_to no_values d d'"
      using assms [of d w] Done by simp
    from same_up_to_trans [OF this Cons.IH [of d']] show ?thesis
      using Done by (simp add: same_up_to_refl)
  next
    case (Raised e d')
    then show ?thesis
      using assms [of d w] by (simp add: same_up_to_refl)
  qed
qed

text \<open>\<^verbatim>\<open>calc\<close> assigns nothing but \<^verbatim>\<open>normal\<close> and \<^verbatim>\<open>value\<close>.\<close>

lemma calc_values_only: "same_up_to no_values c (state_of (calc n c x))"
proof (induction n arbitrary: c x)
  case 0
  show ?case
    by (simp add: same_up_to_refl)
next
  case (Suc n)
  note loop = for_stats_values_only [of "calc n", OF Suc.IH]
  show ?case
  proof (cases "stat_objs c x")
    case None
    then show ?thesis
      by (simp add: calc_step_def same_up_to_refl)
  next
    case (Some st)
    note own = calc_own_frame [of c x st]
    show ?thesis
    proof (cases "calc_own c x st")
      case (Raised e c1)
      then show ?thesis
        using Some own by (simp add: calc_step_def same_up_to_refl)
    next
      case (Done c1)
      have fr: "same_up_to no_values c c1"
        using own Done by simp
      show ?thesis
        using Some Done fr same_up_to_trans [OF fr loop]
        by (simp add: calc_step_def same_up_to_refl split: option.splits)
    qed
  qed
qed

text \<open>A stat without dependants: \<^verbatim>\<open>calc\<close> is the stat's own part.\<close>

lemma calc_leaf:
  assumes "stat_objs c x = Some st" and "s_usedby st = []" and "s_char st"
  shows "calc (Suc k) c x = calc_own c x st"
proof (cases "calc_own c x st")
  case (Raised e c1)
  then show ?thesis
    using assms by (simp add: calc_step_def)
next
  case (Done c1)
  have "map_option s_usedby (stat_objs c1 x) = Some []"
    using no_values_usedby [OF same_up_to_obj [OF calc_own_frame [of c x st]], of x] Done assms
    by simp
  then obtain st' where "stat_objs c1 x = Some st'" and "s_usedby st' = []"
    by auto
  then show ?thesis
    using assms Done by (simp add: calc_step_def)
qed


lemma ranked_frame:
  assumes "same_up_to no_values c c'"
  shows "ranked rank c' names = ranked rank c names"
proof -
  have "(case stat_objs c' y of None \<Rightarrow> True | Some st \<Rightarrow> \<forall>z\<in>set (s_usedby st). rank y < rank z)
        = (case stat_objs c y of None \<Rightarrow> True | Some st \<Rightarrow> \<forall>z\<in>set (s_usedby st). rank y < rank z)"
    for y
    using no_values_usedby [OF same_up_to_obj [OF assms], of y]
    by (cases "stat_objs c' y"; cases "stat_objs c y") simp_all
  then show ?thesis
    by (simp add: ranked_def)
qed

text \<open>
  \<^verbatim>\<open>calc\<close> on a stat assigns only \<^verbatim>\<open>normal\<close> and \<^verbatim>\<open>value\<close>, and only to that stat and to stats of
  a higher rank.
\<close>

lemma calc_frame:
  assumes "ranked rank c (x # stats c)"
  shows "same_up_to no_values c (state_of (calc n c x))
         \<and> (\<forall>z. z \<noteq> x \<and> \<not> rank x < rank z \<longrightarrow> stat_objs (state_of (calc n c x)) z = stat_objs c z)"
  using assms
proof (induction n arbitrary: c x)
  case 0
  show ?case
    by (simp add: same_up_to_refl)
next
  case (Suc n)
  have loop: "ranked rank d (stats d) \<Longrightarrow> \<forall>w\<in>set ws. rank x < rank w \<Longrightarrow>
      same_up_to no_values d (state_of (for_stats (calc n) d ws))
      \<and> (\<forall>z. \<not> rank x < rank z \<longrightarrow> stat_objs (state_of (for_stats (calc n) d ws)) z = stat_objs d z)"
    for d ws
  proof (induction ws arbitrary: d)
    case Nil
    show ?case
      by (simp add: same_up_to_refl)
  next
    case (Cons w ws)
    show ?case
    proof (cases "w \<in> set (stats d)")
      case False
      then show ?thesis
        by (simp add: same_up_to_refl)
    next
      case True
      have rw: "ranked rank d (w # stats d)"
        using Cons.prems(1) True by (simp add: ranked_def)
      note one = Suc.IH [OF rw]
      show ?thesis
      proof (cases "calc n d w")
        case (Raised e d')
        then show ?thesis
          using one True Cons.prems(2) by auto
      next
        case (Done d')
        have fr: "same_up_to no_values d d'"
          using one Done by simp
        have "ranked rank d' (stats d')"
          using Cons.prems(1) ranked_frame [OF fr] same_up_to_fields(1) [OF fr] by simp
        then have rest: "same_up_to no_values d' (state_of (for_stats (calc n) d' ws))
            \<and> (\<forall>z. \<not> rank x < rank z \<longrightarrow>
                  stat_objs (state_of (for_stats (calc n) d' ws)) z = stat_objs d' z)"
          using Cons.IH Cons.prems(2) by simp
        have low: "stat_objs d' z = stat_objs d z" if "\<not> rank x < rank z" for z
        proof -
          have "rank x < rank w"
            using Cons.prems(2) by simp
          then have "z \<noteq> w \<and> \<not> rank w < rank z"
            using that by auto
          then show ?thesis
            using one Done by simp
        qed
        show ?thesis
          using rest low same_up_to_trans [OF fr] True Done by simp
      qed
    qed
  qed
  show ?case
  proof (cases "stat_objs c x")
    case None
    then show ?thesis
      by (simp add: calc_step_def same_up_to_refl)
  next
    case (Some st)
    show ?thesis
    proof (cases "s_char st")
      case False
      then show ?thesis
        using Some by (simp add: calc_step_def same_up_to_refl)
    next
      case True
      note own = calc_own_frame [of c x st]
      show ?thesis
      proof (cases "calc_own c x st")
        case (Raised e c1)
        then show ?thesis
          using Some True own calc_own_others [of _ x c st] by (auto simp add: calc_step_def)
      next
        case (Done c1)
        have fr: "same_up_to no_values c c1"
          using own Done by simp
        have others: "stat_objs c1 z = stat_objs c z" if "z \<noteq> x" for z
          using calc_own_others [OF that, of c st] Done by simp
        show ?thesis
        proof (cases "stat_objs c1 x")
          case None
          then show ?thesis
            using Some True Done fr others by (simp add: calc_step_def)
        next
          case st': (Some st')
          have ub: "s_usedby st' = s_usedby st"
            using no_values_usedby [OF same_up_to_obj [OF fr], of x] Some st' by simp
          have up: "\<forall>w\<in>set (s_usedby st'). rank x < rank w"
            using Suc.prems Some ub by (simp add: ranked_def)
          have "ranked rank c (stats c)"
            using Suc.prems by (simp add: ranked_def)
          then have "ranked rank c1 (stats c1)"
            using ranked_frame [OF fr] same_up_to_fields(1) [OF fr] by simp
          note rest = loop [OF this up]
          have "same_up_to no_values c (state_of (for_stats (calc n) c1 (s_usedby st')))"
            using same_up_to_trans [OF fr] rest by simp
          moreover have "stat_objs (state_of (for_stats (calc n) c1 (s_usedby st'))) z = stat_objs c z"
            if "z \<noteq> x" "\<not> rank x < rank z" for z
            using rest others that by simp
          ultimately show ?thesis
            using Some True Done st' fr others by (simp add: calc_step_def)
        qed
      qed
    qed
  qed
qed

text \<open>What \<^verbatim>\<open>calc\<close> leaves in the stat it was called on, when it returns.\<close>

lemma calc_result:
  assumes "calc n c x = Done c'" and "ranked rank c (x # stats c)"
  shows "\<exists>m st c1. n = Suc m \<and> stat_objs c x = Some st \<and> s_char st
           \<and> calc_own c x st = Done c1 \<and> stat_objs c' x = stat_objs c1 x
           \<and> same_up_to no_values c c'
           \<and> (\<forall>z. z \<noteq> x \<and> \<not> rank x < rank z \<longrightarrow> stat_objs c' z = stat_objs c z)"
proof -
  obtain m where m: "n = Suc m"
    using assms(1) by (cases n) simp_all
  obtain st where st: "stat_objs c x = Some st"
    using assms(1) m by (cases "stat_objs c x") (simp_all add: calc_step_def)
  have char: "s_char st"
    using assms(1) m st by (cases "s_char st") (simp_all add: calc_step_def)
  obtain c1 where c1: "calc_own c x st = Done c1"
    using assms(1) m st char by (cases "calc_own c x st") (simp_all add: calc_step_def)
  have fr: "same_up_to no_values c c1"
    using calc_own_frame [of c x st] c1 by simp
  obtain st' where st': "stat_objs c1 x = Some st'"
    using assms(1) m st char c1 by (cases "stat_objs c1 x") (simp_all add: calc_step_def)
  have ub: "s_usedby st' = s_usedby st"
    using no_values_usedby [OF same_up_to_obj [OF fr], of x] st st' by simp
  have frame: "same_up_to no_values c c'
      \<and> (\<forall>z. z \<noteq> x \<and> \<not> rank x < rank z \<longrightarrow> stat_objs c' z = stat_objs c z)"
    using calc_frame [OF assms(2), of n] assms(1) by simp
  have "stat_objs c' x = stat_objs c1 x"
  proof (cases "\<not> py_eq (s_value st) (s_value st') \<or> \<not> py_eq (s_normal st) (s_normal st')")
    case False
    then show ?thesis
      using assms(1) m st char c1 st' by (simp add: calc_step_def)
  next
    case True
    then have run: "for_stats (calc m) c1 (s_usedby st') = Done c'"
      using assms(1) m st char c1 st' by (simp add: calc_step_def)
    have "stat_objs (state_of (for_stats (calc m) c1 ws)) x = stat_objs c1 x"
      if "ranked rank d (stats d)" "\<forall>w\<in>set ws. rank x < rank w" "d = c1" for d ws
      using that
    proof (induction ws arbitrary: d c1)
      case Nil
      show ?case
        by simp
    next
      case (Cons w ws)
      show ?case
      proof (cases "w \<in> set (stats c1)")
        case False
        then show ?thesis
          by simp
      next
        case True
        have rw: "ranked rank c1 (w # stats c1)"
          using Cons.prems True by (simp add: ranked_def)
        note one = calc_frame [OF rw, of m]
        have xw: "x \<noteq> w \<and> \<not> rank w < rank x"
          using Cons.prems(2) by auto
        show ?thesis
        proof (cases "calc m c1 w")
          case (Raised e d')
          then show ?thesis
            using one True xw by auto
        next
          case (Done d')
          have fr': "same_up_to no_values c1 d'"
            using one Done by simp
          have "ranked rank d' (stats d')"
            using Cons.prems ranked_frame [OF fr'] same_up_to_fields(1) [OF fr'] by simp
          from Cons.IH [OF this _ refl] Cons.prems(2)
          have "stat_objs (state_of (for_stats (calc m) d' ws)) x = stat_objs d' x"
            by simp
          then show ?thesis
            using one Done True xw by simp
        qed
      qed
    qed
    moreover have "ranked rank c1 (stats c1)"
      using assms(2) ranked_frame [OF fr] same_up_to_fields(1) [OF fr] by (simp add: ranked_def)
    moreover have "\<forall>w\<in>set (s_usedby st'). rank x < rank w"
      using assms(2) st ub by (simp add: ranked_def)
    ultimately show ?thesis
      using run by (metis state_of.simps(1))
  qed
  with m st char c1 frame show ?thesis
    by blast
qed

section \<open>Stat.plug and Stat.unplug in general\<close>

subsection \<open>States that agree outside one stat\<close>

lemma agree_off_refl: "agree_off x c c"
  by (simp add: agree_off_def)

lemma agree_off_sym: "agree_off x c d \<Longrightarrow> agree_off x d c"
  by (simp add: agree_off_def)

lemma agree_off_trans: "agree_off x c d \<Longrightarrow> agree_off x d e \<Longrightarrow> agree_off x c e"
  by (simp add: agree_off_def)

lemma agree_off_upd: "agree_off x c (upd_stat c x f)"
  by (simp add: agree_off_def upd_stat_fields)

lemma agree_off_upd_other:
  assumes "\<And>s. s_normal (f s) = s_normal s" and "\<And>s. s_value (f s) = s_value s"
  shows "agree_off x c (upd_stat c y f)"
  using assms by (simp add: agree_off_def upd_stat_fields option.map_comp comp_def)

lemma agree_off_register: "agree_off x c (register c z ys)"
proof (induction ys arbitrary: c)
  case Nil
  show ?case
    by (simp add: agree_off_refl)
next
  case (Cons y ys)
  have "agree_off x c (upd_stat c y (\<lambda>s. s\<lparr>s_usedby := set_add (s_usedby s) z, s_leaf := False\<rparr>))"
    by (rule agree_off_upd_other) simp_all
  from agree_off_trans [OF this Cons.IH] show ?case
    by simp
qed

lemma no_usedby_values:
  assumes "map_option no_usedby (stat_objs d y) = map_option no_usedby (stat_objs c y)"
  shows "map_option (\<lambda>s. (s_normal s, s_value s)) (stat_objs d y)
         = map_option (\<lambda>s. (s_normal s, s_value s)) (stat_objs c y)"
proof -
  have "map_option (\<lambda>s. (s_normal s, s_value s)) (stat_objs e y)
        = map_option (\<lambda>s. (s_normal s, s_value s)) (map_option no_usedby (stat_objs e y))"
    for e
    by (cases "stat_objs e y") (simp_all add: no_usedby_def)
  from this [of d] this [of c] show ?thesis
    by (simp only: assms)
qed

lemma agree_off_same_up_to:
  assumes "same_up_to no_usedby c d"
  shows "agree_off x c d"
  using same_up_to_fields [OF assms] no_usedby_values [OF same_up_to_obj [OF assms]]
  by (simp add: agree_off_def)

text \<open>
  A text that does not read the stat's own \<^verbatim>\<open>normal\<close> and \<^verbatim>\<open>value\<close> has the same value in two
  states that agree on the other stats, in \<^verbatim>\<open>calc\<close> and in \<^verbatim>\<open>plug\<close>.
\<close>

lemma eval_agree:
  assumes "ignores_self x f" and "agree_off x c d"
    and "stat_objs c x \<noteq> None" and "stat_objs d x \<noteq> None"
  shows "py_eval (stat_env d x) f = py_eval (stat_env c x) f"
    and "py_eval ((stat_env d x)\<lparr>env_char := True\<rparr>) f
         = py_eval ((stat_env c x)\<lparr>env_char := True\<rparr>) f"
proof -
  have others: "env_stats (stat_env d x) y = env_stats (stat_env c x) y" if "y \<noteq> x" for y
    using assms(2) that by (simp add: agree_off_def stat_env_def char_stat_def)
  have "env_char (stat_env d x) = env_char (stat_env c x)
        \<and> env_self (stat_env c x) \<noteq> None \<and> env_self (stat_env d x) \<noteq> None
        \<and> (\<forall>y. y \<noteq> x \<longrightarrow> env_stats (stat_env d x) y = env_stats (stat_env c x) y)"
    using assms(3,4) others by (simp add: stat_env_def)
  then show "py_eval (stat_env d x) f = py_eval (stat_env c x) f"
    using assms(1) unfolding ignores_self_def by blast
  have "env_char ((stat_env d x)\<lparr>env_char := True\<rparr>) = env_char ((stat_env c x)\<lparr>env_char := True\<rparr>)
        \<and> env_self ((stat_env c x)\<lparr>env_char := True\<rparr>) \<noteq> None
        \<and> env_self ((stat_env d x)\<lparr>env_char := True\<rparr>) \<noteq> None
        \<and> (\<forall>y. y \<noteq> x \<longrightarrow> env_stats ((stat_env d x)\<lparr>env_char := True\<rparr>) y
                          = env_stats ((stat_env c x)\<lparr>env_char := True\<rparr>) y)"
    using assms(3,4) others by (simp add: stat_env_def)
  then show "py_eval ((stat_env d x)\<lparr>env_char := True\<rparr>) f
      = py_eval ((stat_env c x)\<lparr>env_char := True\<rparr>) f"
    using assms(1) unfolding ignores_self_def by blast
qed

subsection \<open>The loops over the stats used\<close>

lemma set_add_twice: "set_add (set_add xs x) x = set_add xs x"
  by (simp add: set_add_def)

lemma set_add_not_Nil: "set_add xs x \<noteq> []"
  by (auto simp add: set_add_def)

lemma upd_stat_obj: "stat_objs c x = Some s \<Longrightarrow> stat_objs (upd_stat c x f) x = Some (f s)"
  by (simp add: upd_stat_fields)

lemma set_foldl_set_add: "set (foldl set_add xs ys) = set xs \<union> set ys"
  by (induction ys arbitrary: xs) (auto simp add: set_add_def)

lemma register_obj:
  "stat_objs (register c x ys) y =
     map_option
       (\<lambda>s. if y \<in> set ys then s\<lparr>s_usedby := set_add (s_usedby s) x, s_leaf := False\<rparr> else s)
       (stat_objs c y)"
proof (induction ys arbitrary: c)
  case Nil
  show ?case
    by (simp add: option.map_ident)
next
  case (Cons z ys)
  show ?case
    by (cases "stat_objs c y")
      (auto simp add: Cons.IH upd_stat_fields set_add_twice)
qed

text \<open>What the loop of \<^verbatim>\<open>unplug\<close> has done when it ends without a KeyError.\<close>

lemma unregister_Done:
  assumes "unregister c x ys = Done c'"
  shows "same_up_to no_usedby c c'
         \<and> (\<forall>y. y \<notin> set ys \<longrightarrow> stat_objs c' y = stat_objs c y)
         \<and> (\<forall>y\<in>set ys. \<exists>sy sy'. stat_objs c y = Some sy \<and> x \<in> set (s_usedby sy)
               \<and> stat_objs c' y = Some sy' \<and> x \<notin> set (s_usedby sy')
               \<and> (s_usedby sy' = [] \<longrightarrow> s_leaf sy'))"
  using assms
proof (induction ys arbitrary: c)
  case Nil
  then show ?case
    by (simp add: same_up_to_refl)
next
  case (Cons z ys)
  let ?h = "\<lambda>s. s\<lparr>s_usedby := removeAll x (s_usedby s),
                  s_leaf := (if removeAll x (s_usedby s) = [] then True else s_leaf s)\<rparr>"
  let ?c0 = "upd_stat c z ?h"
  obtain sz where sz: "char_stat c z = Some sz"
    using Cons.prems by (cases "char_stat c z") simp_all
  have objz: "stat_objs c z = Some sz"
    using sz by (simp add: char_stat_def split: if_splits)
  have inz: "x \<in> set (s_usedby sz)"
    using Cons.prems sz by (cases "x \<in> set (s_usedby sz)") simp_all
  have rest: "unregister ?c0 x ys = Done c'"
    using Cons.prems sz inz by simp
  note IH = Cons.IH [OF rest]
  have step: "same_up_to no_usedby c ?c0"
    by (rule same_up_to_upd) (simp add: no_usedby_def)
  have frame: "same_up_to no_usedby c c'"
    using same_up_to_trans [OF step] IH by blast
  have objz0: "stat_objs ?c0 z = Some (?h sz)"
    using objz by (simp add: upd_stat_fields)
  have out: "stat_objs c' y = stat_objs c y" if "y \<notin> set (z # ys)" for y
    using IH that by (simp add: upd_stat_fields)
  have inside: "\<exists>sy sy'. stat_objs c y = Some sy \<and> x \<in> set (s_usedby sy)
      \<and> stat_objs c' y = Some sy' \<and> x \<notin> set (s_usedby sy')
      \<and> (s_usedby sy' = [] \<longrightarrow> s_leaf sy')" if "y \<in> set (z # ys)" for y
  proof (cases "y \<in> set ys")
    case True
    then obtain sy0 sy' where a: "stat_objs ?c0 y = Some sy0" and b: "x \<in> set (s_usedby sy0)"
      and c: "stat_objs c' y = Some sy' \<and> x \<notin> set (s_usedby sy')
        \<and> (s_usedby sy' = [] \<longrightarrow> s_leaf sy')"
      using IH by blast
    have "y \<noteq> z"
    proof
      assume "y = z"
      then have "sy0 = ?h sz"
        using a objz0 by simp
      then show False
        using b by simp
    qed
    then have "stat_objs c y = Some sy0"
      using a by (simp add: upd_stat_fields)
    then show ?thesis
      using b c by blast
  next
    case False
    then have yz: "y = z"
      using that by simp
    have "stat_objs c' z = stat_objs ?c0 z"
      using IH False yz by blast
    then have "stat_objs c' z = Some (?h sz)"
      using objz0 by simp
    moreover have "x \<notin> set (s_usedby (?h sz))"
      by simp
    moreover have "s_usedby (?h sz) = [] \<longrightarrow> s_leaf (?h sz)"
      by simp
    ultimately show ?thesis
      using objz inz yz by blast
  qed
  show ?case
    using frame out inside by blast
qed

subsection \<open>plug and unplug, unfolded\<close>

lemma plug_eq:
  assumes "stat_objs c x = Some st"
  shows "plug n c x =
     (case py_eval
            ((stat_env
                (upd_stat c x
                   (\<lambda>s. s\<lparr>s_char := True,
                          s_uses := foldl set_add (s_uses s) (snd (subst_stats (s_formula st) (stats c))),
                          s_root := (if snd (subst_stats (s_formula st) (stats c)) = [] then s_root s
                                     else False)\<rparr>))
                x)\<lparr>env_char := True\<rparr>)
            (resolved c (s_formula st)) of
        Inl e \<Rightarrow>
          Raised (formula_error e (resolved c (s_formula st)))
            (upd_stat c x
               (\<lambda>s. s\<lparr>s_char := True,
                      s_uses := foldl set_add (s_uses s) (snd (subst_stats (s_formula st) (stats c))),
                      s_root := (if snd (subst_stats (s_formula st) (stats c)) = [] then s_root s
                                 else False)\<rparr>))
      | Inr v \<Rightarrow>
          calc n
            (upd_stat
               (register
                  (upd_stat c x
                     (\<lambda>s. s\<lparr>s_char := True,
                            s_uses := foldl set_add (s_uses s) (snd (subst_stats (s_formula st) (stats c))),
                            s_root := (if snd (subst_stats (s_formula st) (stats c)) = [] then s_root s
                                       else False)\<rparr>))
                  x (snd (subst_stats (s_formula st) (stats c))))
               x (\<lambda>s'. s'\<lparr>s_formula := resolved c (s_formula st)\<rparr>))
            x)"
proof (cases "subst_stats (s_formula st) (stats c)")
  case (Pair s0 used)
  have a: "snd (subst_stats (s_formula st) (stats c)) = used"
    using Pair by simp
  have b: "resolved c (s_formula st) = subst_attrs s0 stat_dir"
    using Pair by (simp add: resolved_def)
  show ?thesis
    unfolding a b using assms Pair by (simp add: plug_def Let_def del: subst_stats.simps)
qed

lemma unplug_Done:
  assumes "unplug m c x False False = Done c'" and "stat_objs c x = Some st"
  shows "s_char st \<and> s_usedby st = []
         \<and> (\<exists>c3. unregister (upd_stat c x (\<lambda>s. s\<lparr>s_usedby := [], s_formula := s_original s\<rparr>)) x
                    (s_uses st) = Done c3
               \<and> c' = upd_stat c3 x
                        (\<lambda>s. s\<lparr>s_uses := [], s_root := True, s_leaf := True, s_char := False\<rparr>))"
proof -
  obtain k where k: "m = Suc k"
    using assms(1) by (cases m) simp_all
  let ?c2 = "upd_stat c x (\<lambda>s. s\<lparr>s_usedby := [], s_formula := s_original s\<rparr>)"
  have char: "s_char st"
    using assms k by (cases "s_char st") (simp_all add: unplug_step_def)
  have ub: "s_usedby st = []"
    using assms k char by (cases "s_usedby st = []") (simp_all add: unplug_step_def)
  have obj2: "stat_objs ?c2 x = Some (st\<lparr>s_usedby := [], s_formula := s_original st\<rparr>)"
    using assms(2) by (simp add: upd_stat_fields)
  have run: "and_then (unregister ?c2 x (s_uses st))
               (\<lambda>c3. Done (upd_stat c3 x
                  (\<lambda>s. s\<lparr>s_uses := [], s_root := True, s_leaf := True, s_char := False\<rparr>))) = Done c'"
    using assms k char ub obj2 by (simp add: unplug_step_def Let_def)
  then obtain c3 where "unregister ?c2 x (s_uses st) = Done c3"
    and "c' = upd_stat c3 x (\<lambda>s. s\<lparr>s_uses := [], s_root := True, s_leaf := True, s_char := False\<rparr>)"
    by (cases "unregister ?c2 x (s_uses st)") auto
  then show ?thesis
    using char ub by blast
qed

subsection \<open>A plug and an unplug that returned\<close>

text \<open>
  A \<^verbatim>\<open>plug\<close> that returned and left the stat without dependants: the stat does not use itself,
  it had no dependants before, and \<^verbatim>\<open>calc\<close> was the stat's own part, with no call on a
  dependant.
\<close>

lemma plug_Done:
  fixes c :: character and x :: string and st :: stat
  defines "used \<equiv> snd (subst_stats (s_formula st) (stats c))"
  defines "G \<equiv> resolved c (s_formula st)"
  defines "cA \<equiv> upd_stat c x
             (\<lambda>s. s\<lparr>s_char := True, s_uses := foldl set_add (s_uses s) used,
                    s_root := (if used = [] then s_root s else False)\<rparr>)"
  defines "cB \<equiv> upd_stat (register cA x used) x (\<lambda>s'. s'\<lparr>s_formula := G\<rparr>)"
  assumes st: "stat_objs c x = Some st" and plug1: "plug n c x = Done c1"
    and st1: "stat_objs c1 x = Some st1" and ub1: "s_usedby st1 = []"
  shows "n \<noteq> 0 \<and> x \<notin> set used \<and> s_usedby st = []
         \<and> (\<exists>v nv v'.
              py_eval ((stat_env cA x)\<lparr>env_char := True\<rparr>) G = Inr v
              \<and> py_eval (stat_env cB x) (replace G ''.value'' ''.normal'') = Inr nv
              \<and> py_eval (stat_env (upd_stat cB x (\<lambda>s. s\<lparr>s_normal := nv\<rparr>)) x) G = Inr v'
              \<and> raised (fold_bonuses cB x v' (s_bonuses st)) = None
              \<and> c1 = upd_stat cB x
                       (\<lambda>s. s\<lparr>s_normal := nv,
                              s_value := plus_int v' (total_bonus cB (s_bonuses st))\<rparr>))"
proof -
  let ?b = "\<lambda>s. s\<lparr>s_char := True, s_uses := foldl set_add (s_uses s) used,
                  s_root := (if used = [] then s_root s else False)\<rparr>"
  let ?r = "\<lambda>s. if x \<in> set used then s\<lparr>s_usedby := set_add (s_usedby s) x, s_leaf := False\<rparr> else s"
  let ?stB = "(?r (?b st))\<lparr>s_formula := G\<rparr>"
  have run: "(case py_eval ((stat_env cA x)\<lparr>env_char := True\<rparr>) G of
                Inl e \<Rightarrow> Raised (formula_error e G) cA
              | Inr v \<Rightarrow> calc n cB x) = Done c1"
    unfolding cB_def cA_def G_def used_def using plug_eq [OF st, of n] plug1 by simp
  obtain v where v: "py_eval ((stat_env cA x)\<lparr>env_char := True\<rparr>) G = Inr v"
    using run by (cases "py_eval ((stat_env cA x)\<lparr>env_char := True\<rparr>) G") simp_all
  have calc1: "calc n cB x = Done c1"
    using run v by simp
  obtain k where k: "n = Suc k"
    using calc1 by (cases n) simp_all
  have objB: "stat_objs cB x = Some ?stB"
    using st by (simp add: cB_def cA_def upd_stat_fields register_obj)
  have "same_up_to no_values cB c1"
    using calc_values_only [of cB n x] calc1 by simp
  then have "map_option s_usedby (stat_objs c1 x) = map_option s_usedby (stat_objs cB x)"
    by (rule no_values_usedby [OF same_up_to_obj])
  then have ubB: "s_usedby ?stB = []"
    using st1 ub1 objB by simp
  have notin: "x \<notin> set used"
  proof
    assume "x \<in> set used"
    then have "s_usedby ?stB = set_add (s_usedby st) x"
      by simp
    then show False
      using ubB set_add_not_Nil [of "s_usedby st" x] by simp
  qed
  then have ub: "s_usedby st = []"
    using ubB by simp
  have charB: "s_char ?stB"
    by simp
  have own: "calc_own cB x ?stB = Done c1"
    using calc_leaf [OF objB ubB charB, of k] calc1 k by simp
  obtain nv v' where
    "py_eval (stat_env cB x) (replace (s_formula ?stB) ''.value'' ''.normal'') = Inr nv"
    and "py_eval (stat_env (upd_stat cB x (\<lambda>s. s\<lparr>s_normal := nv\<rparr>)) x) (s_formula ?stB) = Inr v'"
    and "raised (fold_bonuses cB x v' (s_bonuses ?stB)) = None"
    and "c1 = upd_stat cB x
               (\<lambda>s. s\<lparr>s_normal := nv, s_value := plus_int v' (total_bonus cB (s_bonuses ?stB))\<rparr>)"
    using calc_own_eq [OF own objB] by blast
  then have "py_eval (stat_env cB x) (replace G ''.value'' ''.normal'') = Inr nv
      \<and> py_eval (stat_env (upd_stat cB x (\<lambda>s. s\<lparr>s_normal := nv\<rparr>)) x) G = Inr v'
      \<and> raised (fold_bonuses cB x v' (s_bonuses st)) = None
      \<and> c1 = upd_stat cB x
               (\<lambda>s. s\<lparr>s_normal := nv, s_value := plus_int v' (total_bonus cB (s_bonuses st))\<rparr>)"
    using notin by simp
  then show ?thesis
    using notin ub v k by blast
qed

text \<open>The converse, for a stat that does not use itself and has no dependants.\<close>

lemma plug_leaf_Done:
  fixes c :: character and x :: string and st :: stat and used :: "string list" and G :: string
  defines "cA \<equiv> upd_stat c x
             (\<lambda>s. s\<lparr>s_char := True, s_uses := foldl set_add (s_uses s) used,
                    s_root := (if used = [] then s_root s else False)\<rparr>)"
  defines "cB \<equiv> upd_stat (register cA x used) x (\<lambda>s'. s'\<lparr>s_formula := G\<rparr>)"
  assumes st: "stat_objs c x = Some st"
    and used: "snd (subst_stats (s_formula st) (stats c)) = used"
    and G: "resolved c (s_formula st) = G"
    and notin: "x \<notin> set used" and ub: "s_usedby st = []"
    and v: "py_eval ((stat_env cA x)\<lparr>env_char := True\<rparr>) G = Inr v"
    and nv: "py_eval (stat_env cB x) (replace G ''.value'' ''.normal'') = Inr nv"
    and v': "py_eval (stat_env (upd_stat cB x (\<lambda>s. s\<lparr>s_normal := nv\<rparr>)) x) G = Inr v'"
    and fold: "raised (fold_bonuses d y v' (s_bonuses st)) = None"
    and bon: "bonuses d = bonuses c" and stk: "stacks d = stacks c"
  shows "\<exists>c1. plug (Suc k) c x = Done c1"
proof -
  let ?b = "\<lambda>s. s\<lparr>s_char := True, s_uses := foldl set_add (s_uses s) used,
                  s_root := (if used = [] then s_root s else False)\<rparr>"
  let ?stB = "(?b st)\<lparr>s_formula := G\<rparr>"
  have run: "plug (Suc k) c x = calc (Suc k) cB x"
    using v unfolding cB_def cA_def by (simp add: plug_eq [OF st, of "Suc k"] used G)
  have objB: "stat_objs cB x = Some ?stB"
    using st notin by (simp add: cB_def cA_def upd_stat_fields register_obj)
  have ubB: "s_usedby ?stB = []"
    using ub by simp
  have charB: "s_char ?stB"
    by simp
  have fields: "bonuses d = bonuses cB" "stacks d = stacks cB"
    using bon stk agree_off_register [of x cA x used]
    by (simp_all add: cB_def cA_def upd_stat_fields agree_off_def)
  have "calc_own cB x ?stB = Done (upd_stat cB x
          (\<lambda>s. s\<lparr>s_normal := nv, s_value := plus_int v' (total_bonus cB (s_bonuses ?stB))\<rparr>))"
    by (rule calc_own_Done [where d = d and y = y, OF objB _ _ _ fields])
      (simp_all add: nv v' fold)
  then show ?thesis
    using run calc_leaf [OF objB ubB charB, of k] by simp
qed

text \<open>What an \<^verbatim>\<open>unplug\<close> without \<^verbatim>\<open>force\<close> and \<^verbatim>\<open>recursive\<close> has done when it returns.\<close>

lemma unplug_result:
  assumes un: "unplug m c x False False = Done c'" and st: "stat_objs c x = Some st"
  shows "agree_off x c c'
         \<and> stat_objs c' x =
             Some (st\<lparr>s_usedby := [], s_formula := s_original st, s_uses := [], s_root := True,
                      s_leaf := True, s_char := False\<rparr>)
         \<and> (\<forall>y\<in>set (s_uses st). \<exists>sy. stat_objs c' y = Some sy
               \<and> x \<notin> set (s_usedby sy) \<and> (s_usedby sy = [] \<longrightarrow> s_leaf sy))"
proof -
  let ?c2 = "upd_stat c x (\<lambda>s. s\<lparr>s_usedby := [], s_formula := s_original s\<rparr>)"
  let ?f = "\<lambda>s. s\<lparr>s_uses := [], s_root := True, s_leaf := True, s_char := False\<rparr>"
  obtain c3 where loop: "unregister ?c2 x (s_uses st) = Done c3" and c': "c' = upd_stat c3 x ?f"
    using unplug_Done [OF un st] by blast
  have obj2: "stat_objs ?c2 x = Some (st\<lparr>s_usedby := [], s_formula := s_original st\<rparr>)"
    using st by (simp add: upd_stat_fields)
  note reg = unregister_Done [OF loop]
  have frame: "same_up_to no_usedby ?c2 c3"
    using reg by blast
  have inside: "\<exists>sy sy'. stat_objs ?c2 y = Some sy \<and> x \<in> set (s_usedby sy)
      \<and> stat_objs c3 y = Some sy' \<and> x \<notin> set (s_usedby sy')
      \<and> (s_usedby sy' = [] \<longrightarrow> s_leaf sy')" if "y \<in> set (s_uses st)" for y
    using reg that by blast
  have notin: "x \<notin> set (s_uses st)"
  proof
    assume "x \<in> set (s_uses st)"
    from inside [OF this] obj2 show False
      by auto
  qed
  then have "stat_objs c3 x = stat_objs ?c2 x"
    using reg by blast
  then have "stat_objs c3 x = Some (st\<lparr>s_usedby := [], s_formula := s_original st\<rparr>)"
    using obj2 by simp
  then have objx: "stat_objs c' x =
      Some (st\<lparr>s_usedby := [], s_formula := s_original st, s_uses := [], s_root := True,
               s_leaf := True, s_char := False\<rparr>)"
    using c' by (simp add: upd_stat_fields)
  have "agree_off x c ?c2"
    by (rule agree_off_upd)
  moreover have "agree_off x ?c2 c3"
    by (rule agree_off_same_up_to [OF frame])
  moreover have "agree_off x c3 c'"
    unfolding c' by (rule agree_off_upd)
  ultimately have agree: "agree_off x c c'"
    by (blast intro: agree_off_trans)
  have others: "\<exists>sy. stat_objs c' y = Some sy \<and> x \<notin> set (s_usedby sy)
      \<and> (s_usedby sy = [] \<longrightarrow> s_leaf sy)" if "y \<in> set (s_uses st)" for y
  proof -
    have "y \<noteq> x"
      using that notin by auto
    then have "stat_objs c' y = stat_objs c3 y"
      using c' by (simp add: upd_stat_fields)
    then show ?thesis
      using inside [OF that] by auto
  qed
  show ?thesis
    using agree objx others by blast
qed
section \<open>Stat.calc: the bonuses and the fixed point\<close>








subsection \<open>A second calc\<close>

lemma subst_no_alias:
  assumes "CHR ''$'' \<notin> set s" and "CHR ''#'' \<notin> set s"
  shows "subst_stats s names = (s, [])"
  using assms by (induction names) (simp_all add: subst_var_def VARS_def replace_absent)

lemma parse_5: "parse_expr ''5'' = Inr (Num 5)"
  by (simp add: lex_defs parse_defs)

lemma reused_5:
  "reused ''5'' f =
     \<lparr>stat_objs =
        [''x'' \<mapsto>
           \<lparr>s_char = False, s_formula = f, s_original = f, s_bonuses = [], s_uses = [],
            s_usedby = [], s_normal = PInt 5, s_value = PInt 5, s_root = True, s_leaf = True\<rparr>],
      stats = [''x''], bonuses = \<lambda>n. None, effects = \<lambda>n. None,
      BONUS_TYPES = [], BONUS_PERM = [], stacks = \<lambda>t. False\<rparr>"
  by (simp add: reused_def plug_def subst_no_alias parse_5 replace_absent subst_attrs_absent
      state_defs calc_defs unplug_numeral unplug_step_def set_formula_def
      del: subst_stats.simps)

lemma attrs_counting: "subst_attrs ''@value+1'' stat_dir = ''self.value+1''"
  by (simp add: stat_dir_def replace_def replace_from_numeral)

lemma normal_counting: "replace ''self.value+1'' ''.value'' ''.normal'' = ''self.normal+1''"
  by (simp add: replace_def replace_from_numeral)

lemma parse_counting:
  "parse_expr ''self.value+1'' = Inr (Bin Add (SelfAttr ''value'') (Num 1))"
  "parse_expr ''self.normal+1'' = Inr (Bin Add (SelfAttr ''normal'') (Num 1))"
  by (simp_all add: lex_defs parse_defs)

lemma self_counting_eq:
  "plug 5 (reused ''5'' ''@value+1'') ''x'' =
     Done
      \<lparr>stat_objs =
        [''x'' \<mapsto>
           \<lparr>s_char = True, s_formula = ''self.value+1'', s_original = ''@value+1'', s_bonuses = [],
            s_uses = [], s_usedby = [], s_normal = PInt 6, s_value = PInt 6, s_root = True,
            s_leaf = True\<rparr>],
      stats = [''x''], bonuses = \<lambda>n. None, effects = \<lambda>n. None,
      BONUS_TYPES = [], BONUS_PERM = [], stacks = \<lambda>t. False\<rparr>"
  by (simp add: reused_5 plug_def subst_no_alias attrs_counting normal_counting parse_counting
      state_defs calc_defs eval_defs del: subst_stats.simps)

text \<open>
  Claim C2 says that in an acyclic graph a second \<^verbatim>\<open>calc\<close> changes neither \<^verbatim>\<open>normal\<close> nor
  \<^verbatim>\<open>value\<close>. The graph holds the aliases \<^verbatim>\<open>$NAME\<close> and \<^verbatim>\<open>#NAME\<close> that \<^verbatim>\<open>plug\<close> found; \<^verbatim>\<open>plug\<close> also
  resolves \<^verbatim>\<open>@value\<close> to \<^verbatim>\<open>self.value\<close>, which the graph does not hold. The only stat of the sheet
  has the formula \<^verbatim>\<open>@value+1\<close>, uses no stat and is used by none. It is plugged in with
  \<^verbatim>\<open>normal\<close> and \<^verbatim>\<open>value\<close> 6; a \<^verbatim>\<open>calc\<close> with nothing in between returns and makes them 7.
\<close>

theorem calc_twice_differs:
  "raised (plug 5 (reused ''5'' ''@value+1'') ''x'') = None
   \<and> stats self_counting = [''x'']
   \<and> map_option (\<lambda>s. (s_char s, s_uses s, s_usedby s, s_normal s, s_value s))
        (stat_objs self_counting ''x'') = Some (True, [], [], PInt 6, PInt 6)
   \<and> raised (calc 5 self_counting ''x'') = None
   \<and> map_option (\<lambda>s. (s_normal s, s_value s))
        (stat_objs (state_of (calc 5 self_counting ''x'')) ''x'') = Some (PInt 7, PInt 7)"
  by (simp add: self_counting_def self_counting_eq normal_counting parse_counting state_defs
      calc_defs eval_defs)

lemma py_eq_refl: "py_eq v v"
  by (simp add: py_eq_def)

lemma stat_env_below:
  assumes "reads_below rank c x f" and "stat_objs d x \<noteq> None" and "stats d = stats c"
    and "\<And>y. rank y < rank x \<Longrightarrow> stat_objs d y = stat_objs c y"
  shows "py_eval (stat_env d x) f = py_eval (stat_env c x) f"
proof -
  have "env_self (stat_env d x) \<noteq> None \<and> \<not> env_char (stat_env d x)
        \<and> (\<forall>y. rank y < rank x \<longrightarrow> env_stats (stat_env d x) y = env_stats (stat_env c x) y)"
    using assms(2,3,4) by (simp add: stat_env_def char_stat_def)
  then show ?thesis
    using assms(1) by (simp add: reads_below_def)
qed

text \<open>
  A stat whose formula reads nothing but stats below it in the graph: after a \<^verbatim>\<open>calc\<close> that
  returned, a second \<^verbatim>\<open>calc\<close> on the stat returns and leaves every stat as it is.
\<close>

lemma calc_again:
  assumes "stat_objs c x = Some st" and "calc n c x = Done c'"
    and "ranked rank c (x # stats c)"
    and "reads_below rank c x (s_formula st)"
    and "reads_below rank c x (replace (s_formula st) ''.value'' ''.normal'')"
  shows "calc (Suc m) c' x = Done c'"
proof -
  obtain k st0 c1 where "n = Suc k" and st0: "stat_objs c x = Some st0" and char0: "s_char st0"
    and own: "calc_own c x st0 = Done c1" and same: "stat_objs c' x = stat_objs c1 x"
    and frame: "same_up_to no_values c c'"
    and low: "\<forall>z. z \<noteq> x \<and> \<not> rank x < rank z \<longrightarrow> stat_objs c' z = stat_objs c z"
    using calc_result [OF assms(2) assms(3)] by blast
  have st0_eq: "st0 = st"
    using st0 assms(1) by simp
  let ?f = "s_formula st"
  let ?t = "total_bonus c (s_bonuses st)"
  obtain nv base where
    nv: "py_eval (stat_env c x) (replace ?f ''.value'' ''.normal'') = Inr nv"
    and base: "py_eval (stat_env (upd_stat c x (\<lambda>s. s\<lparr>s_normal := nv\<rparr>)) x) ?f = Inr base"
    and fold: "raised (fold_bonuses c x base (s_bonuses st)) = None"
    and c1: "c1 = upd_stat c x (\<lambda>s. s\<lparr>s_normal := nv, s_value := plus_int base ?t\<rparr>)"
    using calc_own_eq [OF own st0] st0_eq by blast
  let ?st' = "st\<lparr>s_normal := nv, s_value := plus_int base ?t\<rparr>"
  have obj': "stat_objs c' x = Some ?st'"
    using same c1 assms(1) by (simp add: upd_stat_fields)
  have keys: "stats c' = stats c" and bon: "bonuses c' = bonuses c" and stk: "stacks c' = stacks c"
    using same_up_to_fields [OF frame] by simp_all
  have below: "stat_objs c' y = stat_objs c y" if "rank y < rank x" for y
    using low that by auto
  have "py_eval (stat_env (upd_stat c x (\<lambda>s. s\<lparr>s_normal := nv\<rparr>)) x) ?f = py_eval (stat_env c x) ?f"
  proof (rule stat_env_below [OF assms(4)])
    show "stat_objs (upd_stat c x (\<lambda>s. s\<lparr>s_normal := nv\<rparr>)) x \<noteq> None"
      using assms(1) by (simp add: upd_stat_fields)
    show "stats (upd_stat c x (\<lambda>s. s\<lparr>s_normal := nv\<rparr>)) = stats c"
      by (simp add: upd_stat_fields)
    show "stat_objs (upd_stat c x (\<lambda>s. s\<lparr>s_normal := nv\<rparr>)) y = stat_objs c y"
      if "rank y < rank x" for y
      using that by (auto simp add: upd_stat_fields)
  qed
  then have base0: "py_eval (stat_env c x) ?f = Inr base"
    using base by simp
  have nv': "py_eval (stat_env c' x) (replace (s_formula ?st') ''.value'' ''.normal'') = Inr nv"
    using stat_env_below [OF assms(5), of c'] obj' keys below nv by simp
  have same_n: "upd_stat c' x (\<lambda>s. s\<lparr>s_normal := nv\<rparr>) = c'"
    by (rule upd_stat_same [OF obj']) simp
  have base': "py_eval (stat_env (upd_stat c' x (\<lambda>s. s\<lparr>s_normal := nv\<rparr>)) x) (s_formula ?st') = Inr base"
    using stat_env_below [OF assms(4), of c'] obj' keys below base0 same_n by simp
  have fold': "raised (fold_bonuses c x base (s_bonuses ?st')) = None"
    using fold by simp
  have total: "total_bonus c' (s_bonuses st) = ?t"
    using total_bonus_cong [OF bon stk] by simp
  have "calc_own c' x ?st'
        = Done (upd_stat c' x
            (\<lambda>s. s\<lparr>s_normal := nv, s_value := plus_int base (total_bonus c' (s_bonuses ?st'))\<rparr>))"
    by (rule calc_own_Done [OF obj' nv' base' fold' bon [symmetric] stk [symmetric]])
  also have "upd_stat c' x
      (\<lambda>s. s\<lparr>s_normal := nv, s_value := plus_int base (total_bonus c' (s_bonuses ?st'))\<rparr>) = c'"
    by (rule upd_stat_same [OF obj']) (simp add: total)
  finally have own': "calc_own c' x ?st' = Done c'" .
  show ?thesis
    using obj' own' char0 st0_eq by (simp add: calc_step_def py_eq_refl)
qed

lemma dex_obj:
  \<open>stat_objs dex_plugged ''dex'' =
     Some \<lparr>s_char = True, s_formula = ''(self.char.stats["dexterity"].value-10)/2'',
           s_original = ''($dexterity-10)/2'', s_bonuses = [], s_uses = [''dexterity''],
           s_usedby = [], s_normal = PFloat (7 / 2), s_value = PFloat (7 / 2), s_root = False,
           s_leaf = True\<rparr>\<close>
  by (simp add: dex_plugged_state)

lemma dex_ranked: "ranked dex_rank dex_plugged (''dex'' # stats dex_plugged)"
  by (simp add: ranked_def dex_plugged_state dex_rank_def)

lemma dex_calc: "raised (calc 5 dex_plugged ''dex'') = None"
  by (simp add: dex_plugged_state normal_div parse_div parse_div_normal state_defs calc_defs
      eval_defs)

lemma dex_reads_below:
  \<open>reads_below dex_rank dex_plugged ''dex'' ''(self.char.stats["dexterity"].value-10)/2''\<close>
  \<open>reads_below dex_rank dex_plugged ''dex'' ''(self.char.stats["dexterity"].normal-10)/2''\<close>
proof -
  have env: "env_stats E ''dexterity'' = env_stats (stat_env dex_plugged ''dex'') ''dexterity''"
    if "\<forall>y. dex_rank y < dex_rank ''dex'' \<longrightarrow> env_stats E y = env_stats (stat_env dex_plugged ''dex'') y"
    for E :: env
    using that by (simp add: dex_rank_def)
  show \<open>reads_below dex_rank dex_plugged ''dex'' ''(self.char.stats["dexterity"].value-10)/2''\<close>
    unfolding reads_below_def
  proof (intro allI impI)
    fix E :: env
    assume a: "env_self E \<noteq> None \<and> \<not> env_char E
      \<and> (\<forall>y. dex_rank y < dex_rank ''dex'' \<longrightarrow> env_stats E y = env_stats (stat_env dex_plugged ''dex'') y)"
    then have "env_stats E ''dexterity'' = env_stats (stat_env dex_plugged ''dex'') ''dexterity''"
      using env [of E] by simp
    then show \<open>py_eval E ''(self.char.stats["dexterity"].value-10)/2''
        = py_eval (stat_env dex_plugged ''dex'') ''(self.char.stats["dexterity"].value-10)/2''\<close>
      using a by (cases "env_self E")
        (simp_all add: py_eval_def parse_div stat_env_def char_stat_def dex_plugged_state eval_defs)
  qed
  show \<open>reads_below dex_rank dex_plugged ''dex'' ''(self.char.stats["dexterity"].normal-10)/2''\<close>
    unfolding reads_below_def
  proof (intro allI impI)
    fix E :: env
    assume a: "env_self E \<noteq> None \<and> \<not> env_char E
      \<and> (\<forall>y. dex_rank y < dex_rank ''dex'' \<longrightarrow> env_stats E y = env_stats (stat_env dex_plugged ''dex'') y)"
    then have "env_stats E ''dexterity'' = env_stats (stat_env dex_plugged ''dex'') ''dexterity''"
      using env [of E] by simp
    then show \<open>py_eval E ''(self.char.stats["dexterity"].normal-10)/2''
        = py_eval (stat_env dex_plugged ''dex'') ''(self.char.stats["dexterity"].normal-10)/2''\<close>
      using a by (cases "env_self E")
        (simp_all add: py_eval_def parse_div_normal stat_env_def char_stat_def dex_plugged_state
          eval_defs)
  qed
qed

text \<open>
  When the stat's own part of \<^verbatim>\<open>calc\<close> leaves \<^verbatim>\<open>normal\<close> and \<^verbatim>\<open>value\<close> equal to what they were,
  \<^verbatim>\<open>calc\<close> returns there, whatever \<open>rec\<close>, the \<^verbatim>\<open>calc\<close> of the dependants, would do.
\<close>

lemma unchanged_no_propagation:
  assumes "stat_objs c x = Some st" and "s_char st" and "calc_own c x st = Done c1"
    and "stat_objs c1 x = Some st1"
    and "py_eq (s_value st) (s_value st1)" and "py_eq (s_normal st) (s_normal st1)"
  shows "calc_step rec c x = Done c1"
  using assms by (simp add: calc_step_def)

text \<open>
  Claim C2, as far as it holds. For every plugged stat, in any graph: a \<^verbatim>\<open>calc\<close> whose own part
  leaves \<^verbatim>\<open>normal\<close> and \<^verbatim>\<open>value\<close> equal (\<^verbatim>\<open>==\<close>) to what they were recomputes no dependant; the
  result is the same whatever the \<^verbatim>\<open>calc\<close> of a dependant would do. And in an acyclic graph,
  for a plugged stat whose formula reads nothing but stats below it (as a formula does whose
  only references are the aliases \<^verbatim>\<open>$NAME\<close> and \<^verbatim>\<open>#NAME\<close>): after a \<^verbatim>\<open>calc\<close> that returned, a second
  \<^verbatim>\<open>calc\<close> returns and leaves every stat as it is, with one level of calls, that is without a
  call of \<^verbatim>\<open>calc\<close> on a dependant. The values are those of the model, an \<^verbatim>\<open>int\<close> or a finite
  double: each equals itself, which a NaN does not.
\<close>

theorem calc_fixed_point:
  assumes "stat_objs c x = Some st" and "s_char st"
  shows "(calc_own c x st = Done c1 \<and> stat_objs c1 x = Some st1
            \<and> py_eq (s_value st) (s_value st1) \<and> py_eq (s_normal st) (s_normal st1)
          \<longrightarrow> calc_step rec c x = Done c1)
         \<and> (calc n c x = Done c' \<and> ranked rank c (x # stats c)
            \<and> reads_below rank c x (s_formula st)
            \<and> reads_below rank c x (replace (s_formula st) ''.value'' ''.normal'')
          \<longrightarrow> calc (Suc m) c' x = Done c')"
  using assms unchanged_no_propagation [of c x st c1 st1 rec]
    calc_again [of c x st n c' rank m]
  by blast

lemma dexterity_obj:
  "stat_objs dex_plugged ''dexterity'' =
     Some \<lparr>s_char = True, s_formula = ''17'', s_original = ''17'', s_bonuses = [], s_uses = [],
           s_usedby = [''dex''], s_normal = PInt 17, s_value = PInt 17, s_root = True,
           s_leaf = False\<rparr>"
  by (simp add: dex_plugged_state)

lemma dexterity_ranked: "ranked dex_rank dex_plugged (''dexterity'' # stats dex_plugged)"
  by (simp add: ranked_def dex_plugged_state dex_rank_def)

lemma eval_17: "py_eval E ''17'' = Inr (PInt 17)"
  by (simp add: py_eval_def parse_17)

lemma dexterity_reads_below: "reads_below dex_rank dex_plugged ''dexterity'' ''17''"
  by (simp add: reads_below_def eval_17)

lemma dexterity_own:
  "calc_own dex_plugged ''dexterity''
     \<lparr>s_char = True, s_formula = ''17'', s_original = ''17'', s_bonuses = [], s_uses = [],
      s_usedby = [''dex''], s_normal = PInt 17, s_value = PInt 17, s_root = True,
      s_leaf = False\<rparr> = Done dex_plugged"
proof -
  let ?st = "\<lparr>s_char = True, s_formula = ''17'', s_original = ''17'', s_bonuses = [], s_uses = [],
      s_usedby = [''dex''], s_normal = PInt 17, s_value = PInt 17, s_root = True,
      s_leaf = False\<rparr>"
  have "calc_own dex_plugged ''dexterity'' ?st
        = Done (upd_stat dex_plugged ''dexterity''
            (\<lambda>s. s\<lparr>s_normal := PInt 17,
                   s_value := plus_int (PInt 17) (total_bonus dex_plugged (s_bonuses ?st))\<rparr>))"
    by (rule calc_own_Done [where d = dex_plugged and y = "''dexterity''"])
      (simp_all add: dexterity_obj normal_17 eval_17)
  also have "upd_stat dex_plugged ''dexterity''
      (\<lambda>s. s\<lparr>s_normal := PInt 17,
             s_value := plus_int (PInt 17) (total_bonus dex_plugged (s_bonuses ?st))\<rparr>)
      = dex_plugged"
    by (rule upd_stat_same [OF dexterity_obj]) (simp add: total_bonus_def)
  finally show ?thesis .
qed

lemma dexterity_calc: "calc 5 dex_plugged ''dexterity'' = Done dex_plugged"
  using unchanged_no_propagation [OF dexterity_obj _ dexterity_own dexterity_obj, of "calc 4"]
  by (simp add: py_eq_refl calc_numeral)

theorem calc_fixed_point_witness:
  "map_option (\<lambda>s. (s_char s, s_usedby s)) (stat_objs dex_plugged ''dexterity'')
     = Some (True, [''dex''])
   \<and> calc_step (\<lambda>c y. Raised RecursionError c) dex_plugged ''dexterity'' = Done dex_plugged
   \<and> ranked dex_rank dex_plugged (''dexterity'' # stats dex_plugged)
   \<and> calc 5 dex_plugged ''dexterity'' = Done dex_plugged
   \<and> calc (Suc 0) dex_plugged ''dexterity'' = Done dex_plugged
   \<and> ranked dex_rank dex_plugged (''dex'' # stats dex_plugged)
   \<and> raised (calc 5 dex_plugged ''dex'') = None
   \<and> calc (Suc 0) (state_of (calc 5 dex_plugged ''dex'')) ''dex''
       = Done (state_of (calc 5 dex_plugged ''dex''))"
proof -
  have ret: "calc 5 dex_plugged ''dex'' = Done (state_of (calc 5 dex_plugged ''dex''))"
    using dex_calc by (cases "calc 5 dex_plugged ''dex''") simp_all
  note upper = calc_fixed_point [OF dexterity_obj, where ?c1.0 = dex_plugged
      and rec = "\<lambda>c y. Raised RecursionError c" and n = 5 and c' = dex_plugged
      and rank = dex_rank and m = 0
      and ?st1.0 = "\<lparr>s_char = True, s_formula = ''17'', s_original = ''17'', s_bonuses = [],
        s_uses = [], s_usedby = [''dex''], s_normal = PInt 17, s_value = PInt 17, s_root = True,
        s_leaf = False\<rparr>"]
  note lower = calc_fixed_point [OF dex_obj, where n = 5
      and c' = "state_of (calc 5 dex_plugged ''dex'')" and rank = dex_rank and m = 0]
  have "calc (Suc 0) (state_of (calc 5 dex_plugged ''dex'')) ''dex''
        = Done (state_of (calc 5 dex_plugged ''dex''))"
    using lower ret dex_ranked by (simp add: dex_reads_below normal_div)
  then show ?thesis
    using upper
    by (simp add: dexterity_obj dexterity_own dexterity_ranked dexterity_calc
        dexterity_reads_below normal_17 py_eq_refl dex_ranked dex_calc)
qed

section \<open>Stat.plug and Stat.unplug: the way back\<close>

lemma parse_minus_2: "parse_expr ''-2'' = Inr (Neg (Num 2))"
  by (simp add: lex_defs parse_defs)

lemma self_dividing_eq:
  "self_dividing =
     \<lparr>stat_objs =
        [''x'' \<mapsto>
           \<lparr>s_char = False, s_formula = ''1/(@value+1)'', s_original = ''1/(@value+1)'',
            s_bonuses = [], s_uses = [], s_usedby = [], s_normal = PInt (- 2),
            s_value = PInt (- 2), s_root = True, s_leaf = True\<rparr>],
      stats = [''x''], bonuses = \<lambda>n. None, effects = \<lambda>n. None,
      BONUS_TYPES = [], BONUS_PERM = [], stacks = \<lambda>t. False\<rparr>"
  by (simp add: self_dividing_def reused_def plug_def subst_no_alias parse_minus_2 replace_absent
      subst_attrs_absent state_defs calc_defs unplug_numeral unplug_step_def set_formula_def
      del: subst_stats.simps)

lemma attrs_dividing: "subst_attrs ''1/(@value+1)'' stat_dir = ''1/(self.value+1)''"
  by (simp add: stat_dir_def replace_def replace_from_numeral)

lemma normal_dividing:
  "replace ''1/(self.value+1)'' ''.value'' ''.normal'' = ''1/(self.normal+1)''"
  by (simp add: replace_def replace_from_numeral)

lemma parse_dividing:
  "parse_expr ''1/(self.value+1)'' =
     Inr (Bin TrueDiv (Num 1) (Bin Add (SelfAttr ''value'') (Num 1)))"
  "parse_expr ''1/(self.normal+1)'' =
     Inr (Bin TrueDiv (Num 1) (Bin Add (SelfAttr ''normal'') (Num 1)))"
  by (simp_all add: lex_defs parse_defs)

lemma self_dividing_plug:
  "plug 5 self_dividing ''x'' =
     Done
      \<lparr>stat_objs =
        [''x'' \<mapsto>
           \<lparr>s_char = True, s_formula = ''1/(self.value+1)'', s_original = ''1/(@value+1)'',
            s_bonuses = [], s_uses = [], s_usedby = [], s_normal = PFloat (- 1),
            s_value = PFloat (- 1), s_root = True, s_leaf = True\<rparr>],
      stats = [''x''], bonuses = \<lambda>n. None, effects = \<lambda>n. None,
      BONUS_TYPES = [], BONUS_PERM = [], stacks = \<lambda>t. False\<rparr>"
  by (simp add: self_dividing_eq plug_def subst_no_alias attrs_dividing normal_dividing
      parse_dividing state_defs calc_defs eval_defs del: subst_stats.simps)

lemma self_dividing_unplug:
  "unplug 5 self_dividing_plugged ''x'' False False =
     Done
      \<lparr>stat_objs =
        [''x'' \<mapsto>
           \<lparr>s_char = False, s_formula = ''1/(@value+1)'', s_original = ''1/(@value+1)'',
            s_bonuses = [], s_uses = [], s_usedby = [], s_normal = PFloat (- 1),
            s_value = PFloat (- 1), s_root = True, s_leaf = True\<rparr>],
      stats = [''x''], bonuses = \<lambda>n. None, effects = \<lambda>n. None,
      BONUS_TYPES = [], BONUS_PERM = [], stacks = \<lambda>t. False\<rparr>"
  by (simp add: self_dividing_plugged_def self_dividing_plug unplug_numeral unplug_step_def
      state_defs)

lemma self_dividing_replug:
  \<open>raised (plug 5 self_dividing_unplugged ''x'') =
     Some (FormulaError ''ZeroDivisionError in "1/(self.value+1)"'')\<close>
  by (simp add: self_dividing_unplugged_def self_dividing_unplug plug_def subst_no_alias
      attrs_dividing parse_dividing state_defs eval_defs py_eval_def formula_error_def
      del: subst_stats.simps)

text \<open>
  Claim C5 says that after a successful \<^verbatim>\<open>plug\<close> and \<^verbatim>\<open>unplug\<close> the stat can be plugged in again
  successfully. \<^verbatim>\<open>unplug\<close> restores the formula and the graph, and keeps \<^verbatim>\<open>normal\<close> and \<^verbatim>\<open>value\<close>
  as \<^verbatim>\<open>calc\<close> left them. The stat \<^verbatim>\<open>x\<close> has the formula \<^verbatim>\<open>1/(@value+1)\<close> and the value -2: \<^verbatim>\<open>plug\<close>
  succeeds and leaves the value \<^verbatim>\<open>1/(-2+1) = -1.0\<close>, \<^verbatim>\<open>unplug\<close> succeeds, and the second \<^verbatim>\<open>plug\<close>
  evaluates \<^verbatim>\<open>1/(-1.0+1)\<close> and raises FormulaError for the ZeroDivisionError.
\<close>

theorem replug_divides_by_zero:
  \<open>raised (plug 5 self_dividing ''x'') = None
   \<and> raised (unplug 5 self_dividing_plugged ''x'' False False) = None
   \<and> raised (plug 5 self_dividing_unplugged ''x'') =
       Some (FormulaError ''ZeroDivisionError in "1/(self.value+1)"'')\<close>
  by (simp add: self_dividing_plug self_dividing_unplug self_dividing_replug)


text \<open>
  Claim C5, as far as it holds. When \<^verbatim>\<open>plug\<close> has returned and the \<^verbatim>\<open>unplug\<close> after it has returned:
  the formula of the stat is its original text, its \<^verbatim>\<open>uses\<close> and \<^verbatim>\<open>usedby\<close> are empty, \<^verbatim>\<open>root\<close> and
  \<^verbatim>\<open>leaf\<close> are true and the stat is bound to no character; the names \<^verbatim>\<open>plug\<close> had found in the
  formula were in \<^verbatim>\<open>uses\<close>, and every stat named there no longer has the name of the stat in
  its \<^verbatim>\<open>usedby\<close> and is a leaf when its \<^verbatim>\<open>usedby\<close> is empty. A second \<^verbatim>\<open>plug\<close> returns, for a stat
  whose formula was its original text before the first \<^verbatim>\<open>plug\<close> (as the constructor and
  \<^verbatim>\<open>set_formula\<close> leave it), when the resolved formula reads neither the \<^verbatim>\<open>normal\<close> nor the \<^verbatim>\<open>value\<close>
  of the stat itself, which \<^verbatim>\<open>unplug\<close> does not reset.
\<close>

theorem unplug_undoes_plug:
  assumes "stat_objs c x = Some st" and "plug n c x = Done c1"
    and "unplug m c1 x False False = Done c2"
  shows "\<exists>st1 st2.
           stat_objs c1 x = Some st1 \<and> stat_objs c2 x = Some st2
           \<and> s_formula st2 = s_original st2 \<and> s_original st2 = s_original st
           \<and> s_uses st2 = [] \<and> s_usedby st2 = [] \<and> s_root st2 \<and> s_leaf st2 \<and> \<not> s_char st2
           \<and> set (s_uses st1) = set (s_uses st) \<union> set (snd (subst_stats (s_formula st) (stats c)))
           \<and> (\<forall>y\<in>set (s_uses st1). \<exists>sy. stat_objs c2 y = Some sy
                 \<and> x \<notin> set (s_usedby sy) \<and> (s_usedby sy = [] \<longrightarrow> s_leaf sy))
           \<and> (s_formula st = s_original st
                \<and> ignores_self x (resolved c (s_formula st))
                \<and> ignores_self x (replace (resolved c (s_formula st)) ''.value'' ''.normal'')
              \<longrightarrow> (\<exists>c3. plug n c2 x = Done c3))"
proof -
  let ?used = "snd (subst_stats (s_formula st) (stats c))"
  let ?G = "resolved c (s_formula st)"
  let ?b = "\<lambda>s. s\<lparr>s_char := True, s_uses := foldl set_add (s_uses s) ?used,
                  s_root := (if ?used = [] then s_root s else False)\<rparr>"
  let ?f = "\<lambda>s'. s'\<lparr>s_formula := ?G\<rparr>"
  let ?cA = "upd_stat c x ?b"
  let ?cB = "upd_stat (register ?cA x ?used) x ?f"
  obtain st1 where st1: "stat_objs c1 x = Some st1"
    using assms(3) by (cases m; cases "stat_objs c1 x") (simp_all add: unplug_step_def)
  have ub1: "s_usedby st1 = []"
    using unplug_Done [OF assms(3) st1] by blast
  note first = plug_Done [OF assms(1) assms(2) st1 ub1]
  have n: "n \<noteq> 0" and notin: "x \<notin> set ?used" and ub: "s_usedby st = []"
    using first by blast+
  obtain v nv v' where
    v: "py_eval ((stat_env ?cA x)\<lparr>env_char := True\<rparr>) ?G = Inr v"
    and nv: "py_eval (stat_env ?cB x) (replace ?G ''.value'' ''.normal'') = Inr nv"
    and v': "py_eval (stat_env (upd_stat ?cB x (\<lambda>s. s\<lparr>s_normal := nv\<rparr>)) x) ?G = Inr v'"
    and fold: "raised (fold_bonuses ?cB x v' (s_bonuses st)) = None"
    and c1: "c1 = upd_stat ?cB x
                    (\<lambda>s. s\<lparr>s_normal := nv,
                           s_value := plus_int v' (total_bonus ?cB (s_bonuses st))\<rparr>)"
    using first by blast
  have objB: "stat_objs ?cB x = Some ((?b st)\<lparr>s_formula := ?G\<rparr>)"
    using assms(1) notin by (simp add: upd_stat_fields register_obj)
  define w where "w = plus_int v' (total_bonus ?cB (s_bonuses st))"
  have c1': "c1 = upd_stat ?cB x (\<lambda>s. s\<lparr>s_normal := nv, s_value := w\<rparr>)"
    unfolding w_def by (rule c1)
  have "stat_objs c1 x = Some (((?b st)\<lparr>s_formula := ?G\<rparr>)\<lparr>s_normal := nv, s_value := w\<rparr>)"
    unfolding c1' by (rule upd_stat_obj [OF objB])
  then have st1_eq: "st1 = (?b st)\<lparr>s_formula := ?G, s_normal := nv, s_value := w\<rparr>"
    using st1 by simp
  note after = unplug_result [OF assms(3) st1]
  let ?st2 = "st1\<lparr>s_usedby := [], s_formula := s_original st1, s_uses := [], s_root := True,
                 s_leaf := True, s_char := False\<rparr>"
  have obj2: "stat_objs c2 x = Some ?st2"
    using after by blast
  have others: "\<forall>y\<in>set (s_uses st1). \<exists>sy. stat_objs c2 y = Some sy
      \<and> x \<notin> set (s_usedby sy) \<and> (s_usedby sy = [] \<longrightarrow> s_leaf sy)"
    using after by blast
  have uses1: "set (s_uses st1) = set (s_uses st) \<union> set ?used"
    by (simp add: st1_eq set_foldl_set_add)
  have orig2: "s_original ?st2 = s_original st"
    by (simp add: st1_eq)
  have again: "\<exists>c3. plug n c2 x = Done c3"
    if orig: "s_formula st = s_original st" and ig: "ignores_self x ?G"
      and ign: "ignores_self x (replace ?G ''.value'' ''.normal'')"
  proof -
    obtain k where k: "n = Suc k"
      using n by (cases n) simp_all
    let ?cA2 = "upd_stat c2 x ?b"
    let ?cB2 = "upd_stat (register ?cA2 x ?used) x ?f"
    have a1: "agree_off x c ?cA"
      by (rule agree_off_upd)
    have a2: "agree_off x c ?cB"
      by (rule agree_off_trans [OF a1 agree_off_trans [OF agree_off_register agree_off_upd]])
    have "agree_off x ?cB c1"
      unfolding c1' by (rule agree_off_upd)
    then have a3: "agree_off x c c2"
      using a2 after by (blast intro: agree_off_trans)
    have b1: "agree_off x c ?cA2"
      by (rule agree_off_trans [OF a3 agree_off_upd])
    have b2: "agree_off x c ?cB2"
      by (rule agree_off_trans [OF b1 agree_off_trans [OF agree_off_register agree_off_upd]])
    have keys: "stats c2 = stats c"
      using a3 by (simp add: agree_off_def)
    have form2: "s_formula ?st2 = s_formula st"
      using orig by (simp add: st1_eq)
    have used2: "snd (subst_stats (s_formula ?st2) (stats c2)) = ?used"
      by (simp only: form2 keys)
    have G2: "resolved c2 (s_formula ?st2) = ?G"
      by (simp only: form2 keys resolved_def)
    have ub2: "s_usedby ?st2 = []"
      by simp
    have objA: "stat_objs ?cA x \<noteq> None" and objA2: "stat_objs ?cA2 x \<noteq> None"
      and objB': "stat_objs ?cB x \<noteq> None" and objB2: "stat_objs ?cB2 x \<noteq> None"
      using assms(1) obj2 by (simp_all add: upd_stat_fields register_obj)
    have "py_eval ((stat_env ?cA2 x)\<lparr>env_char := True\<rparr>) ?G
          = py_eval ((stat_env ?cA x)\<lparr>env_char := True\<rparr>) ?G"
      by (rule eval_agree(2) [OF ig agree_off_trans [OF agree_off_sym [OF a1] b1] objA objA2])
    then have v2: "py_eval ((stat_env ?cA2 x)\<lparr>env_char := True\<rparr>) ?G = Inr v"
      using v by simp
    have "py_eval (stat_env ?cB2 x) (replace ?G ''.value'' ''.normal'')
          = py_eval (stat_env ?cB x) (replace ?G ''.value'' ''.normal'')"
      by (rule eval_agree(1) [OF ign agree_off_trans [OF agree_off_sym [OF a2] b2] objB' objB2])
    then have nv2: "py_eval (stat_env ?cB2 x) (replace ?G ''.value'' ''.normal'') = Inr nv"
      using nv by simp
    let ?n = "\<lambda>s. s\<lparr>s_normal := nv\<rparr>"
    have "agree_off x (upd_stat ?cB x ?n) (upd_stat ?cB2 x ?n)"
      by (rule agree_off_trans [OF agree_off_sym [OF agree_off_upd]
            agree_off_trans [OF agree_off_trans [OF agree_off_sym [OF a2] b2] agree_off_upd]])
    moreover have "stat_objs (upd_stat ?cB x ?n) x \<noteq> None"
      and "stat_objs (upd_stat ?cB2 x ?n) x \<noteq> None"
      using objB' objB2 by (simp_all add: upd_stat_fields)
    ultimately have "py_eval (stat_env (upd_stat ?cB2 x ?n) x) ?G
          = py_eval (stat_env (upd_stat ?cB x ?n) x) ?G"
      by (rule eval_agree(1) [OF ig])
    then have v'2: "py_eval (stat_env (upd_stat ?cB2 x ?n) x) ?G = Inr v'"
      using v' by simp
    have fold2: "raised (fold_bonuses ?cB x v' (s_bonuses ?st2)) = None"
      using fold by (simp add: st1_eq)
    have bon: "bonuses ?cB = bonuses c2" and stk: "stacks ?cB = stacks c2"
      using a2 a3 by (simp_all add: agree_off_def)
    show ?thesis
      unfolding k
      by (rule plug_leaf_Done [OF obj2 used2 G2 notin ub2 v2 nv2 v'2 fold2 bon stk])
  qed
  have last: "s_formula st = s_original st \<and> ignores_self x ?G
        \<and> ignores_self x (replace ?G ''.value'' ''.normal'')
      \<longrightarrow> (\<exists>c3. plug n c2 x = Done c3)"
    using again by blast
  have "stat_objs c1 x = Some st1 \<and> stat_objs c2 x = Some ?st2
      \<and> s_formula ?st2 = s_original ?st2 \<and> s_original ?st2 = s_original st
      \<and> s_uses ?st2 = [] \<and> s_usedby ?st2 = [] \<and> s_root ?st2 \<and> s_leaf ?st2 \<and> \<not> s_char ?st2"
    using st1 obj2 orig2 by simp
  then have "stat_objs c1 x = Some st1 \<and> stat_objs c2 x = Some ?st2
      \<and> s_formula ?st2 = s_original ?st2 \<and> s_original ?st2 = s_original st
      \<and> s_uses ?st2 = [] \<and> s_usedby ?st2 = [] \<and> s_root ?st2 \<and> s_leaf ?st2 \<and> \<not> s_char ?st2
      \<and> set (s_uses st1) = set (s_uses st) \<union> set ?used
      \<and> (\<forall>y\<in>set (s_uses st1). \<exists>sy. stat_objs c2 y = Some sy
            \<and> x \<notin> set (s_usedby sy) \<and> (s_usedby sy = [] \<longrightarrow> s_leaf sy))
      \<and> (s_formula st = s_original st \<and> ignores_self x ?G
           \<and> ignores_self x (replace ?G ''.value'' ''.normal'')
         \<longrightarrow> (\<exists>c3. plug n c2 x = Done c3))"
    using uses1 others last by (simp only: simp_thms)
  then show ?thesis
    by (intro exI [of _ st1] exI [of _ ?st2])
qed

lemma dex_sheet_obj: "stat_objs (dex_sheet f) ''dex'' = Some (Stat f)"
  by (simp add: dex_sheet_eq)

lemma dex_plug: \<open>plug 5 (dex_sheet ''($dexterity-10)/2'') ''dex'' = Done dex_plugged\<close>
  by (simp only: dex_plugged_state dex_plugged_eq)

lemma dex_unplug:
  \<open>unplug 5 dex_plugged ''dex'' False False =
     Done
      \<lparr>stat_objs =
         [''dexterity'' \<mapsto>
            \<lparr>s_char = True, s_formula = ''17'', s_original = ''17'', s_bonuses = [], s_uses = [],
             s_usedby = [], s_normal = PInt 17, s_value = PInt 17, s_root = True,
             s_leaf = True\<rparr>,
          ''dex'' \<mapsto>
            \<lparr>s_char = False, s_formula = ''($dexterity-10)/2'', s_original = ''($dexterity-10)/2'',
             s_bonuses = [], s_uses = [], s_usedby = [], s_normal = PFloat (7 / 2),
             s_value = PFloat (7 / 2), s_root = True, s_leaf = True\<rparr>],
       stats = [''dexterity'', ''dex''], bonuses = \<lambda>n. None, effects = \<lambda>n. None,
       BONUS_TYPES = [], BONUS_PERM = [], stacks = \<lambda>t. False\<rparr>\<close>
  by (simp add: dex_plugged_state unplug_numeral unplug_step_def state_defs)

lemma dex_unplug_Done: "unplug 5 dex_plugged ''dex'' False False = Done dex_unplugged"
  by (simp add: dex_unplugged_def dex_unplug)

lemma dex_graph:
  "map_option s_uses (stat_objs dex_plugged ''dex'') = Some [''dexterity'']"
  "map_option s_usedby (stat_objs dex_plugged ''dexterity'') = Some [''dex'']"
  by (simp_all add: dex_plugged_state)

lemma dex_unplugged_graph:
  "map_option (\<lambda>s. (s_formula s, s_original s, s_uses s, s_usedby s, s_root s, s_leaf s, s_char s))
     (stat_objs dex_unplugged ''dex'')
   = Some (''($dexterity-10)/2'', ''($dexterity-10)/2'', [], [], True, True, False)"
  "map_option (\<lambda>s. (s_usedby s, s_leaf s)) (stat_objs dex_unplugged ''dexterity'') = Some ([], True)"
  by (simp_all add: dex_unplugged_def dex_unplug)

lemma dex_resolved:
  \<open>resolved (dex_sheet ''($dexterity-10)/2'') ''($dexterity-10)/2''
     = ''(self.char.stats["dexterity"].value-10)/2''\<close>
  by (simp add: resolved_def dex_sheet_eq subst_div subst_attrs_absent del: subst_stats.simps)

lemma dex_ignores_self:
  \<open>ignores_self ''dex'' ''(self.char.stats["dexterity"].value-10)/2''\<close>
  \<open>ignores_self ''dex'' ''(self.char.stats["dexterity"].normal-10)/2''\<close>
proof -
  have env: "env_stats E' ''dexterity'' = env_stats E ''dexterity''"
    if "\<forall>y. y \<noteq> ''dex'' \<longrightarrow> env_stats E' y = env_stats E y" for E E' :: env
    using that by simp
  show \<open>ignores_self ''dex'' ''(self.char.stats["dexterity"].value-10)/2''\<close>
    unfolding ignores_self_def
  proof (intro allI impI)
    fix E E' :: env
    assume a: "env_char E' = env_char E \<and> env_self E \<noteq> None \<and> env_self E' \<noteq> None
      \<and> (\<forall>y. y \<noteq> ''dex'' \<longrightarrow> env_stats E' y = env_stats E y)"
    then have "env_stats E' ''dexterity'' = env_stats E ''dexterity''"
      using env [of E' E] by simp
    then show \<open>py_eval E' ''(self.char.stats["dexterity"].value-10)/2''
        = py_eval E ''(self.char.stats["dexterity"].value-10)/2''\<close>
      using a by (auto simp add: py_eval_def parse_div split: sum.splits)
  qed
  show \<open>ignores_self ''dex'' ''(self.char.stats["dexterity"].normal-10)/2''\<close>
    unfolding ignores_self_def
  proof (intro allI impI)
    fix E E' :: env
    assume a: "env_char E' = env_char E \<and> env_self E \<noteq> None \<and> env_self E' \<noteq> None
      \<and> (\<forall>y. y \<noteq> ''dex'' \<longrightarrow> env_stats E' y = env_stats E y)"
    then have "env_stats E' ''dexterity'' = env_stats E ''dexterity''"
      using env [of E' E] by simp
    then show \<open>py_eval E' ''(self.char.stats["dexterity"].normal-10)/2''
        = py_eval E ''(self.char.stats["dexterity"].normal-10)/2''\<close>
      using a by (auto simp add: py_eval_def parse_div_normal split: sum.splits)
  qed
qed

theorem unplug_undoes_plug_witness:
  \<open>plug 5 (dex_sheet ''($dexterity-10)/2'') ''dex'' = Done dex_plugged
   \<and> unplug 5 dex_plugged ''dex'' False False = Done dex_unplugged
   \<and> map_option s_uses (stat_objs dex_plugged ''dex'') = Some [''dexterity'']
   \<and> map_option s_usedby (stat_objs dex_plugged ''dexterity'') = Some [''dex'']
   \<and> map_option (\<lambda>s. (s_formula s, s_original s, s_uses s, s_usedby s, s_root s, s_leaf s, s_char s))
        (stat_objs dex_unplugged ''dex'')
       = Some (''($dexterity-10)/2'', ''($dexterity-10)/2'', [], [], True, True, False)
   \<and> map_option (\<lambda>s. (s_usedby s, s_leaf s)) (stat_objs dex_unplugged ''dexterity'')
       = Some ([], True)
   \<and> ignores_self ''dex'' ''(self.char.stats["dexterity"].value-10)/2''
   \<and> ignores_self ''dex'' ''(self.char.stats["dexterity"].normal-10)/2''
   \<and> raised (plug 5 dex_unplugged ''dex'') = None\<close>
proof -
  from unplug_undoes_plug [OF dex_sheet_obj dex_plug dex_unplug_Done]
  have "\<exists>c3. plug 5 dex_unplugged ''dex'' = Done c3"
    by (auto simp add: Stat_def dex_resolved normal_div dex_ignores_self)
  then have "raised (plug 5 dex_unplugged ''dex'') = None"
    by auto
  then show ?thesis
    by (simp only: dex_plug dex_unplug_Done dex_graph dex_unplugged_graph dex_ignores_self
        simp_thms)
qed
end
